theory Spec2Isabelle
  imports Main "HOL-Library.Sublist" "HOL-Library.AList"
begin

section \<open>Python values and string helpers\<close>

text \<open>
  Strings are byte lists holding the UTF-8 encoding of the Python string. Substring and
  prefix tests on valid UTF-8 agree with the tests on code points, so \<open>in\<close>,
  \<open>endswith\<close>, \<open>rstrip('/')\<close> and \<open>split('/')\<close> are modelled on bytes.
  The Chinese message fragments of the source are written byte by byte.
\<close>

text \<open>\<open>needle in hay\<close> on Python strings.\<close>

fun str_contains :: "string \<Rightarrow> string \<Rightarrow> bool" where
  "str_contains needle [] = (needle = [])"
| "str_contains needle (c # cs) = (prefix needle (c # cs) \<or> str_contains needle cs)"

text \<open>
  \<open>str.lower()\<close>: the ASCII capitals are mapped to small letters, every other byte is kept.
  The only use is the test \<open>"timeout" in latest_error.lower()\<close>; no code point outside
  ASCII lower-cases to a string that can complete the word \<open>timeout\<close>, so the test has the
  same value as in Python.
\<close>

definition lower_char :: "char \<Rightarrow> char" where
  "lower_char c =
     (case map_of (zip ''ABCDEFGHIJKLMNOPQRSTUVWXYZ'' ''abcdefghijklmnopqrstuvwxyz'') c of
        Some d \<Rightarrow> d
      | None \<Rightarrow> c)"

definition str_lower :: "string \<Rightarrow> string" where
  "str_lower s = map lower_char s"

text \<open>\<open>s.endswith('/')\<close> and \<open>s.rstrip('/')\<close>.\<close>

definition ends_with_slash :: "string \<Rightarrow> bool" where
  "ends_with_slash s = (s \<noteq> [] \<and> last s = CHR ''/'')"

definition rstrip_slash :: "string \<Rightarrow> string" where
  "rstrip_slash s = rev (dropWhile (\<lambda>c. c = CHR ''/'') (rev s))"

text \<open>\<open>s.split('/')[-1]\<close>: the part of \<open>s\<close> after its last slash.\<close>

definition last_segment :: "string \<Rightarrow> string" where
  "last_segment s = rev (takeWhile (\<lambda>c. c \<noteq> CHR ''/'') (rev s))"

text \<open>\<open>str(n)\<close> for a length, in decimal.\<close>

definition digit_char :: "nat \<Rightarrow> char" where
  "digit_char d = ''0123456789'' ! d"

function str_nat :: "nat \<Rightarrow> string" where
  "str_nat n = (if n < 10 then [digit_char n] else str_nat (n div 10) @ [digit_char (n mod 10)])"
  by pat_completeness auto
termination
  by (relation "measure id") auto

text \<open>
  The values a provider hands over in \<open>file_ext\<close> and the engine copies into its
  dictionaries (\<open>Any\<close> in the source): JSON null, integers and strings. Python's \<open>==\<close> on
  these is equality of the datatype.
\<close>

datatype pyval = PNone | PInt int | PStr string

type_synonym pydict = "(string \<times> pyval) list"

text \<open>
  A \<open>dict\<close> is an association list in insertion order; \<open>d[k] = v\<close> is
  \<open>AList.update k v d\<close> (an existing key keeps its place, a new key goes last),
  \<open>d.get(k, dflt)\<close> is \<open>dict_get\<close>.
\<close>

definition dict_get :: "(string \<times> 'v) list \<Rightarrow> string \<Rightarrow> 'v \<Rightarrow> 'v" where
  "dict_get d k dflt = (case map_of d k of Some v \<Rightarrow> v | None \<Rightarrow> dflt)"

definition dict_has :: "(string \<times> 'v) list \<Rightarrow> string \<Rightarrow> bool" where
  "dict_has d k = (map_of d k \<noteq> None)"

text \<open>Truthiness (\<open>if not file_id\<close>) and \<open>str(v)\<close> inside an f-string.\<close>

fun truthy :: "pyval \<Rightarrow> bool" where
  "truthy PNone = False"
| "truthy (PInt i) = (i \<noteq> 0)"
| "truthy (PStr s) = (s \<noteq> [])"

fun py_str :: "pyval \<Rightarrow> string" where
  "py_str PNone = ''None''"
| "py_str (PInt i) = (if i < 0 then CHR ''-'' # str_nat (nat (- i)) else str_nat (nat i))"
| "py_str (PStr s) = s"

section \<open>Message fragments\<close>

text \<open>UTF-8 bytes of the Chinese words used in the engine's error strings.\<close>

definition zh_failed :: string where \<comment> \<open>U+5931 U+8D25, "failed"\<close>
  "zh_failed = [CHR 0xE5, CHR 0xA4, CHR 0xB1, CHR 0xE8, CHR 0xB4, CHR 0xA5]"

definition zh_batch :: string where \<comment> \<open>U+6279 U+91CF, "batch"\<close>
  "zh_batch = [CHR 0xE6, CHR 0x89, CHR 0xB9, CHR 0xE9, CHR 0x87, CHR 0x8F]"

definition zh_transfer :: string where \<comment> \<open>U+8F6C U+5B58, "transfer"\<close>
  "zh_transfer = [CHR 0xE8, CHR 0xBD, CHR 0xAC, CHR 0xE5, CHR 0xAD, CHR 0x98]"

definition zh_delete :: string where \<comment> \<open>U+5220 U+9664, "delete"\<close>
  "zh_delete = [CHR 0xE5, CHR 0x88, CHR 0xA0, CHR 0xE9, CHR 0x99, CHR 0xA4]"

definition zh_directory :: string where \<comment> \<open>U+76EE U+5F55, "directory"\<close>
  "zh_directory = [CHR 0xE7, CHR 0x9B, CHR 0xAE, CHR 0xE5, CHR 0xBD, CHR 0x95]"

definition zh_scan :: string where \<comment> \<open>U+626B U+63CF, "scan"\<close>
  "zh_scan = [CHR 0xE6, CHR 0x89, CHR 0xAB, CHR 0xE6, CHR 0x8F, CHR 0x8F]"

definition zh_source :: string where \<comment> \<open>U+6E90, "source"\<close>
  "zh_source = [CHR 0xE6, CHR 0xBA, CHR 0x90]"

definition zh_create :: string where \<comment> \<open>U+521B U+5EFA, "create"\<close>
  "zh_create = [CHR 0xE5, CHR 0x88, CHR 0x9B, CHR 0xE5, CHR 0xBB, CHR 0xBA]"

definition zh_error :: string where \<comment> \<open>U+9519 U+8BEF, "error"\<close>
  "zh_error = [CHR 0xE9, CHR 0x94, CHR 0x99, CHR 0xE8, CHR 0xAF, CHR 0xAF]"

definition zh_file :: string where \<comment> \<open>U+6587 U+4EF6, "file"\<close>
  "zh_file = [CHR 0xE6, CHR 0x96, CHR 0x87, CHR 0xE4, CHR 0xBB, CHR 0xB6]"

definition zh_missing :: string where \<comment> \<open>U+7F3A U+5C11, "lacks"\<close>
  "zh_missing = [CHR 0xE7, CHR 0xBC, CHR 0xBA, CHR 0xE5, CHR 0xB0, CHR 0x91]"

definition zh_colon :: string where \<comment> \<open>U+FF1A, full-width colon\<close>
  "zh_colon = [CHR 0xEF, CHR 0xBC, CHR 0x9A]"

definition zh_returned :: string where \<comment> \<open>U+8FD4 U+56DE, "returned"\<close>
  "zh_returned = [CHR 0xE8, CHR 0xBF, CHR 0x94, CHR 0xE5, CHR 0x9B, CHR 0x9E]"

definition zh_involving :: string where \<comment> \<open>U+FF0C U+6D89 U+53CA, ", involving"\<close>
  "zh_involving = [CHR 0xEF, CHR 0xBC, CHR 0x8C, CHR 0xE6, CHR 0xB6, CHR 0x89, CHR 0xE5, CHR 0x8F, CHR 0x8A]"

definition zh_count :: string where \<comment> \<open>U+4E2A, the counting word\<close>
  "zh_count = [CHR 0xE4, CHR 0xB8, CHR 0xAA]"

definition zh_exception :: string where \<comment> \<open>U+5F02 U+5E38, "exception"\<close>
  "zh_exception = [CHR 0xE5, CHR 0xBC, CHR 0x82, CHR 0xE5, CHR 0xB8, CHR 0xB8]"

definition zh_overwrite_sync :: string where \<comment> \<open>U+8986 U+76D6 U+540C U+6B65, "overwrite sync"\<close>
  "zh_overwrite_sync = [CHR 0xE8, CHR 0xA6, CHR 0x86, CHR 0xE7, CHR 0x9B, CHR 0x96,
                        CHR 0xE5, CHR 0x90, CHR 0x8C, CHR 0xE6, CHR 0xAD, CHR 0xA5]"

definition zh_task_aborted :: string where \<comment> \<open>U+4EFB U+52A1 U+7EC8 U+6B62 U+FF1A, "task aborted:"\<close>
  "zh_task_aborted = [CHR 0xE4, CHR 0xBB, CHR 0xBB, CHR 0xE5, CHR 0x8A, CHR 0xA1,
                      CHR 0xE7, CHR 0xBB, CHR 0x88, CHR 0xE6, CHR 0xAD, CHR 0xA2] @ zh_colon"

definition zh_total_reached :: string where \<comment> \<open>U+603B U+9519 U+8BEF U+6570 U+91CF U+8FBE U+5230, "total error count reached"\<close>
  "zh_total_reached = [CHR 0xE6, CHR 0x80, CHR 0xBB] @ zh_error @
                      [CHR 0xE6, CHR 0x95, CHR 0xB0, CHR 0xE9, CHR 0x87, CHR 0x8F,
                       CHR 0xE8, CHR 0xBE, CHR 0xBE, CHR 0xE5, CHR 0x88, CHR 0xB0]"

definition zh_consecutive :: string where \<comment> \<open>U+8FDE U+7EED, "consecutive"\<close>
  "zh_consecutive = [CHR 0xE8, CHR 0xBF, CHR 0x9E, CHR 0xE7, CHR 0xBB, CHR 0xAD]"

definition zh_times :: string where \<comment> \<open>U+6B21, "times"\<close>
  "zh_times = [CHR 0xE6, CHR 0xAC, CHR 0xA1]"

definition zh_account_conflict :: string where \<comment> \<open>U+8D26 U+6237 U+51B2 U+7A81, "account conflict"\<close>
  "zh_account_conflict = [CHR 0xE8, CHR 0xB4, CHR 0xA6, CHR 0xE6, CHR 0x88, CHR 0xB7,
                          CHR 0xE5, CHR 0x86, CHR 0xB2, CHR 0xE7, CHR 0xAA, CHR 0x81]"

definition zh_network :: string where \<comment> \<open>U+7F51 U+7EDC, "network"\<close>
  "zh_network = [CHR 0xE7, CHR 0xBD, CHR 0x91, CHR 0xE7, CHR 0xBB, CHR 0x9C]"

definition zh_reached :: string where \<comment> \<open>U+8FBE U+5230, "reached"\<close>
  "zh_reached = [CHR 0xE8, CHR 0xBE, CHR 0xBE, CHR 0xE5, CHR 0x88, CHR 0xB0]"

definition zh_unfinished_task :: string where
  \<comment> \<open>U+5F53 U+524D U+8FD8 U+6709 U+672A U+5B8C U+6210 U+7684 U+4EFB U+52A1, "there is still an unfinished task"\<close>
  "zh_unfinished_task = [CHR 0xE5, CHR 0xBD, CHR 0x93, CHR 0xE5, CHR 0x89, CHR 0x8D,
                         CHR 0xE8, CHR 0xBF, CHR 0x98, CHR 0xE6, CHR 0x9C, CHR 0x89,
                         CHR 0xE6, CHR 0x9C, CHR 0xAA, CHR 0xE5, CHR 0xAE, CHR 0x8C,
                         CHR 0xE6, CHR 0x88, CHR 0x90, CHR 0xE7, CHR 0x9A, CHR 0x84,
                         CHR 0xE4, CHR 0xBB, CHR 0xBB, CHR 0xE5, CHR 0x8A, CHR 0xA1]"

section \<open>Data model\<close>

text \<open>
  Modelled from the spec: the enumerations of \<open>backend.app.coulddrive.schema.enum\<close>
  (\<open>SyncMethod\<close>, \<open>RecursionSpeed\<close>, \<open>MatchTarget\<close>), which the services import. The
  spec gives the method values \<open>incremental | full | overwrite\<close>, the speeds
  \<open>slow | normal | fast\<close> and the rule targets \<open>name | path | extension\<close>.
\<close>

definition SyncMethod_INCREMENTAL :: string where
  "SyncMethod_INCREMENTAL = ''incremental''"

definition SyncMethod_FULL :: string where
  "SyncMethod_FULL = ''full''"

definition SyncMethod_OVERWRITE :: string where
  "SyncMethod_OVERWRITE = ''overwrite''"

datatype RecursionSpeed = SLOW | NORMAL | FAST

datatype MatchTarget = NAME | PATH | EXTENSION

text \<open>
  \<open>BaseFileInfo\<close>, with the fields the engine reads (\<open>parent_id\<close>, \<open>created_at\<close> and
  \<open>updated_at\<close> are never read by it).
\<close>

record BaseFileInfo =
  file_id :: string
  file_name :: string
  file_path :: string
  is_folder :: bool
  file_size :: "int option"
  file_ext :: pydict

text \<open>One entry of \<open>ext['files_ext_info']\<close>: \<open>{'file_id': ..., 'file_ext': {...}}\<close>.\<close>

record file_ext_info =
  fei_file_id :: pyval
  fei_file_ext :: pydict

text \<open>
  A value of the \<open>ext\<close> dictionary of a transfer: a plain value, or the list stored under
  \<open>files_ext_info\<close>.
\<close>

datatype extval = EVal pyval | EFilesExt "file_ext_info list"

record ShareSourceDefinition =
  src_file_path :: string
  src_source_type :: string
  src_source_id :: string
  src_ext_params :: "(string \<times> extval) list"

record DiskTargetDefinition =
  dst_file_path :: string
  dst_file_id :: string

text \<open>The parameter objects handed to the drive manager.\<close>

record ListShareFilesParam =
  ls_drive_type :: string
  ls_source_type :: string
  ls_source_id :: string
  ls_file_path :: string

record ListFilesParam =
  lf_drive_type :: string
  lf_file_path :: string
  lf_file_id :: string

record MkdirParam =
  mk_drive_type :: string
  mk_file_path :: string
  mk_file_name :: string
  mk_parent_id :: string
  mk_return_if_exist :: bool

record RemoveParam =
  rm_drive_type :: string
  rm_file_paths :: "string list option"
  rm_file_ids :: "string list option"
  rm_parent_id :: string

record TransferParam =
  tp_drive_type :: string
  tp_source_type :: string
  tp_source_id :: string
  tp_source_path :: string
  tp_target_path :: string
  tp_target_id :: string
  tp_file_ids :: "pyval list"
  tp_ext :: "(string \<times> extval) list"

datatype call =
    CallShareList ListShareFilesParam
  | CallDiskList ListFilesParam
  | CallMkdir MkdirParam
  | CallTransfer TransferParam
  | CallRemove RemoveParam

text \<open>
  The drive manager (\<open>yp_service\<close>, the provider clients and the remote drive behind them)
  is a parameter of the engine: each operation takes the provider-side state \<open>'w\<close> and
  returns its result with the new state. \<open>Inl msg\<close> is a raised exception whose \<open>str(e)\<close>
  is \<open>msg\<close>. The record carries one more thing the engine gets from outside the
  repository's files, which is not a method of the drive manager: \<open>pydantic_str\<close>, the text
  \<open>str(e)\<close> the installed pydantic renders for the validation error of a parameter model,
  given the model's name and the input values its validators were handed (the text names
  the model and the fields and echoes the offending values).
\<close>

record 'w drive_manager =
  dm_get_share_list :: "ListShareFilesParam \<Rightarrow> 'w \<Rightarrow> (string + BaseFileInfo list) \<times> 'w"
  dm_get_disk_list :: "ListFilesParam \<Rightarrow> 'w \<Rightarrow> (string + BaseFileInfo list) \<times> 'w"
  dm_create_mkdir :: "MkdirParam \<Rightarrow> 'w \<Rightarrow> (string + BaseFileInfo option) \<times> 'w"
  dm_transfer_files :: "TransferParam \<Rightarrow> 'w \<Rightarrow> (string + bool) \<times> 'w"
  dm_remove_files :: "RemoveParam \<Rightarrow> 'w \<Rightarrow> (string + bool) \<times> 'w"
  pydantic_str :: "string \<Rightarrow> pyval list \<Rightarrow> string"

text \<open>One \<open>SyncTaskItem\<close> row written by \<open>record_task_item\<close>.\<close>

record task_item =
  ti_type :: string
  ti_src_path :: pyval
  ti_dst_path :: pyval
  ti_file_name :: pyval
  ti_file_size :: pyval
  ti_status :: string
  ti_err_msg :: "string option"

text \<open>
  The mutable state of one run: the \<open>stats\<close> dictionary, the provider-side state, and
  three logs: the calls made to the drive manager, the \<open>asyncio.sleep\<close> durations, and
  the task items appended to the database session.
\<close>

record 'w sync_state =
  files_processed :: int
  folder_created :: int
  files_transferred :: int
  files_deleted :: int
  files_skipped :: int
  errors :: "string list"
  world :: 'w
  calls :: "call list"
  sleeps :: "nat list"
  task_items :: "task_item list"

text \<open>
  What stays fixed during a run. \<open>item_filter\<close> is \<open>ItemFilter.should_exclude\<close> of the
  compiled exclusion rules (\<open>None\<close> when there are no rules).
\<close>

record 'w sync_ctx =
  drive_manager :: "'w drive_manager"
  drive_type :: string
  source_definition :: ShareSourceDefinition
  sync_method :: string
  recursion_speed :: RecursionSpeed
  item_filter :: "(BaseFileInfo \<Rightarrow> bool) option"
  max_depth :: nat
  task_id :: "int option"
  has_db :: bool

type_synonym file_map = "(string \<times> pydict) list"

text \<open>An entry of the list given to \<open>delete_files\<close>, a dictionary with these four keys.\<close>

record del_file =
  df_file_name :: string
  df_file_size :: pyval
  df_target_path :: string
  df_file_id :: pyval

section \<open>The engine's helpers\<close>

definition init_state :: "'w \<Rightarrow> 'w sync_state" where
  "init_state w = \<lparr>files_processed = 0, folder_created = 0, files_transferred = 0,
     files_deleted = 0, files_skipped = 0, errors = [], world = w, calls = [],
     sleeps = [], task_items = []\<rparr>"

definition asyncio_sleep :: "nat \<Rightarrow> 'w sync_state \<Rightarrow> 'w sync_state" where
  "asyncio_sleep n st = st\<lparr>sleeps := sleeps st @ [n]\<rparr>"

definition add_error :: "string \<Rightarrow> 'w sync_state \<Rightarrow> 'w sync_state" where
  "add_error msg st = st\<lparr>errors := errors st @ [msg]\<rparr>"

text \<open>\<open>if task_id and db: await self.record_task_item(...)\<close>.\<close>

definition recording :: "'w sync_ctx \<Rightarrow> bool" where
  "recording ctx = ((case task_id ctx of Some t \<Rightarrow> t \<noteq> 0 | None \<Rightarrow> False) \<and> has_db ctx)"

definition record_task_item :: "'w sync_ctx \<Rightarrow> task_item \<Rightarrow> 'w sync_state \<Rightarrow> 'w sync_state" where
  "record_task_item ctx item st =
     (if recording ctx then st\<lparr>task_items := task_items st @ [item]\<rparr> else st)"

definition copy_item :: "pydict \<Rightarrow> string \<Rightarrow> string option \<Rightarrow> task_item" where
  "copy_item file_info status err =
     \<lparr>ti_type = ''copy'',
      ti_src_path = dict_get file_info ''source_path'' (PStr []),
      ti_dst_path = dict_get file_info ''target_path'' (PStr []),
      ti_file_name = dict_get file_info ''file_name'' (PStr []),
      ti_file_size = dict_get file_info ''file_size'' (PInt 0),
      ti_status = status, ti_err_msg = err\<rparr>"

definition delete_item :: "del_file \<Rightarrow> string \<Rightarrow> string option \<Rightarrow> task_item" where
  "delete_item f status err =
     \<lparr>ti_type = ''delete'', ti_src_path = PStr [], ti_dst_path = PStr (df_target_path f),
      ti_file_name = PStr (df_file_name f), ti_file_size = df_file_size f,
      ti_status = status, ti_err_msg = err\<rparr>"

definition record_all :: "'w sync_ctx \<Rightarrow> task_item list \<Rightarrow> 'w sync_state \<Rightarrow> 'w sync_state" where
  "record_all ctx items st = fold (record_task_item ctx) items st"

text \<open>The pause after a batched transfer or delete.\<close>

definition speed_sleep :: "'w sync_ctx \<Rightarrow> nat \<Rightarrow> 'w sync_state \<Rightarrow> 'w sync_state" where
  "speed_sleep ctx slow_seconds st =
     (if recursion_speed ctx = SLOW then asyncio_sleep slow_seconds st
      else if recursion_speed ctx = NORMAL then asyncio_sleep 1 st
      else st)"

subsection \<open>\<open>list_dir\<close>\<close>

definition file_key :: "BaseFileInfo \<Rightarrow> string" where
  "file_key f = (if is_folder f then file_name f @ ''/'' else file_name f)"

definition dict_update_all :: "(string \<times> 'v) list \<Rightarrow> (string \<times> 'v) list \<Rightarrow> (string \<times> 'v) list" where
  "dict_update_all d other = fold (\<lambda>(k, v) acc. AList.update k v acc) other d"

definition make_file_info :: "bool \<Rightarrow> BaseFileInfo \<Rightarrow> pydict" where
  "make_file_info is_src f =
     (let size = (if is_folder f then PInt 0
                  else (case file_size f of Some n \<Rightarrow> PInt n | None \<Rightarrow> PNone));
          info = [(''file_size'', size), (''file_id'', PStr (file_id f))]
      in if is_src \<and> file_ext f \<noteq> [] then dict_update_all info (file_ext f) else info)"

definition excluded :: "'w sync_ctx \<Rightarrow> BaseFileInfo \<Rightarrow> bool" where
  "excluded ctx f =
     (case item_filter ctx of Some should_exclude \<Rightarrow> should_exclude f | None \<Rightarrow> False)"

fun build_file_map :: "'w sync_ctx \<Rightarrow> bool \<Rightarrow> BaseFileInfo list \<Rightarrow> file_map \<Rightarrow> file_map" where
  "build_file_map ctx is_src [] fm = fm"
| "build_file_map ctx is_src (f # files) fm =
     (if excluded ctx f then build_file_map ctx is_src files fm
      else build_file_map ctx is_src files
             (AList.update (file_key f) (make_file_info is_src f) fm))"

text \<open>
  The rendered text of the validation error raised by the constructor of the parameter
  model \<open>model\<close> on the input values \<open>inputs\<close>.
\<close>

definition validation_error_text :: "'w sync_ctx \<Rightarrow> string \<Rightarrow> pyval list \<Rightarrow> string" where
  "validation_error_text ctx model inputs = pydantic_str (drive_manager ctx) model inputs"

text \<open>
  \<open>list_dir\<close> returns the file map, or re-raises the exception of the drive manager or
  of the parameter schema. The id of a disk listing is \<open>target_id or ""\<close>, which the
  schema wants to be a string.
\<close>

definition list_dir ::
  "'w sync_ctx \<Rightarrow> string \<Rightarrow> bool \<Rightarrow> pyval \<Rightarrow> 'w sync_state
     \<Rightarrow> (string + file_map) \<times> 'w sync_state" where
  "list_dir ctx path is_src target_id st =
     (if is_src then
        (let params = \<lparr>ls_drive_type = drive_type ctx,
                        ls_source_type = src_source_type (source_definition ctx),
                        ls_source_id = src_source_id (source_definition ctx),
                        ls_file_path = path\<rparr>;
             (res, w) = dm_get_share_list (drive_manager ctx) params (world st);
             st1 = st\<lparr>world := w, calls := calls st @ [CallShareList params]\<rparr>
         in (case res of
               Inl e \<Rightarrow> (Inl e, st1)
             | Inr files \<Rightarrow> (Inr (build_file_map ctx is_src files []), st1)))
      else
        (case (if truthy target_id then target_id else PStr []) of
           PStr file_id_str \<Rightarrow>
             (let params = \<lparr>lf_drive_type = drive_type ctx, lf_file_path = path,
                             lf_file_id = file_id_str\<rparr>;
                  (res, w) = dm_get_disk_list (drive_manager ctx) params (world st);
                  st1 = st\<lparr>world := w, calls := calls st @ [CallDiskList params]\<rparr>
              in (case res of
                    Inl e \<Rightarrow> (Inl e, st1)
                  | Inr files \<Rightarrow> (Inr (build_file_map ctx is_src files []), st1)))
         | _ \<Rightarrow> (Inl (validation_error_text ctx ''ListFilesParam'' [target_id]), st)))"

subsection \<open>\<open>transfer_files\<close>\<close>

definition reserved_keys :: "string list" where
  "reserved_keys = [''file_name'', ''file_size'', ''source_path'', ''target_path'', ''file_id'']"

text \<open>
  The first loop of \<open>transfer_files\<close>: the file ids in order, or the first entry whose
  \<open>file_id\<close> is missing or falsy.
\<close>

fun collect_file_ids :: "pydict list \<Rightarrow> pyval list \<Rightarrow> pydict + pyval list" where
  "collect_file_ids [] file_ids = Inr file_ids"
| "collect_file_ids (file_info # files) file_ids =
     (let fid = dict_get file_info ''file_id'' (PStr []) in
      if \<not> truthy fid then Inl file_info
      else collect_file_ids files (file_ids @ [fid]))"

text \<open>The file-level extension keys of one entry: every key outside the five reserved ones.\<close>

definition ext_of_file :: "pydict \<Rightarrow> pydict" where
  "ext_of_file file_info =
     fold (\<lambda>(k, v) acc. if k \<notin> set reserved_keys then AList.update k v acc else acc)
          file_info []"

definition make_file_ext_info :: "pydict \<Rightarrow> file_ext_info" where
  "make_file_ext_info file_info =
     \<lparr>fei_file_id = dict_get file_info ''file_id'' PNone,
      fei_file_ext = ext_of_file file_info\<rparr>"

text \<open>
  \<open>ext_params\<close>: the source definition's parameters, then \<open>files_ext_info\<close>, then the first
  file's extension keys written over them.
\<close>

definition merge_first_file :: "pydict \<Rightarrow> (string \<times> extval) list \<Rightarrow> (string \<times> extval) list" where
  "merge_first_file first_file ext_params =
     fold (\<lambda>(k, v) acc. if k \<notin> set reserved_keys then AList.update k (EVal v) acc else acc)
          first_file ext_params"

definition build_ext_params :: "ShareSourceDefinition \<Rightarrow> pydict list \<Rightarrow> (string \<times> extval) list" where
  "build_ext_params src files =
     (let ext_params = src_ext_params src;
          files_ext_info = map make_file_ext_info files;
          ext_params1 = AList.update ''files_ext_info'' (EFilesExt files_ext_info) ext_params
      in merge_first_file (hd files) ext_params1)"

text \<open>
  The validators of \<open>TransferParam\<close>: \<open>source_type\<close> is one of the three share kinds,
  \<open>source_path\<close> and \<open>target_path\<close> are strings, \<open>target_path\<close> is not empty and starts
  with a slash, every file id is an integer or a string. \<open>None\<close> is the raised
  validation error.
\<close>

definition make_TransferParam ::
  "'w sync_ctx \<Rightarrow> DiskTargetDefinition \<Rightarrow> pydict \<Rightarrow> pyval list \<Rightarrow> (string \<times> extval) list
     \<Rightarrow> TransferParam option" where
  "make_TransferParam ctx target_definition first_file file_ids ext_params =
     (case (dict_get first_file ''source_path'' (PStr []),
            dict_get first_file ''target_path'' (PStr (dst_file_path target_definition))) of
        (PStr source_path, PStr target_path) \<Rightarrow>
          if src_source_type (source_definition ctx) \<in> set [''link'', ''friend'', ''group'']
             \<and> target_path \<noteq> [] \<and> hd target_path = CHR ''/''
             \<and> list_all (\<lambda>v. v \<noteq> PNone) file_ids
          then Some \<lparr>tp_drive_type = drive_type ctx,
                     tp_source_type = src_source_type (source_definition ctx),
                     tp_source_id = src_source_id (source_definition ctx),
                     tp_source_path = source_path,
                     tp_target_path = target_path,
                     tp_target_id = dst_file_id target_definition,
                     tp_file_ids = file_ids,
                     tp_ext = ext_params\<rparr>
          else None
      | _ \<Rightarrow> None)"

definition msg_missing_file_id :: "pydict \<Rightarrow> string" where
  "msg_missing_file_id file_info =
     zh_file @ '' '' @ py_str (dict_get file_info ''file_name'' (PStr [])) @ '' '' @
     zh_missing @ ''file_id''"

definition msg_transfer_api_false :: "nat \<Rightarrow> string" where
  "msg_transfer_api_false n =
     zh_batch @ zh_transfer @ zh_failed @ zh_colon @ ''API'' @ zh_returned @ ''False'' @
     zh_involving @ '' '' @ str_nat n @ '' '' @ zh_count @ zh_file"

definition msg_transfer_exception :: "string \<Rightarrow> string" where
  "msg_transfer_exception e = zh_batch @ zh_transfer @ zh_exception @ '': '' @ e"

text \<open>The \<open>except\<close> branch of \<open>transfer_files\<close>.\<close>

definition transfer_exception ::
  "'w sync_ctx \<Rightarrow> pydict list \<Rightarrow> string \<Rightarrow> 'w sync_state \<Rightarrow> bool \<times> 'w sync_state" where
  "transfer_exception ctx files e st =
     (let error_msg = msg_transfer_exception e;
          st1 = add_error error_msg st
      in (False, record_all ctx (map (\<lambda>f. copy_item f ''failed'' (Some error_msg)) files) st1))"

definition transfer_files ::
  "'w sync_ctx \<Rightarrow> DiskTargetDefinition \<Rightarrow> pydict list \<Rightarrow> 'w sync_state
     \<Rightarrow> bool \<times> 'w sync_state" where
  "transfer_files ctx target_definition files st =
     (if files = [] then (True, st)
      else
        (case collect_file_ids files [] of
           Inl file_info \<Rightarrow>
             (let error_msg = msg_missing_file_id file_info;
                  st1 = add_error error_msg st
              in (False, record_task_item ctx (copy_item file_info ''failed'' (Some error_msg)) st1))
         | Inr file_ids \<Rightarrow>
             (case make_TransferParam ctx target_definition (hd files) file_ids
                     (build_ext_params (source_definition ctx) files) of
                None \<Rightarrow>
                  transfer_exception ctx files
                    (validation_error_text ctx ''TransferParam''
                       ([PStr (src_source_type (source_definition ctx)),
                         dict_get (hd files) ''source_path'' (PStr []),
                         dict_get (hd files) ''target_path''
                           (PStr (dst_file_path target_definition))] @ file_ids))
                    st
              | Some params \<Rightarrow>
                  (let (res, w) = dm_transfer_files (drive_manager ctx) params (world st);
                       st1 = st\<lparr>world := w, calls := calls st @ [CallTransfer params]\<rparr>
                   in (case res of
                         Inl e \<Rightarrow> transfer_exception ctx files e st1
                       | Inr result \<Rightarrow>
                           (let st2 =
                              (if result then
                                 record_all ctx (map (\<lambda>f. copy_item f ''completed'' None) files)
                                   (st1\<lparr>files_transferred :=
                                          files_transferred st1 + int (length files)\<rparr>)
                               else
                                 (let error_msg = msg_transfer_api_false (length files) in
                                  record_all ctx
                                    (map (\<lambda>f. copy_item f ''failed'' (Some error_msg)) files)
                                    (add_error error_msg st1)))
                            in (result, speed_sleep ctx 2 st2)))))))"

subsection \<open>\<open>delete_files\<close>\<close>

definition msg_delete_failed :: "nat \<Rightarrow> string" where
  "msg_delete_failed n =
     zh_batch @ zh_delete @ zh_failed @ zh_involving @ '' '' @ str_nat n @ '' '' @
     zh_count @ zh_file"

text \<open>
  \<open>RemoveParam\<close>: the paths \<open>target_path.rstrip('/') + '/' + file_name\<close> of all entries, and
  the truthy file ids. The schema wants every id to be a string; \<open>None\<close> is the raised
  validation error.
\<close>

definition make_RemoveParam ::
  "'w sync_ctx \<Rightarrow> DiskTargetDefinition \<Rightarrow> del_file list \<Rightarrow> RemoveParam option" where
  "make_RemoveParam ctx target_definition files =
     (let file_paths = map (\<lambda>f. rstrip_slash (df_target_path f) @ ''/'' @ df_file_name f) files;
          file_ids = filter truthy (map df_file_id files)
      in if list_all (\<lambda>v. case v of PStr s \<Rightarrow> True | _ \<Rightarrow> False) file_ids
         then Some \<lparr>rm_drive_type = drive_type ctx,
                    rm_file_paths = (if file_paths = [] then None else Some file_paths),
                    rm_file_ids = (if file_ids = [] then None else Some (map py_str file_ids)),
                    rm_parent_id = dst_file_id target_definition\<rparr>
         else None)"

definition delete_exception ::
  "'w sync_ctx \<Rightarrow> del_file list \<Rightarrow> string \<Rightarrow> 'w sync_state \<Rightarrow> bool \<times> 'w sync_state" where
  "delete_exception ctx files e st =
     (False, record_all ctx (map (\<lambda>f. delete_item f ''failed'' (Some e)) files) (add_error e st))"

definition delete_files ::
  "'w sync_ctx \<Rightarrow> DiskTargetDefinition \<Rightarrow> del_file list \<Rightarrow> 'w sync_state
     \<Rightarrow> bool \<times> 'w sync_state" where
  "delete_files ctx target_definition files st =
     (if files = [] then (True, st)
      else
        (case make_RemoveParam ctx target_definition files of
           None \<Rightarrow>
             delete_exception ctx files
               (validation_error_text ctx ''RemoveParam'' (filter truthy (map df_file_id files)))
               st
         | Some params \<Rightarrow>
             (let (res, w) = dm_remove_files (drive_manager ctx) params (world st);
                  st1 = st\<lparr>world := w, calls := calls st @ [CallRemove params]\<rparr>
              in (case res of
                    Inl e \<Rightarrow> delete_exception ctx files e st1
                  | Inr result \<Rightarrow>
                      (let st2 =
                         (if result then
                            record_all ctx (map (\<lambda>f. delete_item f ''completed'' None) files)
                              (st1\<lparr>files_deleted := files_deleted st1 + int (length files)\<rparr>)
                          else
                            (let error_msg = msg_delete_failed (length files) in
                             record_all ctx
                               (map (\<lambda>f. delete_item f ''failed'' (Some error_msg)) files)
                               (add_error error_msg st1)))
                       in (result, speed_sleep ctx 3 st2))))))"

subsection \<open>\<open>create_directory\<close>\<close>

text \<open>
  \<open>create_directory\<close> asks the drive manager for \<open>dir_name\<close> under the target definition it
  was given; an exception or an empty answer is \<open>None\<close>.
\<close>

definition create_directory ::
  "'w sync_ctx \<Rightarrow> DiskTargetDefinition \<Rightarrow> string \<Rightarrow> 'w sync_state
     \<Rightarrow> BaseFileInfo option \<times> 'w sync_state" where
  "create_directory ctx target_definition dir_name st =
     (let params = \<lparr>mk_drive_type = drive_type ctx,
                     mk_file_path = dst_file_path target_definition,
                     mk_file_name = dir_name,
                     mk_parent_id = dst_file_id target_definition,
                     mk_return_if_exist = True\<rparr>;
          (res, w) = dm_create_mkdir (drive_manager ctx) params (world st);
          st1 = st\<lparr>world := w, calls := calls st @ [CallMkdir params]\<rparr>
      in (case res of
            Inl e \<Rightarrow> (None, st1)
          | Inr result \<Rightarrow> (result, st1)))"

subsection \<open>\<open>_handle_transfer_error\<close>\<close>

definition is_conflict_error :: "string \<Rightarrow> bool" where
  "is_conflict_error e = (str_contains ''error_code: 111'' e \<or> str_contains zh_unfinished_task e)"

definition is_transfer_failure :: "string \<Rightarrow> bool" where
  "is_transfer_failure e =
     (str_contains (zh_batch @ zh_transfer @ zh_failed) e \<or> str_contains (zh_transfer @ zh_failed) e)"

definition is_delete_failure :: "string \<Rightarrow> bool" where
  "is_delete_failure e =
     (str_contains (zh_batch @ zh_delete @ zh_failed) e \<or> str_contains (zh_delete @ zh_failed) e
      \<or> str_contains ''error_code: 31066'' e)"

definition is_network_error :: "string \<Rightarrow> bool" where
  "is_network_error e =
     (str_contains ''error_code: 6'' e \<or> str_contains zh_network e
      \<or> str_contains ''timeout'' (str_lower e) \<or> str_contains ''Expecting value'' e)"

definition msg_abort_total :: "nat \<Rightarrow> string" where
  "msg_abort_total n = zh_task_aborted @ zh_total_reached @ str_nat n @ zh_count"

definition msg_abort_conflict :: "nat \<Rightarrow> string" where
  "msg_abort_conflict n = zh_task_aborted @ zh_consecutive @ str_nat n @ zh_times @ zh_account_conflict"

definition msg_abort_transfer :: "nat \<Rightarrow> string" where
  "msg_abort_transfer n =
     zh_task_aborted @ zh_consecutive @ str_nat n @ zh_times @ zh_transfer @ zh_failed"

definition msg_abort_network :: "nat \<Rightarrow> string" where
  "msg_abort_network n = zh_task_aborted @ zh_network @ zh_error @ zh_reached @ str_nat n @ zh_times"

text \<open>
  The policy consulted after a failed batched transfer: \<open>True\<close> continues, \<open>False\<close> ends
  the calling level. The branches are tried in the source's order on the latest error.
\<close>

definition handle_transfer_error :: "'w sync_state \<Rightarrow> bool \<times> 'w sync_state" where
  "handle_transfer_error st =
     (if errors st = [] then (True, st)
      else if length (errors st) \<ge> 5 then
        (False, add_error (msg_abort_total (length (errors st))) st)
      else
        (let latest_error = last (errors st) in
         if str_contains ''error_code: 111'' latest_error
            \<or> str_contains zh_unfinished_task latest_error then
           (let st1 = asyncio_sleep 30 st;
                conflict_count = length (filter is_conflict_error (errors st1))
            in if conflict_count \<ge> 3 then (False, add_error (msg_abort_conflict conflict_count) st1)
               else (True, st1))
         else if str_contains (zh_batch @ zh_transfer @ zh_failed @ zh_colon @ ''API'' @
                               zh_returned @ ''False'') latest_error
                 \<or> str_contains (zh_transfer @ zh_failed) latest_error then
           (let st1 = asyncio_sleep 30 st;
                transfer_fail_count = length (filter is_transfer_failure (errors st1))
            in if transfer_fail_count \<ge> 3
               then (False, add_error (msg_abort_transfer transfer_fail_count) st1)
               else (True, st1))
         else if is_delete_failure latest_error then (True, st)
         else if is_network_error latest_error then
           (let st1 = asyncio_sleep 10 st;
                network_error_count = length (filter is_network_error (errors st1))
            in if network_error_count \<ge> 2
               then (False, add_error (msg_abort_network network_error_count) st1)
               else (True, st1))
         else (True, st)))"

section \<open>The recursive synchronisation\<close>

definition msg_scan_failed :: "string \<Rightarrow> string \<Rightarrow> string \<Rightarrow> string" where
  "msg_scan_failed source_path target_path e =
     zh_scan @ zh_directory @ zh_failed @ '': '' @ source_path @ '' -> '' @ target_path @
     '', '' @ zh_error @ '': '' @ e"

definition msg_scan_source_failed :: "string \<Rightarrow> string \<Rightarrow> string" where
  "msg_scan_source_failed source_path e =
     zh_scan @ zh_source @ zh_directory @ zh_failed @ '': '' @ source_path @
     '', '' @ zh_error @ '': '' @ e"

definition msg_mkdir_failed :: "string \<Rightarrow> string" where
  "msg_mkdir_failed target_path = zh_create @ zh_directory @ zh_failed @ '': '' @ target_path"

definition msg_overwrite_failed :: "string \<Rightarrow> string" where
  "msg_overwrite_failed e = zh_overwrite_sync @ zh_failed @ '': '' @ e"

text \<open>
  The dictionary built for a file to transfer: the five fixed keys, then every key of the
  listed entry other than \<open>file_size\<close> and \<open>file_id\<close>.
\<close>

definition make_transfer_file_info :: "string \<Rightarrow> pydict \<Rightarrow> string \<Rightarrow> string \<Rightarrow> pydict" where
  "make_transfer_file_info name file_info source_path target_path =
     fold (\<lambda>(k, v) acc. if k \<notin> set [''file_size'', ''file_id''] then AList.update k v acc else acc)
       file_info
       [(''file_name'', PStr name),
        (''file_size'', dict_get file_info ''file_size'' (PInt 0)),
        (''source_path'', PStr source_path),
        (''target_path'', PStr target_path),
        (''file_id'', dict_get file_info ''file_id'' (PStr []))]"

text \<open>
  The test of \<open>sync_with_have\<close> on a source file: its key is not in the target map, or the
  target's \<open>file_size\<close> (\<open>-1\<close> when absent) differs from the source's (\<open>0\<close> when absent).
\<close>

definition needs_transfer :: "file_map \<Rightarrow> string \<Rightarrow> pydict \<Rightarrow> bool" where
  "needs_transfer target_file_map name file_info =
     (let target_file_info = dict_get target_file_map name [];
          source_file_size = dict_get file_info ''file_size'' (PInt 0);
          target_file_size = dict_get target_file_info ''file_size'' (PInt (- 1))
      in \<not> dict_has target_file_map name \<or> target_file_size \<noteq> source_file_size)"

text \<open>The file branch of the loop of \<open>sync_with_have\<close>.\<close>

definition with_have_file ::
  "file_map \<Rightarrow> string \<Rightarrow> string \<Rightarrow> string \<Rightarrow> pydict \<Rightarrow> pydict list \<times> 'w sync_state
     \<Rightarrow> pydict list \<times> 'w sync_state" where
  "with_have_file target_file_map source_path target_path name file_info acc =
     (case acc of (files_to_transfer, st) \<Rightarrow>
        (let st1 = st\<lparr>files_processed := files_processed st + 1\<rparr> in
         if needs_transfer target_file_map name file_info
         then (files_to_transfer @ [make_transfer_file_info name file_info source_path target_path],
               st1)
         else (files_to_transfer, st1\<lparr>files_skipped := files_skipped st1 + 1\<rparr>)))"

text \<open>The file branch of the loop of \<open>sync_without_have\<close>.\<close>

definition without_have_file ::
  "string \<Rightarrow> string \<Rightarrow> string \<Rightarrow> pydict \<Rightarrow> pydict list \<times> 'w sync_state
     \<Rightarrow> pydict list \<times> 'w sync_state" where
  "without_have_file source_path target_path name file_info acc =
     (case acc of (files_to_transfer, st) \<Rightarrow>
        (files_to_transfer @ [make_transfer_file_info name file_info source_path target_path],
         st\<lparr>files_processed := files_processed st + 1\<rparr>))"

text \<open>\<open>path.rstrip('/') + '/' + file_name.rstrip('/') + '/'\<close>.\<close>

definition sub_path :: "string \<Rightarrow> string \<Rightarrow> string" where
  "sub_path path name = rstrip_slash path @ ''/'' @ rstrip_slash name @ ''/''"

text \<open>\<open>target_file_map.get(file_name, {}).get("file_id", "")\<close>.\<close>

definition sub_file_id :: "file_map \<Rightarrow> string \<Rightarrow> pyval" where
  "sub_file_id target_file_map name =
     dict_get (dict_get target_file_map name []) ''file_id'' (PStr [])"

text \<open>
  The batched transfer after the loop, with the error policy on failure: \<open>False\<close> when the
  level is to end at once.
\<close>

definition transfer_collected ::
  "'w sync_ctx \<Rightarrow> DiskTargetDefinition \<Rightarrow> pydict list \<Rightarrow> 'w sync_state
     \<Rightarrow> bool \<times> 'w sync_state" where
  "transfer_collected ctx target_definition files_to_transfer st =
     (if files_to_transfer \<noteq> [] then
        (case transfer_files ctx target_definition files_to_transfer st of
           (transfer_result, st1) \<Rightarrow>
             if \<not> transfer_result then handle_transfer_error st1 else (True, st1))
      else (True, st))"

text \<open>The entries of the target map whose key is not in the source map.\<close>

definition files_to_delete :: "string \<Rightarrow> file_map \<Rightarrow> file_map \<Rightarrow> del_file list" where
  "files_to_delete target_path source_file_map target_file_map =
     map (\<lambda>(name, info).
            \<lparr>df_file_name = name, df_file_size = dict_get info ''file_size'' (PInt 0),
             df_target_path = target_path, df_file_id = dict_get info ''file_id'' (PStr [])\<rparr>)
         (filter (\<lambda>(name, info). \<not> dict_has source_file_map name) target_file_map)"

text \<open>What \<open>sync_with_have\<close> does after its loop.\<close>

definition with_have_finish ::
  "'w sync_ctx \<Rightarrow> DiskTargetDefinition \<Rightarrow> string \<Rightarrow> file_map \<Rightarrow> file_map
     \<Rightarrow> pydict list \<times> 'w sync_state \<Rightarrow> 'w sync_state" where
  "with_have_finish ctx target_definition target_path source_file_map target_file_map acc =
     (case acc of (files_to_transfer, st) \<Rightarrow>
        (case transfer_collected ctx target_definition files_to_transfer st of
           (should_continue, st1) \<Rightarrow>
             if \<not> should_continue then st1
             else if sync_method ctx = ''full'' then
               snd (delete_files ctx target_definition
                      (files_to_delete target_path source_file_map target_file_map) st1)
             else st1))"

text \<open>What \<open>sync_without_have\<close> does after its loop.\<close>

definition without_have_finish ::
  "'w sync_ctx \<Rightarrow> DiskTargetDefinition \<Rightarrow> pydict list \<times> 'w sync_state \<Rightarrow> 'w sync_state" where
  "without_have_finish ctx target_definition acc =
     (case acc of (files_to_transfer, st) \<Rightarrow>
        snd (transfer_collected ctx target_definition files_to_transfer st))"

text \<open>The two listings at the head of \<open>sync_with_have\<close>, inside one \<open>try\<close>.\<close>

definition scan_both ::
  "'w sync_ctx \<Rightarrow> string \<Rightarrow> string \<Rightarrow> pyval \<Rightarrow> 'w sync_state
     \<Rightarrow> (file_map \<times> file_map) option \<times> 'w sync_state" where
  "scan_both ctx source_path target_path target_id st =
     (case list_dir ctx source_path True PNone st of
        (Inl e, st1) \<Rightarrow> (None, add_error (msg_scan_failed source_path target_path e) st1)
      | (Inr source_file_map, st1) \<Rightarrow>
          (case list_dir ctx target_path False target_id st1 of
             (Inl e, st2) \<Rightarrow> (None, add_error (msg_scan_failed source_path target_path e) st2)
           | (Inr target_file_map, st2) \<Rightarrow> (Some (source_file_map, target_file_map), st2)))"

text \<open>
  The head of \<open>sync_without_have\<close>: create the directory named by the last segment of the
  target path under the target definition that was passed in, count and record it, list
  the source. The result carries the definition of the new directory. Its validator
  wants a non-empty path with a leading slash: every target path of a run is the
  validated root path or a \<open>sub_path\<close> of one, and those keep the leading slash, so the
  constructor does not raise.
\<close>

definition create_item :: "string \<Rightarrow> string \<Rightarrow> string \<Rightarrow> task_item" where
  "create_item source_path target_path dir_name =
     \<lparr>ti_type = ''create'', ti_src_path = PStr source_path, ti_dst_path = PStr target_path,
      ti_file_name = PStr dir_name, ti_file_size = PInt 0, ti_status = ''completed'',
      ti_err_msg = None\<rparr>"

definition create_and_scan ::
  "'w sync_ctx \<Rightarrow> DiskTargetDefinition \<Rightarrow> string \<Rightarrow> string \<Rightarrow> 'w sync_state
     \<Rightarrow> (DiskTargetDefinition \<times> file_map) option \<times> 'w sync_state" where
  "create_and_scan ctx target_definition source_path target_path st =
     (let dir_name = last_segment (rstrip_slash target_path) in
      case create_directory ctx target_definition dir_name st of
        (None, st1) \<Rightarrow> (None, add_error (msg_mkdir_failed target_path) st1)
      | (Some created_dir_info, st1) \<Rightarrow>
          (let st2 = record_task_item ctx (create_item source_path target_path dir_name)
                       (st1\<lparr>folder_created := folder_created st1 + 1\<rparr>);
               new_definition = \<lparr>dst_file_path = target_path,
                                  dst_file_id = file_id created_dir_info\<rparr>
           in case list_dir ctx source_path True PNone st2 of
                (Inl e, st3) \<Rightarrow> (None, add_error (msg_scan_source_failed source_path e) st3)
              | (Inr source_file_map, st3) \<Rightarrow> (Some (new_definition, source_file_map), st3)))"

text \<open>
  \<open>sync_with_have\<close> and \<open>sync_without_have\<close>. Each loop runs over the source map in
  insertion order; a directory is entered inside the loop, the files collected by the
  loop are transferred after it.
\<close>

function sync_with_have ::
    "'w sync_ctx \<Rightarrow> DiskTargetDefinition \<Rightarrow> string \<Rightarrow> string \<Rightarrow> pyval \<Rightarrow> nat
       \<Rightarrow> 'w sync_state \<Rightarrow> 'w sync_state"
  and sync_without_have ::
    "'w sync_ctx \<Rightarrow> DiskTargetDefinition \<Rightarrow> string \<Rightarrow> string \<Rightarrow> nat
       \<Rightarrow> 'w sync_state \<Rightarrow> 'w sync_state"
where
  "sync_with_have ctx target_definition source_path target_path target_id current_depth st =
     (if current_depth \<ge> max_depth ctx then st
      else
        (case scan_both ctx source_path target_path target_id st of
           (None, st1) \<Rightarrow> st1
         | (Some (source_file_map, target_file_map), st1) \<Rightarrow>
             with_have_finish ctx target_definition target_path source_file_map target_file_map
               (fold (\<lambda>(name, file_info) acc.
                        if \<not> ends_with_slash name then
                          with_have_file target_file_map source_path target_path name file_info acc
                        else if \<not> dict_has target_file_map name then
                          (fst acc,
                           sync_without_have ctx target_definition
                             (sub_path source_path name) (sub_path target_path name)
                             (current_depth + 1) (snd acc))
                        else
                          (fst acc,
                           sync_with_have ctx target_definition
                             (sub_path source_path name) (sub_path target_path name)
                             (sub_file_id target_file_map name) (current_depth + 1) (snd acc)))
                     source_file_map ([], st1))))"
| "sync_without_have ctx target_definition source_path target_path current_depth st =
     (if current_depth \<ge> max_depth ctx then st
      else
        (case create_and_scan ctx target_definition source_path target_path st of
           (None, st1) \<Rightarrow> st1
         | (Some (new_definition, source_file_map), st1) \<Rightarrow>
             without_have_finish ctx new_definition
               (fold (\<lambda>(name, file_info) acc.
                        if ends_with_slash name then
                          (fst acc,
                           sync_without_have ctx new_definition
                             (sub_path source_path name) (sub_path target_path name)
                             (current_depth + 1) (snd acc))
                        else without_have_file source_path target_path name file_info acc)
                     source_file_map ([], st1))))"
  by pat_completeness auto
termination
  by (relation "measure (\<lambda>x. case x of
          Inl (ctx, td, sp, tp, ti, d, st) \<Rightarrow> max_depth ctx - d
        | Inr (ctx, td, sp, tp, d, st) \<Rightarrow> max_depth ctx - d)") auto

section \<open>\<open>perform_sync\<close> and \<open>execute_sync_by_config_id\<close>\<close>

text \<open>
  \<open>_handle_overwrite_sync\<close>: delete every listed target entry in one batch, then transfer
  every listed source entry in one batch.
\<close>

definition handle_overwrite_sync ::
  "'w sync_ctx \<Rightarrow> DiskTargetDefinition \<Rightarrow> 'w sync_state \<Rightarrow> 'w sync_state" where
  "handle_overwrite_sync ctx target_definition st =
     (case list_dir ctx (dst_file_path target_definition) False
             (PStr (dst_file_id target_definition)) st of
        (Inl e, st1) \<Rightarrow> add_error (msg_overwrite_failed e) st1
      | (Inr target_file_map, st1) \<Rightarrow>
          (let st2 =
             (if target_file_map \<noteq> [] then
                snd (delete_files ctx target_definition
                       (map (\<lambda>(name, info).
                               \<lparr>df_file_name = name,
                                df_file_size = dict_get info ''file_size'' (PInt 0),
                                df_target_path = dst_file_path target_definition,
                                df_file_id = dict_get info ''file_id'' (PStr [])\<rparr>)
                            target_file_map) st1)
              else st1)
           in case list_dir ctx (src_file_path (source_definition ctx)) True PNone st2 of
                (Inl e, st3) \<Rightarrow> add_error (msg_overwrite_failed e) st3
              | (Inr source_file_map, st3) \<Rightarrow>
                  if source_file_map \<noteq> [] then
                    (let all_files_to_transfer =
                           map (\<lambda>(name, info).
                                  make_transfer_file_info name info
                                    (src_file_path (source_definition ctx))
                                    (dst_file_path target_definition))
                               source_file_map;
                         st4 = st3\<lparr>files_processed :=
                                      files_processed st3 + int (length source_file_map)\<rparr>
                     in case transfer_files ctx target_definition all_files_to_transfer st4 of
                          (transfer_result, st5) \<Rightarrow>
                            if \<not> transfer_result then snd (handle_transfer_error st5) else st5)
                  else st3))"

record 'w sync_result =
  ps_success :: bool
  ps_stats :: "'w sync_state"
  ps_error :: "string option"

text \<open>
  \<open>perform_sync\<close>. Every exception below it is caught where it arises, so its own
  \<open>except\<close> branch is never taken in this model. The result is a success exactly when no
  error was collected; \<open>error\<close> is the first collected error.
\<close>

definition perform_sync ::
  "'w sync_ctx \<Rightarrow> DiskTargetDefinition \<Rightarrow> 'w \<Rightarrow> 'w sync_result" where
  "perform_sync ctx target_definition w =
     (let st =
        (if sync_method ctx = ''overwrite'' then
           handle_overwrite_sync ctx target_definition (init_state w)
         else
           sync_with_have ctx target_definition
             (src_file_path (source_definition ctx)) (dst_file_path target_definition)
             (PStr (dst_file_id target_definition)) 0 (init_state w))
      in \<lparr>ps_success = (length (errors st) = 0),
          ps_stats = st,
          ps_error = (if errors st \<noteq> [] then Some (hd (errors st)) else None)\<rparr>)"

text \<open>\<open>_parse_sync_method\<close>; \<open>None\<close> or the empty string count as the empty string.\<close>

definition parse_sync_method :: "string option \<Rightarrow> string" where
  "parse_sync_method method_str =
     (let method_lower = (case method_str of Some s \<Rightarrow> (if s \<noteq> [] then str_lower s else [])
                                           | None \<Rightarrow> [])
      in if method_lower = SyncMethod_INCREMENTAL then SyncMethod_INCREMENTAL
         else if method_lower = SyncMethod_FULL then SyncMethod_FULL
         else if method_lower = SyncMethod_OVERWRITE then SyncMethod_OVERWRITE
         else SyncMethod_INCREMENTAL)"

definition parse_recursion_speed :: "int \<Rightarrow> RecursionSpeed" where
  "parse_recursion_speed speed_value =
     (if speed_value = 1 then SLOW else if speed_value = 2 then FAST else NORMAL)"

text \<open>
  A rename rule: its scope, and \<open>rr_sub\<close> for \<open>self.regex.sub(self.replace_string, _)\<close> of
  the compiled pattern.
\<close>

record RenameRule =
  rr_target_scope :: MatchTarget
  rr_sub :: "string \<Rightarrow> string"

definition generate_new_path :: "RenameRule \<Rightarrow> BaseFileInfo \<Rightarrow> string option" where
  "generate_new_path rule item =
     (case (case rr_target_scope rule of
              NAME \<Rightarrow> Some (file_name item)
            | PATH \<Rightarrow> Some (file_path item)
            | EXTENSION \<Rightarrow> None) of
        None \<Rightarrow> None
      | Some original_value \<Rightarrow>
          if original_value = [] then None
          else (let new_value = rr_sub rule original_value in
                if new_value = original_value then None else Some new_value))"

text \<open>
  The fields of a \<open>SyncConfig\<close> row read after the task row was created, with
  \<open>src_meta\<close> and \<open>dst_meta\<close> parsed, and the type of its drive account.
\<close>

record sync_config =
  cfg_method :: "string option"
  cfg_speed :: int
  cfg_src_path :: string
  cfg_dst_path :: string
  cfg_source_type :: string
  cfg_source_id :: string
  cfg_ext_params :: "(string \<times> extval) list"
  cfg_dst_file_id :: string
  cfg_drive_type :: string

record 'w exec_result =
  er_success :: bool
  er_error :: "string option"
  er_stats :: "'w sync_state option"
  er_task_status :: string
  er_task_err_msg :: "string option"

definition msg_execute_exception :: "string \<Rightarrow> string" where
  \<comment> \<open>U+6267 U+884C U+540C U+6B65 U+4EFB U+52A1 U+65F6 U+53D1 U+751F U+5F02 U+5E38,
      "an exception occurred while running the sync task"\<close>
  "msg_execute_exception e =
     [CHR 0xE6, CHR 0x89, CHR 0xA7, CHR 0xE8, CHR 0xA1, CHR 0x8C, CHR 0xE5, CHR 0x90, CHR 0x8C,
      CHR 0xE6, CHR 0xAD, CHR 0xA5, CHR 0xE4, CHR 0xBB, CHR 0xBB, CHR 0xE5, CHR 0x8A, CHR 0xA1,
      CHR 0xE6, CHR 0x97, CHR 0xB6, CHR 0xE5, CHR 0x8F, CHR 0x91, CHR 0xE7, CHR 0x94, CHR 0x9F] @
     zh_exception @ '': '' @ e"

text \<open>The validators of \<open>ShareSourceDefinition\<close> and \<open>DiskTargetDefinition\<close>.\<close>

definition definitions_valid :: "sync_config \<Rightarrow> bool" where
  "definitions_valid config =
     (cfg_source_type config \<in> set [''friend'', ''group'', ''link'']
      \<and> cfg_dst_path config \<noteq> [] \<and> hd (cfg_dst_path config) = CHR ''/'')"

definition config_ctx ::
  "'w drive_manager \<Rightarrow> sync_config \<Rightarrow> (BaseFileInfo \<Rightarrow> bool) option \<Rightarrow> int \<Rightarrow> 'w sync_ctx" where
  "config_ctx dm config exclude_rules new_task_id =
     \<lparr>drive_manager = dm,
      drive_type = cfg_drive_type config,
      source_definition = \<lparr>src_file_path = cfg_src_path config,
                            src_source_type = cfg_source_type config,
                            src_source_id = cfg_source_id config,
                            src_ext_params = cfg_ext_params config\<rparr>,
      sync_method = parse_sync_method (cfg_method config),
      recursion_speed = parse_recursion_speed (cfg_speed config),
      item_filter = exclude_rules,
      max_depth = 100,
      task_id = Some new_task_id,
      has_db = True\<rparr>"

text \<open>
  \<open>execute_sync_by_config_id\<close> from the point where the configuration and the account
  are loaded, the \<open>SyncTask\<close> row exists with status \<open>running\<close> and \<open>last_sync\<close> is written.
  \<open>exclude_rules\<close> and \<open>rename_rules\<close> are what \<open>parse_rule_templates\<close> returned (the
  exclusion rules as the filter they compile to). A validator that raises leaves the task
  row as it is; the source definition is built first, then the target definition.
\<close>

definition execute_sync_by_config_id ::
  "'w drive_manager \<Rightarrow> sync_config \<Rightarrow> (BaseFileInfo \<Rightarrow> bool) option \<Rightarrow> RenameRule list option
     \<Rightarrow> int \<Rightarrow> 'w \<Rightarrow> 'w exec_result" where
  "execute_sync_by_config_id dm config exclude_rules rename_rules new_task_id w =
     (if \<not> definitions_valid config then
        \<lparr>er_success = False,
         er_error = Some (msg_execute_exception
                            (if cfg_source_type config \<notin> set [''friend'', ''group'', ''link'']
                             then pydantic_str dm ''ShareSourceDefinition''
                                    [PStr (cfg_source_type config)]
                             else pydantic_str dm ''DiskTargetDefinition''
                                    [PStr (cfg_dst_path config)])),
         er_stats = None, er_task_status = ''running'', er_task_err_msg = None\<rparr>
      else
        (let sync_result =
               perform_sync (config_ctx dm config exclude_rules new_task_id)
                 \<lparr>dst_file_path = cfg_dst_path config, dst_file_id = cfg_dst_file_id config\<rparr> w
         in if ps_success sync_result then
              \<lparr>er_success = True, er_error = None, er_stats = Some (ps_stats sync_result),
               er_task_status = ''completed'', er_task_err_msg = None\<rparr>
            else
              \<lparr>er_success = False, er_error = ps_error sync_result,
               er_stats = Some (ps_stats sync_result),
               er_task_status = ''failed'', er_task_err_msg = ps_error sync_result\<rparr>))"

section \<open>The dispatcher's test\<close>

text \<open>
  \<open>_should_execute_now\<close>. Instants are microseconds on one clock. \<open>get_prev\<close> is the
  library call \<open>croniter(cron_expr, current_time).get_prev(datetime)\<close>, \<open>None\<close> when the
  library raises; \<open>last_sync\<close> is the stored datetime, which \<open>fromisoformat(str(_))\<close> gives
  back unchanged. The window test \<open>0 <= seconds / 60 <= 5\<close> is the same test on
  microseconds.
\<close>

definition execution_window_minutes :: int where
  "execution_window_minutes = 5"

definition should_execute_now ::
  "(string \<Rightarrow> int \<Rightarrow> int option) \<Rightarrow> string \<Rightarrow> int option \<Rightarrow> int \<Rightarrow> bool" where
  "should_execute_now get_prev cron_expr last_sync current_time =
     (case get_prev cron_expr current_time of
        None \<Rightarrow> False
      | Some prev_execution_time \<Rightarrow>
          (let time_diff = current_time - prev_execution_time;
               in_execution_window =
                 (0 \<le> time_diff \<and> time_diff \<le> execution_window_minutes * 60 * 1000000)
           in case last_sync of
                None \<Rightarrow> in_execution_window
              | Some last_sync_dt \<Rightarrow>
                  if last_sync_dt < prev_execution_time \<and> in_execution_window then True
                  else False))"

text \<open>
  The library call itself. croniter is outside the repository; \<open>get_prev\<close> of a
  \<open>croniter\<close> started at a base time gives the latest instant of the schedule that lies
  strictly before the base time (a base time that is itself an instant of the schedule is
  not returned), and raises when it finds none. A schedule is given by the whole seconds,
  counted from the epoch, at which the expression fires; \<open>latest_fire_upto\<close> searches back
  from a second to the epoch.
\<close>

fun latest_fire_upto :: "(nat \<Rightarrow> bool) \<Rightarrow> nat \<Rightarrow> nat option" where
  "latest_fire_upto fires 0 = (if fires 0 then Some 0 else None)"
| "latest_fire_upto fires (Suc s) =
     (if fires (Suc s) then Some (Suc s) else latest_fire_upto fires s)"

definition croniter_get_prev :: "(string \<Rightarrow> nat \<Rightarrow> bool) \<Rightarrow> string \<Rightarrow> int \<Rightarrow> int option" where
  "croniter_get_prev schedule cron_expr current_time =
     (if current_time \<le> 0 then None
      else map_option (\<lambda>s. int s * 1000000)
             (latest_fire_upto (schedule cron_expr) (nat ((current_time - 1) div 1000000))))"

section \<open>A reference drive\<close>

text \<open>
  Modelled from the spec: a drive manager to run the engine on concrete trees. The real
  drive manager and the remote services are outside the repository's files; this one
  follows the spec's \<open>DriveClient\<close> contract: a listing shows one level, \<open>mkdir\<close> creates
  the folder \<open>name\<close> under \<open>path\<close> and is idempotent, \<open>transfer\<close> is a server-side copy
  of the share's entries with the given ids into the target path, \<open>remove\<close> deletes by
  path. Paths are kept without trailing slashes; the id of a created folder is its path.
\<close>

record ref_world =
  share :: "(string \<times> BaseFileInfo list) list"
  disk :: "(string \<times> BaseFileInfo list) list"

definition ref_folder :: "string \<Rightarrow> string \<Rightarrow> BaseFileInfo" where
  "ref_folder path name =
     \<lparr>file_id = path, file_name = name, file_path = path, is_folder = True,
      file_size = Some 0, file_ext = []\<rparr>"

definition ref_get_share_list ::
  "ListShareFilesParam \<Rightarrow> ref_world \<Rightarrow> (string + BaseFileInfo list) \<times> ref_world" where
  "ref_get_share_list p w =
     (case map_of (share w) (rstrip_slash (ls_file_path p)) of
        Some files \<Rightarrow> (Inr files, w)
      | None \<Rightarrow> (Inl ''share path not found'', w))"

definition ref_get_disk_list ::
  "ListFilesParam \<Rightarrow> ref_world \<Rightarrow> (string + BaseFileInfo list) \<times> ref_world" where
  "ref_get_disk_list p w =
     (case map_of (disk w) (rstrip_slash (lf_file_path p)) of
        Some files \<Rightarrow> (Inr files, w)
      | None \<Rightarrow> (Inl ''disk path not found'', w))"

definition ref_create_mkdir ::
  "MkdirParam \<Rightarrow> ref_world \<Rightarrow> (string + BaseFileInfo option) \<times> ref_world" where
  "ref_create_mkdir p w =
     (let parent = rstrip_slash (mk_file_path p);
          path = parent @ ''/'' @ mk_file_name p
      in case map_of (disk w) path of
           Some files \<Rightarrow> (Inr (Some (ref_folder path (mk_file_name p))), w)
         | None \<Rightarrow>
             (case map_of (disk w) parent of
                None \<Rightarrow> (Inl ''parent folder not found'', w)
              | Some siblings \<Rightarrow>
                  (Inr (Some (ref_folder path (mk_file_name p))),
                   w\<lparr>disk := AList.update path []
                       (AList.update parent (siblings @ [ref_folder path (mk_file_name p)])
                          (disk w))\<rparr>)))"

definition ref_transfer_files ::
  "TransferParam \<Rightarrow> ref_world \<Rightarrow> (string + bool) \<times> ref_world" where
  "ref_transfer_files p w =
     (case (map_of (share w) (rstrip_slash (tp_source_path p)),
            map_of (disk w) (rstrip_slash (tp_target_path p))) of
        (Some offered, Some present) \<Rightarrow>
          (let picked = filter (\<lambda>f. PStr (file_id f) \<in> set (tp_file_ids p)) offered in
           if length picked = length (tp_file_ids p) then
             (Inr True,
              w\<lparr>disk := AList.update (rstrip_slash (tp_target_path p))
                   (filter (\<lambda>f. file_key f \<notin> set (map file_key picked)) present @ picked)
                   (disk w)\<rparr>)
           else (Inr False, w))
      | _ \<Rightarrow> (Inr False, w))"

definition ref_remove_files ::
  "RemoveParam \<Rightarrow> ref_world \<Rightarrow> (string + bool) \<times> ref_world" where
  "ref_remove_files p w =
     (let doomed = (case rm_file_paths p of Some paths \<Rightarrow> map rstrip_slash paths | None \<Rightarrow> [])
      in (Inr True,
          w\<lparr>disk := map (\<lambda>(path, files).
                           (path, filter (\<lambda>f. path @ ''/'' @ file_name f \<notin> set doomed) files))
                        (filter (\<lambda>(path, files). path \<notin> set doomed) (disk w))\<rparr>))"

text \<open>A stand-in for the validation text: the first line of pydantic's message.\<close>

definition ref_pydantic_str :: "string \<Rightarrow> pyval list \<Rightarrow> string" where
  "ref_pydantic_str model inputs = ''1 validation error for '' @ model"

definition ref_drive :: "ref_world drive_manager" where
  "ref_drive =
     \<lparr>dm_get_share_list = ref_get_share_list,
      dm_get_disk_list = ref_get_disk_list,
      dm_create_mkdir = ref_create_mkdir,
      dm_transfer_files = ref_transfer_files,
      dm_remove_files = ref_remove_files,
      pydantic_str = ref_pydantic_str\<rparr>"

text \<open>Small trees and configurations for running the engine.\<close>

definition ref_file :: "string \<Rightarrow> string \<Rightarrow> string \<Rightarrow> int \<Rightarrow> BaseFileInfo" where
  "ref_file fid dir name sz =
     \<lparr>file_id = fid, file_name = name, file_path = dir @ ''/'' @ name, is_folder = False,
      file_size = Some sz, file_ext = []\<rparr>"

definition ref_config :: "string option \<Rightarrow> sync_config" where
  "ref_config method =
     \<lparr>cfg_method = method, cfg_speed = 2, cfg_src_path = ''/root'', cfg_dst_path = ''/dst'',
      cfg_source_type = ''friend'', cfg_source_id = ''uk1'', cfg_ext_params = [],
      cfg_dst_file_id = ''/dst'', cfg_drive_type = ''ref''\<rparr>"

definition ref_target :: DiskTargetDefinition where
  "ref_target = \<lparr>dst_file_path = ''/dst'', dst_file_id = ''/dst''\<rparr>"

text \<open>The share of the spec's first scenario: \<open>/root/a.txt (10)\<close> and \<open>/root/b/c.txt (20)\<close>.\<close>

definition share_ab :: "(string \<times> BaseFileInfo list) list" where
  "share_ab =
     [(''/root'', [ref_file ''f1'' ''/root'' ''a.txt'' 10, ref_folder ''/root/b'' ''b'']),
      (''/root/b'', [ref_file ''f2'' ''/root/b'' ''c.txt'' 20])]"

definition world_fresh :: ref_world where
  "world_fresh = \<lparr>share = share_ab, disk = [(''/dst'', [])]\<rparr>"


section \<open>A drive that addresses folders by id\<close>

text \<open>
  Modelled from the spec: a second drive manager to run the engine on, which addresses
  the folders of the account by their ids and not by their paths. It follows the spec's
  \<open>DriveClient\<close> contract with the addressing of the Quark client
  (\<open>service/quark/client.py\<close>): \<open>get_disk_list\<close> shows the children of the folder whose id
  is \<open>file_id\<close> (the root \<open>0\<close> when it is empty) and does not read the path; \<open>mkdir\<close>
  creates the folder under \<open>parent_id\<close>; \<open>transfer\<close>, for a share of type \<open>link\<close>, wants
  \<open>stoken\<close>, the parent of the shared files and one entry of \<open>files_ext_info\<close> per file
  id, and saves the files into the folder \<open>to_pdir_fid = target_id or ext["to_pdir_fid"]\<close>,
  whatever \<open>target_path\<close> is; \<open>remove\<close> deletes by file id; the share is listed by path.
  A failed call answers with an empty listing or \<open>False\<close>, as the client's \<open>except\<close>
  branches do. The other ways the client accepts tokens are left out: they answer
  \<open>False\<close> here. The remote service behind the client is outside the repository's files;
  a saved file replaces an entry of the same name, and a new folder gets a fresh id.
\<close>

record id_world =
  id_share :: "(string \<times> BaseFileInfo list) list"
  id_disk :: "(string \<times> BaseFileInfo list) list"

text \<open>\<open>combined_kwargs.get(k)\<close> taken as a condition.\<close>

definition ext_truthy :: "(string \<times> extval) list \<Rightarrow> string \<Rightarrow> bool" where
  "ext_truthy ext k =
     (case map_of ext k of
        Some (EVal v) \<Rightarrow> truthy v
      | Some (EFilesExt infos) \<Rightarrow> infos \<noteq> []
      | None \<Rightarrow> False)"

definition id_get_share_list ::
  "ListShareFilesParam \<Rightarrow> id_world \<Rightarrow> (string + BaseFileInfo list) \<times> id_world" where
  "id_get_share_list p w =
     (if ls_source_type p \<noteq> ''link'' then (Inr [], w)
      else (case map_of (id_share w) (rstrip_slash (ls_file_path p)) of
              Some files \<Rightarrow> (Inr files, w)
            | None \<Rightarrow> (Inr [], w)))"

definition id_get_disk_list ::
  "ListFilesParam \<Rightarrow> id_world \<Rightarrow> (string + BaseFileInfo list) \<times> id_world" where
  "id_get_disk_list p w =
     (let initial_pdir_fid = (if lf_file_id p \<noteq> [] then lf_file_id p else ''0'')
      in case map_of (id_disk w) initial_pdir_fid of
           Some files \<Rightarrow> (Inr files, w)
         | None \<Rightarrow> (Inr [], w))"

definition id_create_mkdir ::
  "MkdirParam \<Rightarrow> id_world \<Rightarrow> (string + BaseFileInfo option) \<times> id_world" where
  "id_create_mkdir p w =
     (let parent_id = (if mk_parent_id p \<noteq> [] then mk_parent_id p else ''0'');
          folder_name = mk_file_name p;
          file_path = (if mk_file_path p \<noteq> [] then mk_file_path p else ''/'');
          full_path = (if file_path = ''/'' then ''/'' @ folder_name
                       else file_path @ ''/'' @ folder_name)
      in case map_of (id_disk w) parent_id of
           None \<Rightarrow> (Inl ''parent folder not found'', w)
         | Some siblings \<Rightarrow>
             (let fid = ''d'' @ str_nat (length (id_disk w));
                  folder = \<lparr>file_id = fid, file_name = folder_name, file_path = full_path,
                            is_folder = True, file_size = Some 0, file_ext = []\<rparr>
              in (Inr (Some folder),
                  w\<lparr>id_disk := AList.update fid []
                       (AList.update parent_id (siblings @ [folder]) (id_disk w))\<rparr>)))"

definition id_transfer_files ::
  "TransferParam \<Rightarrow> id_world \<Rightarrow> (string + bool) \<times> id_world" where
  "id_transfer_files p w =
     (if tp_source_type p \<noteq> ''link'' then (Inr False, w)
      else if \<not> ext_truthy (tp_ext p) ''stoken'' then (Inr False, w)
      else
        (let to_pdir_fid =
               (if tp_target_id p \<noteq> [] then tp_target_id p
                else (case map_of (tp_ext p) ''to_pdir_fid'' of
                        Some (EVal (PStr s)) \<Rightarrow> s
                      | _ \<Rightarrow> []))
         in if to_pdir_fid = [] then (Inr False, w)
            else if \<not> ((tp_file_ids p \<noteq> [] \<and> ext_truthy (tp_ext p) ''share_parent_fid'')
                        \<or> ext_truthy (tp_ext p) ''pdir_fid'') then (Inr False, w)
            else
              (case map_of (tp_ext p) ''files_ext_info'' of
                 Some (EFilesExt files_ext_info) \<Rightarrow>
                   if files_ext_info \<noteq> []
                      \<and> list_all (\<lambda>fid. fid \<in> set (map fei_file_id files_ext_info))
                           (tp_file_ids p)
                   then
                     (case (map_of (id_share w) (rstrip_slash (tp_source_path p)),
                            map_of (id_disk w) to_pdir_fid) of
                        (Some offered, Some present) \<Rightarrow>
                          (let picked = filter (\<lambda>f. PStr (file_id f) \<in> set (tp_file_ids p))
                                          offered
                           in (Inr True,
                               w\<lparr>id_disk := AList.update to_pdir_fid
                                    (filter (\<lambda>f. file_key f \<notin> set (map file_key picked)) present
                                     @ picked)
                                    (id_disk w)\<rparr>))
                      | _ \<Rightarrow> (Inr False, w))
                   else (Inr False, w)
               | _ \<Rightarrow> (Inr False, w))))"

definition id_remove_files ::
  "RemoveParam \<Rightarrow> id_world \<Rightarrow> (string + bool) \<times> id_world" where
  "id_remove_files p w =
     (case rm_file_ids p of
        None \<Rightarrow> (Inr False, w)
      | Some file_ids \<Rightarrow>
          if file_ids = [] then (Inr False, w)
          else (Inr True,
                w\<lparr>id_disk := map (\<lambda>(fid, files).
                                     (fid, filter (\<lambda>f. file_id f \<notin> set file_ids) files))
                                  (filter (\<lambda>(fid, files). fid \<notin> set file_ids) (id_disk w))\<rparr>))"

definition id_drive :: "id_world drive_manager" where
  "id_drive =
     \<lparr>dm_get_share_list = id_get_share_list,
      dm_get_disk_list = id_get_disk_list,
      dm_create_mkdir = id_create_mkdir,
      dm_transfer_files = id_transfer_files,
      dm_remove_files = id_remove_files,
      pydantic_str = ref_pydantic_str\<rparr>"

text \<open>
  A share link with the folder \<open>b\<close> holding \<open>c.txt (20)\<close>, listed with the extension keys
  the client attaches to every shared item, and two accounts: one whose target folder
  \<open>/dst\<close> (id \<open>T0\<close>) already holds an empty folder \<open>b\<close> (id \<open>T1\<close>), and one whose target
  folder is empty.
\<close>

definition id_config :: sync_config where
  "id_config =
     \<lparr>cfg_method = Some ''incremental'', cfg_speed = 2, cfg_src_path = ''/root'',
      cfg_dst_path = ''/dst'', cfg_source_type = ''link'',
      cfg_source_id = ''https://pan.quark.cn/s/abc'', cfg_ext_params = [],
      cfg_dst_file_id = ''T0'', cfg_drive_type = ''quark''\<rparr>"

definition id_target :: DiskTargetDefinition where
  "id_target = \<lparr>dst_file_path = ''/dst'', dst_file_id = ''T0''\<rparr>"

definition share_file :: "string \<Rightarrow> string \<Rightarrow> string \<Rightarrow> string \<Rightarrow> int \<Rightarrow> BaseFileInfo" where
  "share_file fid pdir dir name sz =
     \<lparr>file_id = fid, file_name = name, file_path = dir @ ''/'' @ name, is_folder = False,
      file_size = Some sz,
      file_ext = [(''pwd_id'', PStr ''abc''), (''stoken'', PStr ''st''),
                  (''share_url'', PStr ''https://pan.quark.cn/s/abc''),
                  (''share_fid_token'', PStr (''tok-'' @ fid)), (''pdir_fid'', PStr pdir)]\<rparr>"

definition share_folder :: "string \<Rightarrow> string \<Rightarrow> string \<Rightarrow> string \<Rightarrow> BaseFileInfo" where
  "share_folder fid pdir dir name =
     \<lparr>file_id = fid, file_name = name, file_path = dir @ ''/'' @ name, is_folder = True,
      file_size = Some 0,
      file_ext = [(''pwd_id'', PStr ''abc''), (''stoken'', PStr ''st''),
                  (''share_url'', PStr ''https://pan.quark.cn/s/abc''),
                  (''share_fid_token'', PStr (''tok-'' @ fid)), (''pdir_fid'', PStr pdir)]\<rparr>"

definition disk_folder :: "string \<Rightarrow> string \<Rightarrow> string \<Rightarrow> BaseFileInfo" where
  "disk_folder fid dir name =
     \<lparr>file_id = fid, file_name = name, file_path = dir @ ''/'' @ name, is_folder = True,
      file_size = Some 0, file_ext = []\<rparr>"

definition id_share_b :: "(string \<times> BaseFileInfo list) list" where
  "id_share_b =
     [(''/root'', [share_folder ''s1'' ''s0'' ''/root'' ''b'']),
      (''/root/b'', [share_file ''s2'' ''s1'' ''/root/b'' ''c.txt'' 20])]"

definition id_world_b :: id_world where
  "id_world_b =
     \<lparr>id_share = id_share_b,
      id_disk = [(''T0'', [disk_folder ''T1'' ''/dst'' ''b'']), (''T1'', [])]\<rparr>"

definition id_world_fresh :: id_world where
  "id_world_fresh = \<lparr>id_share = id_share_b, id_disk = [(''T0'', [])]\<rparr>"

text \<open>
  A share with a folder inside a folder, and a target that has the outer folder only.
\<close>

definition world_nested :: ref_world where
  "world_nested =
     \<lparr>share = [(''/root'', [ref_folder ''/root/b'' ''b'']),
               (''/root/b'', [ref_folder ''/root/b/c'' ''c'']),
               (''/root/b/c'', [ref_file ''f3'' ''/root/b/c'' ''d.txt'' 5])],
      disk = [(''/dst'', [ref_folder ''/dst/b'' ''b'']), (''/dst/b'', [])]\<rparr>"

section \<open>Notions used to state the properties\<close>

fun is_remove :: "call \<Rightarrow> bool" where
  "is_remove (CallRemove p) = True"
| "is_remove c = False"

text \<open>The kind of a call and the path it is about, for reading a log of calls.\<close>

fun call_summary :: "call \<Rightarrow> string \<times> string" where
  "call_summary (CallShareList p) = (''list_share'', ls_file_path p)"
| "call_summary (CallDiskList p) = (''list_disk'', lf_file_path p)"
| "call_summary (CallMkdir p) = (''mkdir'', mk_file_name p)"
| "call_summary (CallTransfer p) = (''transfer'', tp_target_path p)"
| "call_summary (CallRemove p) = (''remove'', rm_parent_id p)"

text \<open>
  The size \<open>list_dir\<close> stores for a listed item:
  \<open>file.file_size if not getattr(file, 'is_folder', False) else 0\<close>.
\<close>

definition listed_size :: "BaseFileInfo \<Rightarrow> pyval" where
  "listed_size f =
     (if is_folder f then PInt 0
      else (case file_size f of Some n \<Rightarrow> PInt n | None \<Rightarrow> PNone))"

text \<open>
  The loops of \<open>sync_with_have\<close> and \<open>sync_without_have\<close> under their own names: the
  pair of the files collected for transfer and the state after the last entry.
\<close>

definition with_have_loop ::
  "'w sync_ctx \<Rightarrow> DiskTargetDefinition \<Rightarrow> string \<Rightarrow> string \<Rightarrow> nat \<Rightarrow> file_map \<Rightarrow> file_map
     \<Rightarrow> pydict list \<times> 'w sync_state \<Rightarrow> pydict list \<times> 'w sync_state" where
  "with_have_loop ctx target_definition source_path target_path current_depth target_file_map
       source_file_map start =
     fold (\<lambda>(name, file_info) acc.
             if \<not> ends_with_slash name then
               with_have_file target_file_map source_path target_path name file_info acc
             else if \<not> dict_has target_file_map name then
               (fst acc,
                sync_without_have ctx target_definition
                  (sub_path source_path name) (sub_path target_path name)
                  (current_depth + 1) (snd acc))
             else
               (fst acc,
                sync_with_have ctx target_definition
                  (sub_path source_path name) (sub_path target_path name)
                  (sub_file_id target_file_map name) (current_depth + 1) (snd acc)))
          source_file_map start"

definition without_have_loop ::
  "'w sync_ctx \<Rightarrow> DiskTargetDefinition \<Rightarrow> string \<Rightarrow> string \<Rightarrow> nat \<Rightarrow> file_map
     \<Rightarrow> pydict list \<times> 'w sync_state \<Rightarrow> pydict list \<times> 'w sync_state" where
  "without_have_loop ctx new_definition source_path target_path current_depth source_file_map
       start =
     fold (\<lambda>(name, file_info) acc.
             if ends_with_slash name then
               (fst acc,
                sync_without_have ctx new_definition
                  (sub_path source_path name) (sub_path target_path name)
                  (current_depth + 1) (snd acc))
             else without_have_file source_path target_path name file_info acc)
          source_file_map start"

text \<open>
  The calls a level makes after its loop: nothing, the batched transfer of the file ids
  \<open>ids\<close>, the batched delete of the paths \<open>dels\<close> (only when there is a delete to make),
  or the transfer followed by the delete.
\<close>

fun level_tail :: "pyval list \<Rightarrow> string list option \<Rightarrow> call list \<Rightarrow> bool" where
  "level_tail ids dels [] = True"
| "level_tail ids dels [CallTransfer p] = (tp_file_ids p = ids)"
| "level_tail ids dels [CallRemove r] = (dels \<noteq> None \<and> rm_file_paths r = dels)"
| "level_tail ids dels [CallTransfer p, CallRemove r] =
     (tp_file_ids p = ids \<and> dels \<noteq> None \<and> rm_file_paths r = dels)"
| "level_tail ids dels cs = False"

definition file_ids_of :: "pydict list \<Rightarrow> pyval list" where
  "file_ids_of files = map (\<lambda>f. dict_get f ''file_id'' (PStr [])) files"

definition delete_paths :: "string \<Rightarrow> file_map \<Rightarrow> file_map \<Rightarrow> string list" where
  "delete_paths target_path source_file_map target_file_map =
     map (\<lambda>f. rstrip_slash (df_target_path f) @ ''/'' @ df_file_name f)
         (files_to_delete target_path source_file_map target_file_map)"

fun is_listing :: "call \<Rightarrow> bool" where
  "is_listing (CallShareList p) = True"
| "is_listing (CallDiskList p) = True"
| "is_listing c = False"

text \<open>
  The target mirrors the source, as the listings of the drive in state \<open>w\<close> show it: at
  every level the recursion visits, both listings succeed, every source file has a
  target entry of the same name and size, and every source folder is in the target
  listing and is mirrored in turn. This is the state a first run leaves behind when all
  its transfers have taken effect.
\<close>

function mirrored :: "'w sync_ctx \<Rightarrow> string \<Rightarrow> string \<Rightarrow> pyval \<Rightarrow> nat \<Rightarrow> 'w \<Rightarrow> bool" where
  "mirrored ctx source_path target_path target_id current_depth w =
     (if current_depth \<ge> max_depth ctx then True
      else
        (case (fst (list_dir ctx source_path True PNone (init_state w)),
               fst (list_dir ctx target_path False target_id (init_state w))) of
           (Inr source_file_map, Inr target_file_map) \<Rightarrow>
             list_all (\<lambda>(name, file_info).
                         if \<not> ends_with_slash name
                         then \<not> needs_transfer target_file_map name file_info
                         else dict_has target_file_map name
                              \<and> mirrored ctx (sub_path source_path name)
                                   (sub_path target_path name)
                                   (sub_file_id target_file_map name) (current_depth + 1) w)
                      source_file_map
         | _ \<Rightarrow> False))"
  by pat_completeness auto
termination
  by (relation "measure (\<lambda>(ctx, sp, tp, ti, d, w). max_depth ctx - d)") auto

declare mirrored.simps [simp del]

text \<open>
  A step that leaves the drive alone: the drive's state, the counters of transfers,
  created folders and deletions and the error list are as before, every file processed
  in between was skipped, and no call other than a listing was made.
\<close>

definition quiet :: "'w sync_state \<Rightarrow> 'w sync_state \<Rightarrow> bool" where
  "quiet a b =
     (world b = world a \<and> files_transferred b = files_transferred a \<and> errors b = errors a
      \<and> folder_created b = folder_created a \<and> files_deleted b = files_deleted a
      \<and> files_skipped b - files_skipped a = files_processed b - files_processed a
      \<and> filter (\<lambda>c. \<not> is_listing c) (calls b) = filter (\<lambda>c. \<not> is_listing c) (calls a))"

section \<open>Statements of the specification kept for comparison\<close>

text \<open>
  Written from the specification's words, not from the code: the name under which the
  specification compares a source item with the target, "after the first matching rename
  rule has been substituted into it". A rule matches when \<open>generate_new_path\<close> returns
  a new value; a rule on the path gives the last segment of the new path.
\<close>

definition spec_planned_name :: "RenameRule list \<Rightarrow> BaseFileInfo \<Rightarrow> string" where
  "spec_planned_name rules item =
     (case List.find (\<lambda>r. generate_new_path r item \<noteq> None) rules of
        None \<Rightarrow> file_name item
      | Some r \<Rightarrow>
          (case generate_new_path r item of
             None \<Rightarrow> file_name item
           | Some new_value \<Rightarrow>
               if rr_target_scope r = PATH then last_segment new_value else new_value))"

text \<open>Inputs for running the rename comparison and the error policy.\<close>

definition rule_a_to_b :: RenameRule where
  "rule_a_to_b =
     \<lparr>rr_target_scope = NAME, rr_sub = (\<lambda>s. if s = ''a.txt'' then ''b.txt'' else s)\<rparr>"

definition world_renamed :: ref_world where
  "world_renamed =
     \<lparr>share = [(''/root'', [ref_file ''f1'' ''/root'' ''a.txt'' 10])],
      disk = [(''/dst'', [ref_file ''g1'' ''/dst'' ''b.txt'' 10])]\<rparr>"

text \<open>A share whose folder \<open>b\<close> holds a file that came without an id.\<close>

definition world_no_id :: ref_world where
  "world_no_id =
     \<lparr>share = [(''/root'', [ref_file ''f1'' ''/root'' ''a.txt'' 10, ref_folder ''/root/b'' ''b'']),
               (''/root/b'', [ref_file [] ''/root/b'' ''c.txt'' 20])],
      disk = [(''/dst'', [])]\<rparr>"

text \<open>
  An instant, in microseconds, at which a schedule fires: a whole second of the schedule.
\<close>

definition fire_instant :: "(nat \<Rightarrow> bool) \<Rightarrow> int \<Rightarrow> bool" where
  "fire_instant fires t = (0 \<le> t \<and> t mod 1000000 = 0 \<and> fires (nat (t div 1000000)))"

text \<open>
  Written from the specification's words, not from the code: \<open>prev_fire\<close> is "the latest
  cron instant \<open>\<le> now\<close>", and a configuration is eligible when \<open>0 \<le> lag \<le> 5\<close> minutes for
  \<open>lag = now - prev_fire\<close> and \<open>last_sync\<close> is null or earlier than \<open>prev_fire\<close>.
\<close>

definition spec_prev_fire :: "(string \<Rightarrow> nat \<Rightarrow> bool) \<Rightarrow> string \<Rightarrow> int \<Rightarrow> int option" where
  "spec_prev_fire schedule cron_expr now =
     (if now < 0 then None
      else map_option (\<lambda>s. int s * 1000000)
             (latest_fire_upto (schedule cron_expr) (nat (now div 1000000))))"

definition spec_eligible ::
  "(string \<Rightarrow> nat \<Rightarrow> bool) \<Rightarrow> string \<Rightarrow> int option \<Rightarrow> int \<Rightarrow> bool" where
  "spec_eligible schedule cron_expr last_sync now =
     (case spec_prev_fire schedule cron_expr now of
        None \<Rightarrow> False
      | Some prev_fire \<Rightarrow>
          0 \<le> now - prev_fire \<and> now - prev_fire \<le> 5 * 60 * 1000000
          \<and> (case last_sync of None \<Rightarrow> True | Some t \<Rightarrow> t < prev_fire))"

text \<open>The schedule \<open>*/5 * * * *\<close>: every fifth minute, on the minute.\<close>

definition every_five_minutes :: "string \<Rightarrow> nat \<Rightarrow> bool" where
  "every_five_minutes cron_expr s = (s mod 300 = 0)"

text \<open>Two collected files with their per-file tokens, as a share-link listing gives them.\<close>

definition two_files :: "pydict list" where
  "two_files =
     [[(''file_name'', PStr ''a.txt''), (''file_size'', PInt 10), (''source_path'', PStr ''/root''),
       (''target_path'', PStr ''/dst''), (''file_id'', PStr ''f1''),
       (''share_fid_token'', PStr ''t1'')],
      [(''file_name'', PStr ''c.txt''), (''file_size'', PInt 20), (''source_path'', PStr ''/root''),
       (''target_path'', PStr ''/dst''), (''file_id'', PStr ''f2''),
       (''share_fid_token'', PStr ''t2'')]]"

definition two_files_transfer :: TransferParam where
  "two_files_transfer =
     \<lparr>tp_drive_type = ''ref'', tp_source_type = ''friend'', tp_source_id = ''uk1'',
      tp_source_path = ''/root'', tp_target_path = ''/dst'', tp_target_id = ''/dst'',
      tp_file_ids = [PStr ''f1'', PStr ''f2''],
      tp_ext = [(''files_ext_info'',
                 EFilesExt [\<lparr>fei_file_id = PStr ''f1'',
                              fei_file_ext = [(''share_fid_token'', PStr ''t1'')]\<rparr>,
                            \<lparr>fei_file_id = PStr ''f2'',
                              fei_file_ext = [(''share_fid_token'', PStr ''t2'')]\<rparr>]),
                (''share_fid_token'', EVal (PStr ''t1''))]\<rparr>"


text \<open>A share with one file that came without an id, and an empty target.\<close>

definition world_one_no_id :: ref_world where
  "world_one_no_id =
     \<lparr>share = [(''/root'', [ref_file [] ''/root'' ''a.txt'' 10])], disk = [(''/dst'', [])]\<rparr>"


text \<open>
  The specification's scenario "size mismatch triggers transfer": source
  \<open>/root/a.txt (12)\<close>, target \<open>/dst/a.txt (10)\<close>.
\<close>

definition world_size_mismatch :: ref_world where
  "world_size_mismatch =
     \<lparr>share = [(''/root'', [ref_file ''f1'' ''/root'' ''a.txt'' 12])],
      disk = [(''/dst'', [ref_file ''g1'' ''/dst'' ''a.txt'' 10])]\<rparr>"
section \<open>Lemmas about the engine\<close>

lemma record_all_eq:
  "record_all ctx items st = st\<lparr>task_items := task_items st @ (if recording ctx then items else [])\<rparr>"
  by (induction items arbitrary: st) (auto simp: record_all_def record_task_item_def)

lemma sync_with_have_unfold:
  "sync_with_have ctx td sp tp tid d st =
     (if d \<ge> max_depth ctx then st
      else (case scan_both ctx sp tp tid st of
              (None, st1) \<Rightarrow> st1
            | (Some (smap, tmap), st1) \<Rightarrow>
                with_have_finish ctx td tp smap tmap
                  (with_have_loop ctx td sp tp d tmap smap ([], st1))))"
  by (auto simp: with_have_loop_def split: prod.splits option.splits)

lemma sync_without_have_unfold:
  "sync_without_have ctx td sp tp d st =
     (if d \<ge> max_depth ctx then st
      else (case create_and_scan ctx td sp tp st of
              (None, st1) \<Rightarrow> st1
            | (Some (nd, smap), st1) \<Rightarrow>
                without_have_finish ctx nd
                  (without_have_loop ctx nd sp tp d smap ([], st1))))"
  by (auto simp: without_have_loop_def split: prod.splits option.splits)

lemma list_dir_removes:
  "filter is_remove (calls (snd (list_dir ctx p s t st))) = filter is_remove (calls st)"
  by (auto simp: list_dir_def Let_def split: prod.splits sum.splits pyval.splits if_splits)

lemma handle_transfer_error_calls: "calls (snd (handle_transfer_error st)) = calls st"
  by (auto simp: handle_transfer_error_def Let_def add_error_def asyncio_sleep_def)

lemma fold_rel:
  assumes step: "\<And>x acc. x \<in> set xs \<Longrightarrow> R (snd acc) (snd (f x acc))"
    and rrefl: "\<And>s. R s s"
    and rtrans: "\<And>a b c. R a b \<Longrightarrow> R b c \<Longrightarrow> R a c"
  shows "R (snd a) (snd (fold f xs a))"
  using step
proof (induction xs arbitrary: a)
  case Nil
  show ?case by (simp add: rrefl)
next
  case (Cons x xs)
  have 1: "R (snd a) (snd (f x a))" using Cons.prems by simp
  have 2: "R (snd (f x a)) (snd (fold f xs (f x a)))"
    using Cons.IH Cons.prems by simp
  show ?case using rtrans[OF 1 2] by simp
qed

lemma sync_rel_aux:
  assumes rrefl: "\<And>s. R s s"
    and rtrans: "\<And>a b c. R a b \<Longrightarrow> R b c \<Longrightarrow> R a c"
    and scan: "\<And>sp tp tid s. R s (snd (scan_both ctx sp tp tid s))"
    and create: "\<And>td sp tp s. R s (snd (create_and_scan ctx td sp tp s))"
    and wfile: "\<And>tmap sp tp n i acc. R (snd acc) (snd (with_have_file tmap sp tp n i acc))"
    and wofile: "\<And>sp tp n i acc. R (snd acc) (snd (without_have_file sp tp n i acc))"
    and wfin: "\<And>td tp smap tmap acc. R (snd acc) (with_have_finish ctx td tp smap tmap acc)"
    and wofin: "\<And>td acc. R (snd acc) (without_have_finish ctx td acc)"
  shows "max_depth ctx - d = n \<Longrightarrow>
         R st (sync_with_have ctx td sp tp tid d st) \<and> R st (sync_without_have ctx td sp tp d st)"
proof (induction n arbitrary: d td sp tp tid st)
  case 0
  then have "max_depth ctx \<le> d" by simp
  then show ?case by (simp add: rrefl)
next
  case (Suc n)
  then have lt: "\<not> max_depth ctx \<le> d" and m: "max_depth ctx - Suc d = n" by auto
  have ih1: "\<And>td sp tp tid s. R s (sync_with_have ctx td sp tp tid (Suc d) s)"
    and ih2: "\<And>td sp tp s. R s (sync_without_have ctx td sp tp (Suc d) s)"
    using Suc.IH[OF m] by auto
  have w: "R st (sync_with_have ctx td sp tp tid d st)"
  proof (cases "scan_both ctx sp tp tid st")
    case (Pair r st1)
    have s1: "R st st1" using scan[of st sp tp tid] Pair by simp
    show ?thesis
    proof (cases r)
      case None
      then show ?thesis using Pair lt s1 by (simp add: sync_with_have_unfold del: sync_with_have.simps)
    next
      case (Some maps)
      obtain smap tmap where maps: "maps = (smap, tmap)" by (cases maps)
      let ?l = "with_have_loop ctx td sp tp d tmap smap ([], st1)"
      have "R (snd ([]::pydict list, st1)) (snd ?l)"
        unfolding with_have_loop_def
      proof (rule fold_rel[where R = R])
        fix x :: "string \<times> pydict" and acc :: "pydict list \<times> 'a sync_state"
        show "R (snd acc) (snd ((case x of (name, file_info) \<Rightarrow> \<lambda>acc.
               if \<not> ends_with_slash name then with_have_file tmap sp tp name file_info acc
               else if \<not> dict_has tmap name
                 then (fst acc, sync_without_have ctx td (sub_path sp name) (sub_path tp name) (d + 1) (snd acc))
                 else (fst acc, sync_with_have ctx td (sub_path sp name) (sub_path tp name)
                         (sub_file_id tmap name) (d + 1) (snd acc))) acc))"
          by (cases x) (simp add: wfile ih1 ih2 del: sync_with_have.simps sync_without_have.simps)
      qed (auto intro: rrefl rtrans)
      then have l: "R st1 (snd ?l)" by simp
      have f: "R (snd ?l) (with_have_finish ctx td tp smap tmap ?l)" by (rule wfin)
      show ?thesis using Pair Some maps lt rtrans[OF s1 rtrans[OF l f]]
        by (simp add: sync_with_have_unfold del: sync_with_have.simps)
    qed
  qed
  have wo: "R st (sync_without_have ctx td sp tp d st)"
  proof (cases "create_and_scan ctx td sp tp st")
    case (Pair r st1)
    have s1: "R st st1" using create[of st td sp tp] Pair by simp
    show ?thesis
    proof (cases r)
      case None
      then show ?thesis using Pair lt s1
        by (simp add: sync_without_have_unfold del: sync_without_have.simps)
    next
      case (Some res)
      obtain nd smap where res: "res = (nd, smap)" by (cases res)
      let ?l = "without_have_loop ctx nd sp tp d smap ([], st1)"
      have "R (snd ([]::pydict list, st1)) (snd ?l)"
        unfolding without_have_loop_def
      proof (rule fold_rel[where R = R])
        fix x :: "string \<times> pydict" and acc :: "pydict list \<times> 'a sync_state"
        show "R (snd acc) (snd ((case x of (name, file_info) \<Rightarrow> \<lambda>acc.
               if ends_with_slash name
                 then (fst acc, sync_without_have ctx nd (sub_path sp name) (sub_path tp name) (d + 1) (snd acc))
                 else without_have_file sp tp name file_info acc) acc))"
          by (cases x) (simp add: wofile ih2 del: sync_with_have.simps sync_without_have.simps)
      qed (auto intro: rrefl rtrans)
      then have l: "R st1 (snd ?l)" by simp
      have f: "R (snd ?l) (without_have_finish ctx nd ?l)" by (rule wofin)
      show ?thesis using Pair Some res lt rtrans[OF s1 rtrans[OF l f]]
        by (simp add: sync_without_have_unfold del: sync_without_have.simps)
    qed
  qed
  show ?case using w wo by simp
qed

lemma sync_rel:
  assumes "\<And>s. R s s"
    and "\<And>a b c. R a b \<Longrightarrow> R b c \<Longrightarrow> R a c"
    and "\<And>sp tp tid s. R s (snd (scan_both ctx sp tp tid s))"
    and "\<And>td sp tp s. R s (snd (create_and_scan ctx td sp tp s))"
    and "\<And>tmap sp tp n i acc. R (snd acc) (snd (with_have_file tmap sp tp n i acc))"
    and "\<And>sp tp n i acc. R (snd acc) (snd (without_have_file sp tp n i acc))"
    and "\<And>td tp smap tmap acc. R (snd acc) (with_have_finish ctx td tp smap tmap acc)"
    and "\<And>td acc. R (snd acc) (without_have_finish ctx td acc)"
  shows "R st (sync_with_have ctx td sp tp tid d st)"
    and "R st (sync_without_have ctx td sp tp d st)"
proof -
  have "R st (sync_with_have ctx td sp tp tid d st) \<and> R st (sync_without_have ctx td sp tp d st)"
  proof (rule sync_rel_aux[where R = R and n = "max_depth ctx - d"])
    show "\<And>a b c. R a b \<Longrightarrow> R b c \<Longrightarrow> R a c" using assms(2) by blast
  qed (simp_all add: assms)
  then show "R st (sync_with_have ctx td sp tp tid d st)"
    and "R st (sync_without_have ctx td sp tp d st)" by simp_all
qed

lemma transfer_files_calls:
  "calls (snd (transfer_files ctx td files st)) = calls st
   \<or> (\<exists>p. calls (snd (transfer_files ctx td files st)) = calls st @ [CallTransfer p])"
  by (auto simp: transfer_files_def transfer_exception_def record_all_eq record_task_item_def
      add_error_def speed_sleep_def asyncio_sleep_def Let_def
      split: prod.splits sum.splits option.splits if_splits)

lemma delete_files_calls:
  "calls (snd (delete_files ctx td files st)) = calls st
   \<or> (\<exists>p. calls (snd (delete_files ctx td files st)) = calls st @ [CallRemove p])"
  by (auto simp: delete_files_def delete_exception_def record_all_eq record_task_item_def
      add_error_def speed_sleep_def asyncio_sleep_def Let_def
      split: prod.splits sum.splits option.splits if_splits)

lemma transfer_collected_calls:
  "calls (snd (transfer_collected ctx td files st)) = calls st
   \<or> (\<exists>p. calls (snd (transfer_collected ctx td files st)) = calls st @ [CallTransfer p])"
  using transfer_files_calls[of ctx td files st]
  by (auto simp: transfer_collected_def handle_transfer_error_calls split: prod.splits)

lemma scan_both_removes:
  "filter is_remove (calls (snd (scan_both ctx sp tp tid st))) = filter is_remove (calls st)"
proof -
  have a: "\<And>p s t st. filter is_remove (calls (snd (list_dir ctx p s t st))) = filter is_remove (calls st)"
    by (rule list_dir_removes)
  show ?thesis
    unfolding scan_both_def
    apply (cases "list_dir ctx sp True PNone st")
    subgoal for r st1
      using a[of sp True PNone st]
      apply (cases r)
       apply (simp add: add_error_def)
      apply (cases "list_dir ctx tp False tid st1")
      subgoal for fm r2 st2
        using a[of tp False tid st1]
        by (cases r2) (simp_all add: add_error_def)
      done
    done
qed

lemma create_directory_removes:
  "filter is_remove (calls (snd (create_directory ctx td n st))) = filter is_remove (calls st)"
  by (auto simp: create_directory_def Let_def split: prod.splits sum.splits)

lemma create_and_scan_removes:
  "filter is_remove (calls (snd (create_and_scan ctx td sp tp st))) = filter is_remove (calls st)"
proof -
  obtain r st1 where c: "create_directory ctx td (last_segment (rstrip_slash tp)) st = (r, st1)"
    by (cases "create_directory ctx td (last_segment (rstrip_slash tp)) st")
  have c1: "filter is_remove (calls st1) = filter is_remove (calls st)"
    using create_directory_removes[of ctx td "last_segment (rstrip_slash tp)" st] c by simp
  show ?thesis
  proof (cases r)
    case None
    then show ?thesis using c c1 by (simp add: create_and_scan_def add_error_def)
  next
    case (Some info)
    let ?st2 = "record_task_item ctx (create_item sp tp (last_segment (rstrip_slash tp)))
                       (st1\<lparr>folder_created := folder_created st1 + 1\<rparr>)"
    have c2: "calls ?st2 = calls st1" by (simp add: record_task_item_def)
    obtain r3 st3 where l: "list_dir ctx sp True PNone ?st2 = (r3, st3)"
      by (cases "list_dir ctx sp True PNone ?st2")
    have c3: "filter is_remove (calls st3) = filter is_remove (calls ?st2)"
      using list_dir_removes[of ctx sp True PNone ?st2] l by simp
    show ?thesis using c Some l c1 c2 c3
      by (cases r3) (simp_all add: create_and_scan_def Let_def add_error_def)
  qed
qed

lemma with_have_file_calls: "calls (snd (with_have_file tmap sp tp n i acc)) = calls (snd acc)"
  by (cases acc) (simp add: with_have_file_def Let_def)

lemma without_have_file_calls: "calls (snd (without_have_file sp tp n i acc)) = calls (snd acc)"
  by (cases acc) (simp add: without_have_file_def)

lemma without_have_finish_removes:
  "filter is_remove (calls (without_have_finish ctx td acc)) = filter is_remove (calls (snd acc))"
  using transfer_collected_calls[of ctx td "fst acc" "snd acc"]
  by (cases acc) (auto simp: without_have_finish_def)

lemma with_have_finish_removes:
  assumes "sync_method ctx \<noteq> ''full''"
  shows "filter is_remove (calls (with_have_finish ctx td tp smap tmap acc)) = filter is_remove (calls (snd acc))"
  using transfer_collected_calls[of ctx td "fst acc" "snd acc"] assms
  by (cases acc) (auto simp: with_have_finish_def split: prod.splits)

lemma sync_with_have_removes:
  assumes "sync_method ctx \<noteq> ''full''"
  shows "filter is_remove (calls (sync_with_have ctx td sp tp tid d st)) = filter is_remove (calls st)"
proof -
  have "(\<lambda>a b. filter is_remove (calls b) = filter is_remove (calls a)) st (sync_with_have ctx td sp tp tid d st)"
    by (rule sync_rel(1))
      (simp_all add: scan_both_removes create_and_scan_removes with_have_file_calls
        without_have_file_calls without_have_finish_removes with_have_finish_removes[OF assms])
  then show ?thesis by simp
qed

lemma perform_sync_incremental_removes:
  assumes "sync_method ctx = ''incremental''"
  shows "filter is_remove (calls (ps_stats (perform_sync ctx td w))) = []"
  using assms sync_with_have_removes[of ctx td _ _ _ 0 "init_state w"]
  by (simp add: perform_sync_def init_state_def Let_def del: sync_with_have.simps)

text \<open>A path derived from a path with a leading slash keeps the leading slash.\<close>

lemma sub_path_keeps_leading_slash:
  assumes "path \<noteq> []" and "hd path = CHR ''/''"
  shows "sub_path path name \<noteq> [] \<and> hd (sub_path path name) = CHR ''/''"
proof (cases "rstrip_slash path")
  case Nil
  then show ?thesis by (simp add: sub_path_def)
next
  case (Cons c cs)
  have "rev (rstrip_slash path) = dropWhile (\<lambda>c. c = CHR ''/'') (rev path)"
    by (simp add: rstrip_slash_def)
  then obtain pre where "rev path = pre @ rev (rstrip_slash path)"
    by (metis takeWhile_dropWhile_id)
  then have "path = rstrip_slash path @ rev pre"
    by (metis rev_append rev_rev_ident)
  then have "hd path = c" using Cons by (metis append_Cons list.sel(1))
  then show ?thesis using assms Cons by (simp add: sub_path_def)
qed

text \<open>The log of calls only grows, and each level starts with its own first call.\<close>

lemma list_dir_src_calls:
  "calls (snd (list_dir ctx sp True t st)) =
     calls st @ [CallShareList \<lparr>ls_drive_type = drive_type ctx,
                   ls_source_type = src_source_type (source_definition ctx),
                   ls_source_id = src_source_id (source_definition ctx),
                   ls_file_path = sp\<rparr>]"
  by (auto simp: list_dir_def Let_def split: prod.splits sum.splits)

lemma list_dir_calls_prefix: "prefix (calls st) (calls (snd (list_dir ctx p s t st)))"
  by (auto simp: list_dir_def Let_def split: prod.splits sum.splits pyval.splits if_splits)

lemma scan_both_calls_prefix: "prefix (calls st) (calls (snd (scan_both ctx sp tp tid st)))"
proof -
  obtain r st1 where a: "list_dir ctx sp True PNone st = (r, st1)"
    by (cases "list_dir ctx sp True PNone st")
  have p1: "prefix (calls st) (calls st1)" using list_dir_calls_prefix[of st ctx sp True PNone] a by simp
  show ?thesis
  proof (cases r)
    case (Inl e)
    then show ?thesis using a p1 by (simp add: scan_both_def add_error_def)
  next
    case (Inr smap)
    obtain r2 st2 where b: "list_dir ctx tp False tid st1 = (r2, st2)"
      by (cases "list_dir ctx tp False tid st1")
    have p2: "prefix (calls st1) (calls st2)"
      using list_dir_calls_prefix[of st1 ctx tp False tid] b by simp
    have "prefix (calls st) (calls st2)" using p1 p2 by (rule prefix_order.trans)
    then show ?thesis using a b Inr by (cases r2) (simp_all add: scan_both_def add_error_def)
  qed
qed

lemma scan_both_calls_first:
  "\<exists>rest. calls (snd (scan_both ctx sp tp tid st)) =
     calls st @ CallShareList \<lparr>ls_drive_type = drive_type ctx,
                   ls_source_type = src_source_type (source_definition ctx),
                   ls_source_id = src_source_id (source_definition ctx),
                   ls_file_path = sp\<rparr> # rest"
proof -
  obtain r st1 where a: "list_dir ctx sp True PNone st = (r, st1)"
    by (cases "list_dir ctx sp True PNone st")
  have c1: "calls st1 = calls st @ [CallShareList \<lparr>ls_drive_type = drive_type ctx,
                   ls_source_type = src_source_type (source_definition ctx),
                   ls_source_id = src_source_id (source_definition ctx),
                   ls_file_path = sp\<rparr>]"
    using list_dir_src_calls[of ctx sp PNone st] a by simp
  show ?thesis
  proof (cases r)
    case (Inl e)
    then show ?thesis using a c1 by (simp add: scan_both_def add_error_def)
  next
    case (Inr smap)
    obtain r2 st2 where b: "list_dir ctx tp False tid st1 = (r2, st2)"
      by (cases "list_dir ctx tp False tid st1")
    have "prefix (calls st1) (calls st2)"
      using list_dir_calls_prefix[of st1 ctx tp False tid] b by simp
    then obtain more where "calls st2 = calls st1 @ more" by (auto simp: prefix_def)
    then show ?thesis using a b Inr c1 by (cases r2) (simp_all add: scan_both_def add_error_def)
  qed
qed

lemma create_directory_calls:
  "calls (snd (create_directory ctx td n st)) =
     calls st @ [CallMkdir \<lparr>mk_drive_type = drive_type ctx, mk_file_path = dst_file_path td,
                   mk_file_name = n, mk_parent_id = dst_file_id td, mk_return_if_exist = True\<rparr>]"
  by (auto simp: create_directory_def Let_def split: prod.splits sum.splits)

lemma create_and_scan_calls_first:
  "\<exists>rest. calls (snd (create_and_scan ctx td sp tp st)) =
     calls st @ CallMkdir \<lparr>mk_drive_type = drive_type ctx, mk_file_path = dst_file_path td,
                   mk_file_name = last_segment (rstrip_slash tp), mk_parent_id = dst_file_id td,
                   mk_return_if_exist = True\<rparr> # rest"
proof -
  let ?n = "last_segment (rstrip_slash tp)"
  obtain r st1 where c: "create_directory ctx td ?n st = (r, st1)"
    by (cases "create_directory ctx td ?n st")
  have c1: "calls st1 = calls st @ [CallMkdir \<lparr>mk_drive_type = drive_type ctx,
                   mk_file_path = dst_file_path td, mk_file_name = ?n,
                   mk_parent_id = dst_file_id td, mk_return_if_exist = True\<rparr>]"
    using create_directory_calls[of ctx td ?n st] c by simp
  show ?thesis
  proof (cases r)
    case None
    then show ?thesis using c c1 by (simp add: create_and_scan_def add_error_def)
  next
    case (Some info)
    let ?st2 = "record_task_item ctx (create_item sp tp ?n)
                       (st1\<lparr>folder_created := folder_created st1 + 1\<rparr>)"
    have c2: "calls ?st2 = calls st1" by (simp add: record_task_item_def)
    obtain r3 st3 where l: "list_dir ctx sp True PNone ?st2 = (r3, st3)"
      by (cases "list_dir ctx sp True PNone ?st2")
    have c3: "calls st3 = calls ?st2 @ [CallShareList \<lparr>ls_drive_type = drive_type ctx,
                   ls_source_type = src_source_type (source_definition ctx),
                   ls_source_id = src_source_id (source_definition ctx),
                   ls_file_path = sp\<rparr>]"
      using list_dir_src_calls[of ctx sp PNone ?st2] l by simp
    show ?thesis using c Some l c1 c2 c3
      by (cases r3) (simp_all add: create_and_scan_def Let_def add_error_def)
  qed
qed

lemma create_and_scan_calls_prefix:
  "prefix (calls st) (calls (snd (create_and_scan ctx td sp tp st)))"
  using create_and_scan_calls_first[of ctx td sp tp st] by (auto simp: prefix_def)

lemma transfer_collected_calls_prefix:
  "prefix (calls st) (calls (snd (transfer_collected ctx td files st)))"
  using transfer_collected_calls[of ctx td files st] by (auto simp: prefix_def)

lemma delete_files_calls_prefix:
  "prefix (calls st) (calls (snd (delete_files ctx td files st)))"
  using delete_files_calls[of ctx td files st] by (auto simp: prefix_def)

lemma with_have_finish_calls_prefix:
  "prefix (calls (snd acc)) (calls (with_have_finish ctx td tp smap tmap acc))"
proof -
  obtain ftt st where acc: "acc = (ftt, st)" by (cases acc)
  obtain c st1 where t: "transfer_collected ctx td ftt st = (c, st1)"
    by (cases "transfer_collected ctx td ftt st")
  have p1: "prefix (calls st) (calls st1)"
    using transfer_collected_calls_prefix[of st ctx td ftt] t by simp
  have p2: "prefix (calls st1)
      (calls (snd (delete_files ctx td (files_to_delete tp smap tmap) st1)))"
    by (rule delete_files_calls_prefix)
  show ?thesis using acc t p1 prefix_order.trans[OF p1 p2]
    by (simp add: with_have_finish_def)
qed

lemma without_have_finish_calls_prefix:
  "prefix (calls (snd acc)) (calls (without_have_finish ctx td acc))"
  using transfer_collected_calls_prefix[of "snd acc" ctx td "fst acc"]
  by (cases acc) (simp add: without_have_finish_def)

lemma sync_calls_prefix:
  shows "prefix (calls st) (calls (sync_with_have ctx td sp tp tid d st))"
    and "prefix (calls st) (calls (sync_without_have ctx td sp tp d st))"
proof -
  let ?R = "\<lambda>a b. prefix (calls a) (calls b)"
  have r: "\<And>a b c. ?R a b \<Longrightarrow> ?R b c \<Longrightarrow> ?R a c" by (rule prefix_order.trans)
  show "prefix (calls st) (calls (sync_with_have ctx td sp tp tid d st))"
    by (rule sync_rel(1)[where R = ?R, OF _ r])
      (simp_all add: scan_both_calls_prefix create_and_scan_calls_prefix with_have_file_calls
        without_have_file_calls with_have_finish_calls_prefix without_have_finish_calls_prefix)
  show "prefix (calls st) (calls (sync_without_have ctx td sp tp d st))"
    by (rule sync_rel(2)[where R = ?R, OF _ r])
      (simp_all add: scan_both_calls_prefix create_and_scan_calls_prefix with_have_file_calls
        without_have_file_calls with_have_finish_calls_prefix without_have_finish_calls_prefix)
qed

lemma with_have_loop_calls_prefix:
  "prefix (calls (snd start)) (calls (snd (with_have_loop ctx td sp tp d tmap smap start)))"
  unfolding with_have_loop_def
proof (rule fold_rel[where R = "\<lambda>a b. prefix (calls a) (calls b)"])
  fix x :: "string \<times> pydict" and acc :: "pydict list \<times> 'a sync_state"
  show "prefix (calls (snd acc)) (calls (snd ((case x of (name, file_info) \<Rightarrow> \<lambda>acc.
               if \<not> ends_with_slash name then with_have_file tmap sp tp name file_info acc
               else if \<not> dict_has tmap name
                 then (fst acc, sync_without_have ctx td (sub_path sp name) (sub_path tp name) (d + 1) (snd acc))
                 else (fst acc, sync_with_have ctx td (sub_path sp name) (sub_path tp name)
                         (sub_file_id tmap name) (d + 1) (snd acc))) acc)))"
    by (cases x) (simp add: with_have_file_calls sync_calls_prefix
        del: sync_with_have.simps sync_without_have.simps)
qed (auto intro: prefix_order.trans)

lemma without_have_loop_calls_prefix:
  "prefix (calls (snd start)) (calls (snd (without_have_loop ctx nd sp tp d smap start)))"
  unfolding without_have_loop_def
proof (rule fold_rel[where R = "\<lambda>a b. prefix (calls a) (calls b)"])
  fix x :: "string \<times> pydict" and acc :: "pydict list \<times> 'a sync_state"
  show "prefix (calls (snd acc)) (calls (snd ((case x of (name, file_info) \<Rightarrow> \<lambda>acc.
               if ends_with_slash name
                 then (fst acc, sync_without_have ctx nd (sub_path sp name) (sub_path tp name) (d + 1) (snd acc))
                 else without_have_file sp tp name file_info acc) acc)))"
    by (cases x) (simp add: without_have_file_calls sync_calls_prefix
        del: sync_with_have.simps sync_without_have.simps)
qed (auto intro: prefix_order.trans)

lemma sync_with_have_first_call:
  assumes "d < max_depth ctx"
  shows "\<exists>rest. calls (sync_with_have ctx td sp tp tid d st) =
     calls st @ CallShareList \<lparr>ls_drive_type = drive_type ctx,
                   ls_source_type = src_source_type (source_definition ctx),
                   ls_source_id = src_source_id (source_definition ctx),
                   ls_file_path = sp\<rparr> # rest"
proof -
  obtain r st1 where s: "scan_both ctx sp tp tid st = (r, st1)"
    by (cases "scan_both ctx sp tp tid st")
  obtain rest where c1: "calls st1 = calls st @ CallShareList \<lparr>ls_drive_type = drive_type ctx,
                   ls_source_type = src_source_type (source_definition ctx),
                   ls_source_id = src_source_id (source_definition ctx),
                   ls_file_path = sp\<rparr> # rest"
    using scan_both_calls_first[of ctx sp tp tid st] s by auto
  show ?thesis
  proof (cases r)
    case None
    then show ?thesis using assms s c1 by (simp add: sync_with_have_unfold del: sync_with_have.simps)
  next
    case (Some maps)
    obtain smap tmap where maps: "maps = (smap, tmap)" by (cases maps)
    let ?l = "with_have_loop ctx td sp tp d tmap smap ([], st1)"
    have "prefix (calls st1) (calls (snd ?l))"
      using with_have_loop_calls_prefix[of "([], st1)" ctx td sp tp d tmap smap] by simp
    moreover have "prefix (calls (snd ?l)) (calls (with_have_finish ctx td tp smap tmap ?l))"
      by (rule with_have_finish_calls_prefix)
    ultimately have "prefix (calls st1) (calls (with_have_finish ctx td tp smap tmap ?l))"
      by (rule prefix_order.trans)
    then obtain more where "calls (with_have_finish ctx td tp smap tmap ?l) = calls st1 @ more"
      by (auto simp: prefix_def)
    then show ?thesis using assms s Some maps c1
      by (simp add: sync_with_have_unfold del: sync_with_have.simps)
  qed
qed

lemma sync_without_have_first_call:
  assumes "d < max_depth ctx"
  shows "\<exists>rest. calls (sync_without_have ctx td sp tp d st) =
     calls st @ CallMkdir \<lparr>mk_drive_type = drive_type ctx, mk_file_path = dst_file_path td,
                   mk_file_name = last_segment (rstrip_slash tp), mk_parent_id = dst_file_id td,
                   mk_return_if_exist = True\<rparr> # rest"
proof -
  obtain r st1 where s: "create_and_scan ctx td sp tp st = (r, st1)"
    by (cases "create_and_scan ctx td sp tp st")
  obtain rest where c1: "calls st1 = calls st @ CallMkdir \<lparr>mk_drive_type = drive_type ctx,
                   mk_file_path = dst_file_path td,
                   mk_file_name = last_segment (rstrip_slash tp), mk_parent_id = dst_file_id td,
                   mk_return_if_exist = True\<rparr> # rest"
    using create_and_scan_calls_first[of ctx td sp tp st] s by auto
  show ?thesis
  proof (cases r)
    case None
    then show ?thesis using assms s c1
      by (simp add: sync_without_have_unfold del: sync_without_have.simps)
  next
    case (Some res)
    obtain nd smap where res: "res = (nd, smap)" by (cases res)
    let ?l = "without_have_loop ctx nd sp tp d smap ([], st1)"
    have "prefix (calls st1) (calls (snd ?l))"
      using without_have_loop_calls_prefix[of "([], st1)" ctx nd sp tp d smap] by simp
    moreover have "prefix (calls (snd ?l)) (calls (without_have_finish ctx nd ?l))"
      by (rule without_have_finish_calls_prefix)
    ultimately have "prefix (calls st1) (calls (without_have_finish ctx nd ?l))"
      by (rule prefix_order.trans)
    then obtain more where "calls (without_have_finish ctx nd ?l) = calls st1 @ more"
      by (auto simp: prefix_def)
    then show ?thesis using assms s Some res c1
      by (simp add: sync_without_have_unfold del: sync_without_have.simps)
  qed
qed

text \<open>The parameters of an issued transfer.\<close>

lemma collect_file_ids_all:
  "list_all (\<lambda>f. truthy (dict_get f ''file_id'' (PStr []))) files \<Longrightarrow>
   collect_file_ids files acc = Inr (acc @ map (\<lambda>f. dict_get f ''file_id'' (PStr [])) files)"
  by (induction files arbitrary: acc) (simp_all add: Let_def)

lemma dict_get_truthy_default:
  "truthy (dict_get f k (PStr [])) \<Longrightarrow> dict_get f k PNone = dict_get f k (PStr [])"
  by (auto simp: dict_get_def split: option.splits)

lemma fold_update_other:
  "k \<notin> fst ` set kvs \<Longrightarrow>
   map_of (fold (\<lambda>(k', v) acc. if P k' then AList.update k' (g v) acc else acc) kvs d) k = map_of d k"
  by (induction kvs arbitrary: d) (auto simp: update_conv')

lemma merge_first_file_other:
  "\<not> dict_has first_file k \<Longrightarrow> map_of (merge_first_file first_file ext) k = map_of ext k"
proof -
  assume "\<not> dict_has first_file k"
  then have "k \<notin> fst ` set first_file"
    by (auto simp: dict_has_def map_of_eq_None_iff)
  then show ?thesis
    unfolding merge_first_file_def
    using fold_update_other[where P = "\<lambda>k'. k' \<notin> set reserved_keys" and g = EVal] by simp
qed

lemma build_ext_params_files_ext_info:
  "\<not> dict_has (hd files) ''files_ext_info'' \<Longrightarrow>
   map_of (build_ext_params src files) ''files_ext_info''
     = Some (EFilesExt (map make_file_ext_info files))"
  by (simp add: build_ext_params_def Let_def merge_first_file_other update_conv')

lemma make_TransferParam_fields:
  "make_TransferParam ctx td first ids ext = Some p \<Longrightarrow> tp_file_ids p = ids \<and> tp_ext p = ext"
  by (auto simp: make_TransferParam_def split: prod.splits pyval.splits if_splits)

lemma transfer_files_issued:
  assumes "files \<noteq> []"
    and "collect_file_ids files [] = Inr ids"
    and "calls (snd (transfer_files ctx td files st)) = calls st @ [CallTransfer p]"
  shows "make_TransferParam ctx td (hd files) ids (build_ext_params (source_definition ctx) files)
           = Some p"
proof (cases "make_TransferParam ctx td (hd files) ids
                (build_ext_params (source_definition ctx) files)")
  case None
  then have "calls (snd (transfer_files ctx td files st)) = calls st"
    using assms(1,2)
    by (simp add: transfer_files_def transfer_exception_def record_all_eq add_error_def Let_def)
  then show ?thesis using assms(3) by simp
next
  case (Some q)
  then have "calls (snd (transfer_files ctx td files st)) = calls st @ [CallTransfer q]"
    using assms(1,2)
    by (auto simp: transfer_files_def transfer_exception_def record_all_eq add_error_def Let_def
        speed_sleep_def asyncio_sleep_def split: prod.splits sum.splits)
  then show ?thesis using assms(3) Some by simp
qed

text \<open>What the loop of \<open>sync_with_have\<close> collects.\<close>

lemma with_have_loop_fst:
  "fst (with_have_loop ctx td sp tp d tmap smap start) =
     fst start @ map (\<lambda>(n, i). make_transfer_file_info n i sp tp)
                   (filter (\<lambda>(n, i). \<not> ends_with_slash n \<and> needs_transfer tmap n i) smap)"
proof (induction smap arbitrary: start)
  case Nil
  show ?case by (simp add: with_have_loop_def)
next
  case (Cons x smap)
  obtain n i where x: "x = (n, i)" by (cases x)
  obtain ftt st where start: "start = (ftt, st)" by (cases start)
  show ?case
    using Cons.IH x start
    by (simp add: with_have_loop_def with_have_file_def Let_def
        del: sync_with_have.simps sync_without_have.simps)
qed

text \<open>The calls a level makes after its loop.\<close>

lemma collect_file_ids_Inr:
  "collect_file_ids files acc = Inr ids \<Longrightarrow> ids = acc @ file_ids_of files"
proof (induction files arbitrary: acc)
  case Nil
  then show ?case by (simp add: file_ids_of_def)
next
  case (Cons f files)
  then have "collect_file_ids files (acc @ [dict_get f ''file_id'' (PStr [])]) = Inr ids"
    by (simp add: Let_def split: if_splits)
  then have "ids = (acc @ [dict_get f ''file_id'' (PStr [])]) @ file_ids_of files"
    by (rule Cons.IH)
  then show ?case by (simp add: file_ids_of_def)
qed

lemma transfer_files_calls_ids:
  "calls (snd (transfer_files ctx td files st)) = calls st
   \<or> (\<exists>p. calls (snd (transfer_files ctx td files st)) = calls st @ [CallTransfer p]
          \<and> tp_file_ids p = file_ids_of files)"
proof (cases "files = []")
  case True
  then show ?thesis by (simp add: transfer_files_def)
next
  case False
  show ?thesis
  proof (cases "collect_file_ids files []")
    case (Inl bad)
    then show ?thesis using False
      by (simp add: transfer_files_def record_task_item_def add_error_def Let_def)
  next
    case (Inr ids)
    then have ids: "ids = file_ids_of files" using collect_file_ids_Inr[of files "[]" ids] by simp
    show ?thesis
    proof (cases "make_TransferParam ctx td (hd files) ids
                (build_ext_params (source_definition ctx) files)")
      case None
      then show ?thesis using False Inr
        by (simp add: transfer_files_def transfer_exception_def record_all_eq add_error_def Let_def)
    next
      case (Some q)
      then have "calls (snd (transfer_files ctx td files st)) = calls st @ [CallTransfer q]"
        using False Inr
        by (auto simp: transfer_files_def transfer_exception_def record_all_eq add_error_def Let_def
            speed_sleep_def asyncio_sleep_def split: prod.splits sum.splits)
      moreover have "tp_file_ids q = file_ids_of files"
        using make_TransferParam_fields[OF Some] ids by simp
      ultimately show ?thesis by blast
    qed
  qed
qed

lemma transfer_collected_tail:
  "\<exists>tail. calls (snd (transfer_collected ctx td ftt st)) = calls st @ tail
     \<and> (tail = [] \<or> (\<exists>p. tail = [CallTransfer p] \<and> tp_file_ids p = file_ids_of ftt))"
  using transfer_files_calls_ids[of ctx td ftt st]
  by (auto simp: transfer_collected_def handle_transfer_error_calls split: prod.splits)

lemma make_RemoveParam_paths:
  "files \<noteq> [] \<Longrightarrow> make_RemoveParam ctx td files = Some r \<Longrightarrow>
   rm_file_paths r = Some (map (\<lambda>f. rstrip_slash (df_target_path f) @ ''/'' @ df_file_name f) files)"
  by (auto simp: make_RemoveParam_def Let_def split: if_splits)

lemma delete_files_tail:
  "\<exists>tail. calls (snd (delete_files ctx td files st)) = calls st @ tail
     \<and> (tail = [] \<or> (\<exists>r. tail = [CallRemove r]
            \<and> rm_file_paths r
                = Some (map (\<lambda>f. rstrip_slash (df_target_path f) @ ''/'' @ df_file_name f) files)))"
proof (cases "files = []")
  case True
  then show ?thesis by (simp add: delete_files_def)
next
  case False
  show ?thesis
  proof (cases "make_RemoveParam ctx td files")
    case None
    then show ?thesis using False
      by (simp add: delete_files_def delete_exception_def record_all_eq add_error_def)
  next
    case (Some r)
    then have "calls (snd (delete_files ctx td files st)) = calls st @ [CallRemove r]"
      using False
      by (auto simp: delete_files_def delete_exception_def record_all_eq add_error_def Let_def
          speed_sleep_def asyncio_sleep_def split: prod.splits sum.splits)
    then show ?thesis using make_RemoveParam_paths[OF False Some] by simp
  qed
qed

lemma with_have_finish_tail:
  "\<exists>tail. calls (with_have_finish ctx td tp smap tmap (ftt, st)) = calls st @ tail
     \<and> level_tail (file_ids_of ftt)
          (if sync_method ctx = ''full'' then Some (delete_paths tp smap tmap) else None) tail"
proof -
  obtain c st1 where t: "transfer_collected ctx td ftt st = (c, st1)"
    by (cases "transfer_collected ctx td ftt st")
  obtain xfer where x: "calls st1 = calls st @ xfer"
    and xs: "xfer = [] \<or> (\<exists>p. xfer = [CallTransfer p] \<and> tp_file_ids p = file_ids_of ftt)"
    using transfer_collected_tail[of ctx td ftt st] t by auto
  show ?thesis
  proof (cases "c \<and> sync_method ctx = ''full''")
    case False
    then have "with_have_finish ctx td tp smap tmap (ftt, st) = st1"
      using t by (auto simp: with_have_finish_def)
    then show ?thesis using x xs by auto
  next
    case True
    let ?d = "delete_files ctx td (files_to_delete tp smap tmap) st1"
    obtain del where d: "calls (snd ?d) = calls st1 @ del"
      and ds: "del = [] \<or> (\<exists>r. del = [CallRemove r]
                  \<and> rm_file_paths r = Some (delete_paths tp smap tmap))"
      using delete_files_tail[of ctx td "files_to_delete tp smap tmap" st1]
      by (auto simp: delete_paths_def)
    have "with_have_finish ctx td tp smap tmap (ftt, st) = snd ?d"
      using t True by (simp add: with_have_finish_def)
    then have "calls (with_have_finish ctx td tp smap tmap (ftt, st)) = calls st @ (xfer @ del)"
      using x d by simp
    moreover have "level_tail (file_ids_of ftt) (Some (delete_paths tp smap tmap)) (xfer @ del)"
      using xs ds by auto
    ultimately show ?thesis using True by auto
  qed
qed

lemma without_have_finish_tail:
  "\<exists>tail. calls (without_have_finish ctx td (ftt, st)) = calls st @ tail
     \<and> level_tail (file_ids_of ftt) None tail"
  using transfer_collected_tail[of ctx td ftt st]
  by (auto simp: without_have_finish_def)

lemma create_and_scan_Some_calls:
  assumes "create_and_scan ctx td sp tp st = (Some res, st1)"
  shows "calls st1 = calls st @
           [CallMkdir \<lparr>mk_drive_type = drive_type ctx, mk_file_path = dst_file_path td,
                        mk_file_name = last_segment (rstrip_slash tp),
                        mk_parent_id = dst_file_id td, mk_return_if_exist = True\<rparr>,
            CallShareList \<lparr>ls_drive_type = drive_type ctx,
                            ls_source_type = src_source_type (source_definition ctx),
                            ls_source_id = src_source_id (source_definition ctx),
                            ls_file_path = sp\<rparr>]"
proof -
  let ?n = "last_segment (rstrip_slash tp)"
  obtain r s1 where c: "create_directory ctx td ?n st = (r, s1)"
    by (cases "create_directory ctx td ?n st")
  have c1: "calls s1 = calls st @ [CallMkdir \<lparr>mk_drive_type = drive_type ctx,
                   mk_file_path = dst_file_path td, mk_file_name = ?n,
                   mk_parent_id = dst_file_id td, mk_return_if_exist = True\<rparr>]"
    using create_directory_calls[of ctx td ?n st] c by simp
  show ?thesis
  proof (cases r)
    case None
    then show ?thesis using c assms by (simp add: create_and_scan_def)
  next
    case (Some info)
    let ?st2 = "record_task_item ctx (create_item sp tp ?n)
                       (s1\<lparr>folder_created := folder_created s1 + 1\<rparr>)"
    have c2: "calls ?st2 = calls s1" by (simp add: record_task_item_def)
    obtain r3 st3 where l: "list_dir ctx sp True PNone ?st2 = (r3, st3)"
      by (cases "list_dir ctx sp True PNone ?st2")
    have c3: "calls st3 = calls ?st2 @ [CallShareList \<lparr>ls_drive_type = drive_type ctx,
                   ls_source_type = src_source_type (source_definition ctx),
                   ls_source_id = src_source_id (source_definition ctx),
                   ls_file_path = sp\<rparr>]"
      using list_dir_src_calls[of ctx sp PNone ?st2] l by simp
    show ?thesis using c Some l c1 c2 c3 assms
      by (cases r3) (auto simp: create_and_scan_def Let_def add_error_def)
  qed
qed

text \<open>A run over a mirrored target leaves the drive alone.\<close>

lemma quiet_refl: "quiet a a"
  by (simp add: quiet_def)

lemma quiet_trans: "quiet a b \<Longrightarrow> quiet b c \<Longrightarrow> quiet a c"
  by (auto simp: quiet_def)

lemma list_dir_fst_world:
  "fst (list_dir ctx p s t st) = fst (list_dir ctx p s t (init_state (world st)))"
  by (auto simp: list_dir_def init_state_def Let_def split: prod.splits sum.splits pyval.splits)

lemma list_dir_quiet:
  assumes "\<forall>p w. snd (dm_get_share_list (drive_manager ctx) p w) = w"
    and "\<forall>p w. snd (dm_get_disk_list (drive_manager ctx) p w) = w"
  shows "quiet st (snd (list_dir ctx p s t st))"
proof (cases s)
  case True
  let ?p = "\<lparr>ls_drive_type = drive_type ctx,
                        ls_source_type = src_source_type (source_definition ctx),
                        ls_source_id = src_source_id (source_definition ctx),
                        ls_file_path = p\<rparr>"
  obtain res w where r: "dm_get_share_list (drive_manager ctx) ?p (world st) = (res, w)"
    by (cases "dm_get_share_list (drive_manager ctx) ?p (world st)")
  then have "w = world st" using assms(1) by (metis snd_conv)
  then show ?thesis using True r
    by (cases res) (simp_all add: list_dir_def Let_def quiet_def)
next
  case False
  show ?thesis
  proof (cases "if truthy t then t else PStr []")
    case (PStr i)
    let ?p = "\<lparr>lf_drive_type = drive_type ctx, lf_file_path = p, lf_file_id = i\<rparr>"
    obtain res w where r: "dm_get_disk_list (drive_manager ctx) ?p (world st) = (res, w)"
      by (cases "dm_get_disk_list (drive_manager ctx) ?p (world st)")
    then have "w = world st" using assms(2) by (metis snd_conv)
    then show ?thesis using False PStr r
      by (cases res) (simp_all add: list_dir_def Let_def quiet_def)
  next
    case PNone
    then show ?thesis using False by (simp add: list_dir_def quiet_def)
  next
    case (PInt x)
    then show ?thesis using False by (simp add: list_dir_def quiet_def)
  qed
qed

lemma scan_both_mirrored:
  assumes ro1: "\<forall>p w. snd (dm_get_share_list (drive_manager ctx) p w) = w"
    and ro2: "\<forall>p w. snd (dm_get_disk_list (drive_manager ctx) p w) = w"
    and s: "fst (list_dir ctx sp True PNone (init_state (world st))) = Inr smap"
    and t: "fst (list_dir ctx tp False tid (init_state (world st))) = Inr tmap"
  shows "\<exists>st1. scan_both ctx sp tp tid st = (Some (smap, tmap), st1) \<and> quiet st st1"
proof -
  obtain r1 st1 where a: "list_dir ctx sp True PNone st = (r1, st1)"
    by (cases "list_dir ctx sp True PNone st")
  have r1: "r1 = Inr smap" using list_dir_fst_world[of ctx sp True PNone st] a s by simp
  have q1: "quiet st st1" using list_dir_quiet[OF ro1 ro2, of st sp True PNone] a by simp
  then have w1: "world st1 = world st" by (simp add: quiet_def)
  obtain r2 st2 where b: "list_dir ctx tp False tid st1 = (r2, st2)"
    by (cases "list_dir ctx tp False tid st1")
  have r2: "r2 = Inr tmap" using list_dir_fst_world[of ctx tp False tid st1] b t w1 by simp
  have q2: "quiet st1 st2" using list_dir_quiet[OF ro1 ro2, of st1 tp False tid] b by simp
  show ?thesis using a b r1 r2 quiet_trans[OF q1 q2] by (simp add: scan_both_def)
qed

lemma with_have_finish_nothing:
  "sync_method ctx \<noteq> ''full'' \<Longrightarrow> with_have_finish ctx td tp smap tmap ([], st) = st"
  by (simp add: with_have_finish_def transfer_collected_def)

lemma sync_with_have_mirrored:
  assumes ro1: "\<forall>p w. snd (dm_get_share_list (drive_manager ctx) p w) = w"
    and ro2: "\<forall>p w. snd (dm_get_disk_list (drive_manager ctx) p w) = w"
    and nf: "sync_method ctx \<noteq> ''full''"
  shows "max_depth ctx - d = n \<Longrightarrow> mirrored ctx sp tp tid d (world st) \<Longrightarrow>
         quiet st (sync_with_have ctx td sp tp tid d st)"
proof (induction n arbitrary: d td sp tp tid st)
  case 0
  then have "max_depth ctx \<le> d" by simp
  then show ?case by (simp add: quiet_refl)
next
  case (Suc n)
  then have lt: "\<not> max_depth ctx \<le> d" and m: "max_depth ctx - Suc d = n" by auto
  let ?w = "world st"
  have mir: "(case (fst (list_dir ctx sp True PNone (init_state ?w)),
               fst (list_dir ctx tp False tid (init_state ?w))) of
           (Inr smap, Inr tmap) \<Rightarrow>
             list_all (\<lambda>(name, file_info).
                         if \<not> ends_with_slash name
                         then \<not> needs_transfer tmap name file_info
                         else dict_has tmap name
                              \<and> mirrored ctx (sub_path sp name) (sub_path tp name)
                                   (sub_file_id tmap name) (d + 1) ?w)
                      smap
         | _ \<Rightarrow> False)"
    using Suc.prems(2) lt by (subst (asm) mirrored.simps) simp
  obtain smap where s: "fst (list_dir ctx sp True PNone (init_state ?w)) = Inr smap"
    using mir by (cases "fst (list_dir ctx sp True PNone (init_state ?w))") auto
  obtain tmap where t: "fst (list_dir ctx tp False tid (init_state ?w)) = Inr tmap"
    using mir s by (cases "fst (list_dir ctx tp False tid (init_state ?w))") auto
  have all: "list_all (\<lambda>(name, file_info).
                         if \<not> ends_with_slash name
                         then \<not> needs_transfer tmap name file_info
                         else dict_has tmap name
                              \<and> mirrored ctx (sub_path sp name) (sub_path tp name)
                                   (sub_file_id tmap name) (d + 1) ?w)
                      smap"
    using mir by (simp only: s t sum.case prod.case)
  obtain st1 where sc: "scan_both ctx sp tp tid st = (Some (smap, tmap), st1)"
    and q1: "quiet st st1"
    using scan_both_mirrored[OF ro1 ro2 s t] by blast
  have w1: "world st1 = ?w" using q1 by (simp add: quiet_def)
  have loop: "\<And>s0. world s0 = ?w \<Longrightarrow>
      list_all (\<lambda>(name, file_info).
                         if \<not> ends_with_slash name
                         then \<not> needs_transfer tmap name file_info
                         else dict_has tmap name
                              \<and> mirrored ctx (sub_path sp name) (sub_path tp name)
                                   (sub_file_id tmap name) (d + 1) ?w) xs \<Longrightarrow>
      fst (with_have_loop ctx td sp tp d tmap xs ([], s0)) = []
      \<and> quiet s0 (snd (with_have_loop ctx td sp tp d tmap xs ([], s0)))" for xs
  proof (induction xs)
    case Nil
    show ?case by (simp add: with_have_loop_def quiet_refl)
  next
    case (Cons x xs)
    obtain name info where x: "x = (name, info)" by (cases x)
    let ?step = "if \<not> ends_with_slash name
                 then with_have_file tmap sp tp name info ([], s0)
                 else if \<not> dict_has tmap name
                   then ([], sync_without_have ctx td (sub_path sp name) (sub_path tp name) (Suc d) s0)
                   else ([], sync_with_have ctx td (sub_path sp name) (sub_path tp name)
                               (sub_file_id tmap name) (Suc d) s0)"
    have unfold: "with_have_loop ctx td sp tp d tmap (x # xs) ([], s0)
                    = with_have_loop ctx td sp tp d tmap xs ?step"
      using x by (simp add: with_have_loop_def del: sync_with_have.simps sync_without_have.simps)
    have st: "fst ?step = [] \<and> quiet s0 (snd ?step)"
    proof (cases "ends_with_slash name")
      case False
      then have "\<not> needs_transfer tmap name info" using Cons.prems(2) x by simp
      then show ?thesis using False by (simp add: with_have_file_def Let_def quiet_def)
    next
      case True
      then have h: "dict_has tmap name"
        and mm: "mirrored ctx (sub_path sp name) (sub_path tp name) (sub_file_id tmap name)
                   (Suc d) (world s0)"
        using Cons.prems x by simp_all
      have "quiet s0 (sync_with_have ctx td (sub_path sp name) (sub_path tp name)
                               (sub_file_id tmap name) (Suc d) s0)"
        by (rule Suc.IH[OF m mm])
      then show ?thesis using True h by (simp del: sync_with_have.simps)
    qed
    then have ws: "world (snd ?step) = ?w" using Cons.prems(1) by (simp add: quiet_def)
    have rest: "list_all (\<lambda>(name, file_info).
                         if \<not> ends_with_slash name
                         then \<not> needs_transfer tmap name file_info
                         else dict_has tmap name
                              \<and> mirrored ctx (sub_path sp name) (sub_path tp name)
                                   (sub_file_id tmap name) (d + 1) ?w) xs"
      using Cons.prems(2) by simp
    obtain s1 where step_eq: "?step = ([], s1)" using st by (cases ?step) simp
    have q0: "quiet s0 s1" using st step_eq by simp
    have ws1: "world s1 = ?w" using ws step_eq by simp
    have ih: "fst (with_have_loop ctx td sp tp d tmap xs ([], s1)) = []
      \<and> quiet s1 (snd (with_have_loop ctx td sp tp d tmap xs ([], s1)))"
      by (rule Cons.IH[OF ws1 rest])
    have u2: "with_have_loop ctx td sp tp d tmap (x # xs) ([], s0)
                    = with_have_loop ctx td sp tp d tmap xs ([], s1)"
      using unfold step_eq by (simp only:)
    show ?case
      unfolding u2 using ih quiet_trans[OF q0] by blast
  qed
  have l: "fst (with_have_loop ctx td sp tp d tmap smap ([], st1)) = []"
    and ql: "quiet st1 (snd (with_have_loop ctx td sp tp d tmap smap ([], st1)))"
    using loop[OF w1 all] by simp_all
  have "sync_with_have ctx td sp tp tid d st
          = with_have_finish ctx td tp smap tmap (with_have_loop ctx td sp tp d tmap smap ([], st1))"
    using lt sc by (simp add: sync_with_have_unfold del: sync_with_have.simps)
  also have "\<dots> = snd (with_have_loop ctx td sp tp d tmap smap ([], st1))"
  proof -
    obtain s2 where e: "with_have_loop ctx td sp tp d tmap smap ([], st1) = ([], s2)"
      using l by (cases "with_have_loop ctx td sp tp d tmap smap ([], st1)") simp
    show ?thesis unfolding e using with_have_finish_nothing[OF nf] by simp
  qed
  finally show ?case using quiet_trans[OF q1 ql] by simp
qed


subsection \<open>The branches of the error policy\<close>

lemma handle_transfer_error_no_errors:
  "errors st = [] \<Longrightarrow> handle_transfer_error st = (True, st)"
  by (simp add: handle_transfer_error_def)

lemma handle_transfer_error_cap:
  "5 \<le> length (errors st) \<Longrightarrow>
   handle_transfer_error st = (False, add_error (msg_abort_total (length (errors st))) st)"
  by (auto simp: handle_transfer_error_def)

lemma handle_transfer_error_conflict:
  assumes "errors st \<noteq> []" and "length (errors st) < 5"
    and "is_conflict_error (last (errors st))"
  shows "handle_transfer_error st =
           (if 3 \<le> length (filter is_conflict_error (errors st))
            then (False, add_error (msg_abort_conflict (length (filter is_conflict_error (errors st))))
                           (asyncio_sleep 30 st))
            else (True, asyncio_sleep 30 st))"
  using assms
  by (auto simp: handle_transfer_error_def is_conflict_error_def asyncio_sleep_def Let_def)

lemma handle_transfer_error_delete:
  assumes "errors st \<noteq> []" and "length (errors st) < 5"
    and "\<not> is_conflict_error (last (errors st))"
    and "\<not> str_contains (zh_transfer @ zh_failed) (last (errors st))"
    and "\<not> str_contains (zh_batch @ zh_transfer @ zh_failed @ zh_colon @ ''API'' @
                               zh_returned @ ''False'') (last (errors st))"
    and "is_delete_failure (last (errors st))"
  shows "handle_transfer_error st = (True, st)"
  using assms
  by (auto simp: handle_transfer_error_def is_conflict_error_def Let_def)

lemma handle_transfer_error_network:
  assumes "errors st \<noteq> []" and "length (errors st) < 5"
    and "\<not> is_conflict_error (last (errors st))"
    and "\<not> str_contains (zh_transfer @ zh_failed) (last (errors st))"
    and "\<not> str_contains (zh_batch @ zh_transfer @ zh_failed @ zh_colon @ ''API'' @
                               zh_returned @ ''False'') (last (errors st))"
    and "\<not> is_delete_failure (last (errors st))"
    and "is_network_error (last (errors st))"
  shows "handle_transfer_error st =
           (if 2 \<le> length (filter is_network_error (errors st))
            then (False, add_error (msg_abort_network (length (filter is_network_error (errors st))))
                           (asyncio_sleep 10 st))
            else (True, asyncio_sleep 10 st))"
  using assms
  by (auto simp: handle_transfer_error_def is_conflict_error_def asyncio_sleep_def Let_def)

lemma handle_transfer_error_other:
  assumes "errors st \<noteq> []" and "length (errors st) < 5"
    and "\<not> is_conflict_error (last (errors st))"
    and "\<not> str_contains (zh_transfer @ zh_failed) (last (errors st))"
    and "\<not> str_contains (zh_batch @ zh_transfer @ zh_failed @ zh_colon @ ''API'' @
                               zh_returned @ ''False'') (last (errors st))"
    and "\<not> is_delete_failure (last (errors st))"
    and "\<not> is_network_error (last (errors st))"
  shows "handle_transfer_error st = (True, st)"
  using assms
  by (auto simp: handle_transfer_error_def is_conflict_error_def Let_def)


subsection \<open>The previous firing\<close>

lemma latest_fire_upto_Some:
  "latest_fire_upto fires n = Some s \<longleftrightarrow> s \<le> n \<and> fires s \<and> (\<forall>q. q \<le> n \<and> fires q \<longrightarrow> q \<le> s)"
proof (induction n)
  case 0
  show ?case by auto
next
  case (Suc n)
  show ?case
  proof (cases "fires (Suc n)")
    case True
    then show ?thesis by auto
  next
    case False
    have "\<And>q. q \<le> Suc n \<and> fires q \<longleftrightarrow> q \<le> n \<and> fires q"
      using False by (metis le_Suc_eq)
    then show ?thesis using False Suc.IH
      by (metis latest_fire_upto.simps(2))
  qed
qed

lemma latest_fire_upto_None:
  "latest_fire_upto fires n = None \<longleftrightarrow> (\<forall>q. q \<le> n \<longrightarrow> \<not> fires q)"
  by (induction n) (auto simp: le_Suc_eq)

lemma fire_instant_before:
  assumes "0 < now"
  shows "fire_instant fires t \<and> t < now
         \<longleftrightarrow> (\<exists>s. t = int s * 1000000 \<and> fires s \<and> s \<le> nat ((now - 1) div 1000000))"
proof
  assume a: "fire_instant fires t \<and> t < now"
  then have t0: "0 \<le> t" and tm: "t mod 1000000 = 0" and f: "fires (nat (t div 1000000))"
    by (simp_all add: fire_instant_def)
  have e: "t = int (nat (t div 1000000)) * 1000000" using t0 tm by auto
  have "t \<le> now - 1" using a by simp
  then have "t div 1000000 \<le> (now - 1) div 1000000" by (rule zdiv_mono1) simp
  then have "nat (t div 1000000) \<le> nat ((now - 1) div 1000000)" by simp
  then show "\<exists>s. t = int s * 1000000 \<and> fires s \<and> s \<le> nat ((now - 1) div 1000000)"
    using e f by blast
next
  assume "\<exists>s. t = int s * 1000000 \<and> fires s \<and> s \<le> nat ((now - 1) div 1000000)"
  then obtain s where t: "t = int s * 1000000" and f: "fires s"
    and le: "s \<le> nat ((now - 1) div 1000000)" by blast
  have "int s \<le> (now - 1) div 1000000" using le assms by simp
  then have "int s * 1000000 \<le> ((now - 1) div 1000000) * 1000000" by simp
  also have "\<dots> \<le> now - 1"
    using pos_mod_sign[of 1000000 "now - 1"] div_mult_mod_eq[of "now - 1" 1000000] by linarith
  finally have "t < now" using t by simp
  moreover have "fire_instant fires t" using t f by (simp add: fire_instant_def)
  ultimately show "fire_instant fires t \<and> t < now" by simp
qed

lemma croniter_get_prev_Some:
  "croniter_get_prev schedule cron_expr now = Some p
   \<longleftrightarrow> fire_instant (schedule cron_expr) p \<and> p < now
       \<and> (\<forall>t. fire_instant (schedule cron_expr) t \<and> t < now \<longrightarrow> t \<le> p)"
proof (cases "now \<le> 0")
  case True
  then show ?thesis by (auto simp: croniter_get_prev_def fire_instant_def)
next
  case False
  then have pos: "0 < now" by simp
  let ?n = "nat ((now - 1) div 1000000)"
  let ?f = "schedule cron_expr"
  show ?thesis
  proof
    assume "croniter_get_prev schedule cron_expr now = Some p"
    then obtain s where s: "latest_fire_upto ?f ?n = Some s" and p: "p = int s * 1000000"
      using False by (auto simp: croniter_get_prev_def)
    have sp: "s \<le> ?n" "?f s" and mx: "\<And>q. q \<le> ?n \<Longrightarrow> ?f q \<Longrightarrow> q \<le> s"
      using s by (simp_all add: latest_fire_upto_Some)
    have a: "fire_instant ?f p \<and> p < now"
      using fire_instant_before[OF pos, of ?f p] sp p by blast
    have "\<And>t. fire_instant ?f t \<and> t < now \<Longrightarrow> t \<le> p"
    proof -
      fix t assume "fire_instant ?f t \<and> t < now"
      then obtain q where "t = int q * 1000000" "?f q" "q \<le> ?n"
        using fire_instant_before[OF pos, of ?f t] by blast
      then show "t \<le> p" using mx[of q] p by simp
    qed
    then show "fire_instant ?f p \<and> p < now \<and> (\<forall>t. fire_instant ?f t \<and> t < now \<longrightarrow> t \<le> p)"
      using a by blast
  next
    assume r: "fire_instant ?f p \<and> p < now \<and> (\<forall>t. fire_instant ?f t \<and> t < now \<longrightarrow> t \<le> p)"
    then obtain s where p: "p = int s * 1000000" and fs: "?f s" and le: "s \<le> ?n"
      using fire_instant_before[OF pos, of ?f p] by blast
    have "\<And>q. q \<le> ?n \<and> ?f q \<Longrightarrow> q \<le> s"
    proof -
      fix q assume q: "q \<le> ?n \<and> ?f q"
      then have "fire_instant ?f (int q * 1000000) \<and> int q * 1000000 < now"
        using fire_instant_before[OF pos, of ?f "int q * 1000000"] by blast
      then have "int q * 1000000 \<le> p" using r by blast
      then show "q \<le> s" using p by simp
    qed
    then have "latest_fire_upto ?f ?n = Some s"
      using fs le latest_fire_upto_Some[of ?f ?n s] by blast
    then show "croniter_get_prev schedule cron_expr now = Some p"
      using False p by (simp add: croniter_get_prev_def)
  qed
qed


subsection \<open>The per-file extension list of a transfer\<close>

text \<open>
  For a non-empty file list whose entries all carry a non-empty \<open>file_id\<close> and whose
  first entry has no extension key named \<open>files_ext_info\<close>, every transfer issued by
  \<open>transfer_files\<close> carries the file ids in the order of the list, and under
  \<open>files_ext_info\<close> one entry per file id, in the same order, with that file's id and
  that file's own extension keys.
\<close>

lemma transfer_files_token_correspondence:
  assumes "files \<noteq> []"
    and "list_all (\<lambda>f. truthy (dict_get f ''file_id'' (PStr []))) files"
    and "\<not> dict_has (hd files) ''files_ext_info''"
    and "calls (snd (transfer_files ctx target_definition files st)) = calls st @ [CallTransfer p]"
  shows "tp_file_ids p = map (\<lambda>f. dict_get f ''file_id'' (PStr [])) files
       \<and> (\<exists>files_ext_info.
             map_of (tp_ext p) ''files_ext_info'' = Some (EFilesExt files_ext_info)
           \<and> length (tp_file_ids p) = length files_ext_info
           \<and> (\<forall>i < length files_ext_info. fei_file_id (files_ext_info ! i) = tp_file_ids p ! i)
           \<and> map fei_file_ext files_ext_info = map ext_of_file files)"
proof -
  let ?ids = "map (\<lambda>f. dict_get f ''file_id'' (PStr [])) files"
  have c: "collect_file_ids files [] = Inr ?ids"
    using collect_file_ids_all[OF assms(2), of "[]"] by simp
  have m: "make_TransferParam ctx target_definition (hd files) ?ids
             (build_ext_params (source_definition ctx) files) = Some p"
    by (rule transfer_files_issued[OF assms(1) c assms(4)])
  have ids: "tp_file_ids p = ?ids"
    and ext: "tp_ext p = build_ext_params (source_definition ctx) files"
    using make_TransferParam_fields[OF m] by simp_all
  have fe: "map_of (tp_ext p) ''files_ext_info'' = Some (EFilesExt (map make_file_ext_info files))"
    using ext build_ext_params_files_ext_info[OF assms(3)] by simp
  have nth: "\<forall>i < length (map make_file_ext_info files).
               fei_file_id (map make_file_ext_info files ! i) = tp_file_ids p ! i"
  proof (intro allI impI)
    fix i assume i: "i < length (map make_file_ext_info files)"
    then have "files ! i \<in> set files" by simp
    then have "truthy (dict_get (files ! i) ''file_id'' (PStr []))"
      using assms(2) by (simp add: list_all_iff)
    then show "fei_file_id (map make_file_ext_info files ! i) = tp_file_ids p ! i"
      using i ids by (simp add: make_file_ext_info_def dict_get_truthy_default)
  qed
  have exts: "map fei_file_ext (map make_file_ext_info files) = map ext_of_file files"
    by (simp add: make_file_ext_info_def)
  show ?thesis using ids fe nth exts by (intro conjI exI[of _ "map make_file_ext_info files"]) simp_all
qed

lemma transfer_files_token_correspondence_two_files:
  "two_files \<noteq> []
   \<and> list_all (\<lambda>f. truthy (dict_get f ''file_id'' (PStr []))) two_files
   \<and> \<not> dict_has (hd two_files) ''files_ext_info''
   \<and> calls (snd (transfer_files (config_ctx ref_drive (ref_config None) None 1) ref_target
                  two_files (init_state world_fresh)))
       = calls (init_state world_fresh) @ [CallTransfer two_files_transfer]
   \<and> tp_file_ids two_files_transfer = map (\<lambda>f. dict_get f ''file_id'' (PStr [])) two_files
   \<and> (\<exists>files_ext_info.
         map_of (tp_ext two_files_transfer) ''files_ext_info'' = Some (EFilesExt files_ext_info)
       \<and> length (tp_file_ids two_files_transfer) = length files_ext_info
       \<and> map fei_file_ext files_ext_info = map ext_of_file two_files)"
proof -
  have a: "two_files \<noteq> []" by code_simp
  have b: "list_all (\<lambda>f. truthy (dict_get f ''file_id'' (PStr []))) two_files" by code_simp
  have c: "\<not> dict_has (hd two_files) ''files_ext_info''" by code_simp
  have d: "calls (snd (transfer_files (config_ctx ref_drive (ref_config None) None 1) ref_target
                  two_files (init_state world_fresh)))
       = calls (init_state world_fresh) @ [CallTransfer two_files_transfer]" by code_simp
  show ?thesis
    using a b c d transfer_files_token_correspondence[OF a b c d] by blast
qed


subsection \<open>Listings, file maps and the counters of a level\<close>

lemma build_file_map_entry:
  "map_of (build_file_map ctx b files fm) name = Some info \<Longrightarrow>
   map_of fm name = Some info
   \<or> (\<exists>f \<in> set files. \<not> excluded ctx f \<and> file_key f = name \<and> info = make_file_info b f)"
proof (induction files arbitrary: fm)
  case Nil
  then show ?case by simp
next
  case (Cons f files)
  show ?case
  proof (cases "excluded ctx f")
    case True
    then show ?thesis using Cons.IH[of fm] Cons.prems by auto
  next
    case False
    then have "map_of (AList.update (file_key f) (make_file_info b f) fm) name = Some info
      \<or> (\<exists>g \<in> set files. \<not> excluded ctx g \<and> file_key g = name \<and> info = make_file_info b g)"
      using Cons.IH[of "AList.update (file_key f) (make_file_info b f) fm"] Cons.prems by simp
    then show ?thesis using False
      by (auto simp: update_conv' split: if_splits)
  qed
qed

lemma fold_update_all_other:
  "k \<notin> fst ` set kvs \<Longrightarrow>
   map_of (fold (\<lambda>(k', v) acc. AList.update k' v acc) kvs d) k = map_of d k"
  by (induction kvs arbitrary: d) (auto simp: update_conv')

lemma make_file_info_size_target:
  "dict_get (make_file_info False f) ''file_size'' dflt = listed_size f"
  by (simp add: make_file_info_def dict_get_def listed_size_def Let_def)

lemma make_file_info_size_source:
  assumes "\<not> dict_has (file_ext f) ''file_size''"
  shows "dict_get (make_file_info True f) ''file_size'' dflt = listed_size f"
proof -
  have "''file_size'' \<notin> fst ` set (file_ext f)"
    using assms by (auto simp: dict_has_def map_of_eq_None_iff)
  then show ?thesis
    by (simp add: make_file_info_def dict_get_def listed_size_def Let_def dict_update_all_def
        fold_update_all_other)
qed

lemma fold_skip_key:
  "k \<in> S \<Longrightarrow>
   map_of (fold (\<lambda>(k', v) acc. if k' \<notin> S then AList.update k' v acc else acc) kvs d) k
     = map_of d k"
  by (induction kvs arbitrary: d) (auto simp: update_conv')

lemma make_transfer_file_info_file_id:
  "dict_get (make_transfer_file_info n i sp tp) ''file_id'' (PStr []) = dict_get i ''file_id'' (PStr [])"
  unfolding make_transfer_file_info_def dict_get_def
  by (subst fold_skip_key) simp_all

lemma list_dir_counts:
  "files_skipped (snd (list_dir ctx p s t st)) = files_skipped st
   \<and> files_processed (snd (list_dir ctx p s t st)) = files_processed st"
  by (auto simp: list_dir_def Let_def split: prod.splits sum.splits pyval.splits if_splits)

lemma scan_both_counts:
  "files_skipped (snd (scan_both ctx sp tp tid st)) = files_skipped st
   \<and> files_processed (snd (scan_both ctx sp tp tid st)) = files_processed st"
proof -
  obtain r st1 where a: "list_dir ctx sp True PNone st = (r, st1)"
    by (cases "list_dir ctx sp True PNone st")
  have a1: "files_skipped st1 = files_skipped st \<and> files_processed st1 = files_processed st"
    using list_dir_counts[of ctx sp True PNone st] a by simp
  obtain r2 st2 where b: "list_dir ctx tp False tid st1 = (r2, st2)"
    by (cases "list_dir ctx tp False tid st1")
  have b1: "files_skipped st2 = files_skipped st1 \<and> files_processed st2 = files_processed st1"
    using list_dir_counts[of ctx tp False tid st1] b by simp
  show ?thesis using a a1 b b1
    by (cases r; cases r2) (simp_all add: scan_both_def add_error_def)
qed

lemma create_directory_counts:
  "files_skipped (snd (create_directory ctx td n st)) = files_skipped st
   \<and> files_processed (snd (create_directory ctx td n st)) = files_processed st"
  by (auto simp: create_directory_def Let_def split: prod.splits sum.splits)

lemma create_and_scan_counts:
  "files_skipped (snd (create_and_scan ctx td sp tp st)) = files_skipped st
   \<and> files_processed (snd (create_and_scan ctx td sp tp st)) = files_processed st"
proof -
  obtain r st1 where c: "create_directory ctx td (last_segment (rstrip_slash tp)) st = (r, st1)"
    by (cases "create_directory ctx td (last_segment (rstrip_slash tp)) st")
  have c1: "files_skipped st1 = files_skipped st \<and> files_processed st1 = files_processed st"
    using create_directory_counts[of ctx td "last_segment (rstrip_slash tp)" st] c by simp
  show ?thesis
  proof (cases r)
    case None
    then show ?thesis using c c1 by (simp add: create_and_scan_def add_error_def)
  next
    case (Some info)
    let ?st2 = "record_task_item ctx (create_item sp tp (last_segment (rstrip_slash tp)))
                       (st1\<lparr>folder_created := folder_created st1 + 1\<rparr>)"
    have c2: "files_skipped ?st2 = files_skipped st1 \<and> files_processed ?st2 = files_processed st1"
      by (simp add: record_task_item_def)
    obtain r3 st3 where l: "list_dir ctx sp True PNone ?st2 = (r3, st3)"
      by (cases "list_dir ctx sp True PNone ?st2")
    have c3: "files_skipped st3 = files_skipped ?st2 \<and> files_processed st3 = files_processed ?st2"
      using list_dir_counts[of ctx sp True PNone ?st2] l by simp
    show ?thesis using c Some l c1 c2 c3
      by (cases r3) (simp_all add: create_and_scan_def Let_def add_error_def)
  qed
qed

lemma transfer_files_counts:
  "files_skipped (snd (transfer_files ctx td files st)) = files_skipped st
   \<and> files_processed (snd (transfer_files ctx td files st)) = files_processed st"
  by (auto simp: transfer_files_def transfer_exception_def record_all_eq record_task_item_def
      add_error_def speed_sleep_def asyncio_sleep_def Let_def
      split: prod.splits sum.splits option.splits if_splits)

lemma delete_files_counts:
  "files_skipped (snd (delete_files ctx td files st)) = files_skipped st
   \<and> files_processed (snd (delete_files ctx td files st)) = files_processed st"
  by (auto simp: delete_files_def delete_exception_def record_all_eq record_task_item_def
      add_error_def speed_sleep_def asyncio_sleep_def Let_def
      split: prod.splits sum.splits option.splits if_splits)

lemma handle_transfer_error_counts:
  "files_skipped (snd (handle_transfer_error st)) = files_skipped st
   \<and> files_processed (snd (handle_transfer_error st)) = files_processed st"
  by (auto simp: handle_transfer_error_def Let_def add_error_def asyncio_sleep_def)

lemma transfer_collected_counts:
  "files_skipped (snd (transfer_collected ctx td files st)) = files_skipped st
   \<and> files_processed (snd (transfer_collected ctx td files st)) = files_processed st"
  using transfer_files_counts[of ctx td files st]
  by (auto simp: transfer_collected_def handle_transfer_error_counts split: prod.splits)

lemma with_have_finish_counts:
  "files_skipped (with_have_finish ctx td tp smap tmap acc) = files_skipped (snd acc)
   \<and> files_processed (with_have_finish ctx td tp smap tmap acc) = files_processed (snd acc)"
proof -
  obtain ftt st where acc: "acc = (ftt, st)" by (cases acc)
  obtain c st1 where t: "transfer_collected ctx td ftt st = (c, st1)"
    by (cases "transfer_collected ctx td ftt st")
  have t1: "files_skipped st1 = files_skipped st \<and> files_processed st1 = files_processed st"
    using transfer_collected_counts[of ctx td ftt st] t by simp
  show ?thesis
    using acc t t1 delete_files_counts[of ctx td "files_to_delete tp smap tmap" st1]
    by (simp add: with_have_finish_def)
qed

lemma without_have_finish_counts:
  "files_skipped (without_have_finish ctx td acc) = files_skipped (snd acc)
   \<and> files_processed (without_have_finish ctx td acc) = files_processed (snd acc)"
  using transfer_collected_counts[of ctx td "fst acc" "snd acc"]
  by (cases acc) (simp add: without_have_finish_def)

lemma with_have_file_counts:
  "files_skipped (snd (with_have_file tmap sp tp n i acc))
     = files_skipped (snd acc) + (if needs_transfer tmap n i then 0 else 1)
   \<and> files_processed (snd (with_have_file tmap sp tp n i acc)) = files_processed (snd acc) + 1"
  by (cases acc) (simp add: with_have_file_def Let_def)

lemma without_have_file_counts:
  "files_skipped (snd (without_have_file sp tp n i acc)) = files_skipped (snd acc)
   \<and> files_processed (snd (without_have_file sp tp n i acc)) = files_processed (snd acc) + 1"
  by (cases acc) (simp add: without_have_file_def)

lemma sync_counts_grow:
  shows "files_skipped st \<le> files_skipped (sync_with_have ctx td sp tp tid d st)
         \<and> files_processed st \<le> files_processed (sync_with_have ctx td sp tp tid d st)"
    and "files_skipped st \<le> files_skipped (sync_without_have ctx td sp tp d st)
         \<and> files_processed st \<le> files_processed (sync_without_have ctx td sp tp d st)"
proof -
  let ?R = "\<lambda>a b :: 'a sync_state. files_skipped a \<le> files_skipped b
                \<and> files_processed a \<le> files_processed b"
  have "?R st (sync_with_have ctx td sp tp tid d st)"
    by (rule sync_rel(1)[where R = ?R])
      (simp_all add: scan_both_counts create_and_scan_counts with_have_file_counts
        without_have_file_counts with_have_finish_counts without_have_finish_counts)
  moreover have "?R st (sync_without_have ctx td sp tp d st)"
    by (rule sync_rel(2)[where R = ?R])
      (simp_all add: scan_both_counts create_and_scan_counts with_have_file_counts
        without_have_file_counts with_have_finish_counts without_have_finish_counts)
  ultimately show "files_skipped st \<le> files_skipped (sync_with_have ctx td sp tp tid d st)
         \<and> files_processed st \<le> files_processed (sync_with_have ctx td sp tp tid d st)"
    and "files_skipped st \<le> files_skipped (sync_without_have ctx td sp tp d st)
         \<and> files_processed st \<le> files_processed (sync_without_have ctx td sp tp d st)"
    by simp_all
qed

text \<open>The loop's counters: each file entry counts once, a skipped one twice.\<close>

lemma with_have_loop_counts:
  "files_skipped (snd start)
     + int (length (filter (\<lambda>(n, i). \<not> ends_with_slash n \<and> \<not> needs_transfer tmap n i) smap))
     \<le> files_skipped (snd (with_have_loop ctx td sp tp d tmap smap start))
   \<and> files_processed (snd start) + int (length (filter (\<lambda>(n, i). \<not> ends_with_slash n) smap))
     \<le> files_processed (snd (with_have_loop ctx td sp tp d tmap smap start))
   \<and> (list_all (\<lambda>(n, i). \<not> ends_with_slash n) smap \<longrightarrow>
        files_skipped (snd (with_have_loop ctx td sp tp d tmap smap start))
          = files_skipped (snd start)
            + int (length (filter (\<lambda>(n, i). \<not> needs_transfer tmap n i) smap))
      \<and> files_processed (snd (with_have_loop ctx td sp tp d tmap smap start))
          = files_processed (snd start) + int (length smap))"
proof (induction smap arbitrary: start)
  case Nil
  show ?case by (simp add: with_have_loop_def)
next
  case (Cons x smap)
  obtain n i where x: "x = (n, i)" by (cases x)
  let ?step = "if \<not> ends_with_slash n then with_have_file tmap sp tp n i start
               else if \<not> dict_has tmap n
                 then (fst start, sync_without_have ctx td (sub_path sp n) (sub_path tp n) (d + 1) (snd start))
                 else (fst start, sync_with_have ctx td (sub_path sp n) (sub_path tp n)
                         (sub_file_id tmap n) (d + 1) (snd start))"
  have unf: "with_have_loop ctx td sp tp d tmap (x # smap) start
             = with_have_loop ctx td sp tp d tmap smap ?step"
    using x by (simp add: with_have_loop_def del: sync_with_have.simps sync_without_have.simps)
  note ih = Cons.IH[of ?step]
  show ?case
  proof (cases "ends_with_slash n")
    case False
    have s: "?step = with_have_file tmap sp tp n i start" using False by simp
    show ?thesis
      unfolding unf using ih x False with_have_file_counts[of tmap sp tp n i start]
      unfolding s by (auto simp del: sync_with_have.simps sync_without_have.simps)
  next
    case True
    have g: "files_skipped (snd start) \<le> files_skipped (snd ?step)
             \<and> files_processed (snd start) \<le> files_processed (snd ?step)"
      using True by (simp add: sync_counts_grow del: sync_with_have.simps sync_without_have.simps)
    show ?thesis
      unfolding unf using ih x True g
      by (auto simp del: sync_with_have.simps sync_without_have.simps)
  qed
qed

lemma length_filter_split:
  "int (length (filter (\<lambda>x. P x \<and> \<not> Q x) xs))
     = int (length (filter P xs)) - int (length (filter (\<lambda>x. P x \<and> Q x) xs))"
  by (induction xs) auto

lemma with_have_finish_nothing_collected:
  "\<exists>tail. calls (with_have_finish ctx td tp smap tmap ([], st)) = calls st @ tail
          \<and> list_all is_remove tail"
proof -
  have t: "transfer_collected ctx td [] st = (True, st)" by (simp add: transfer_collected_def)
  show ?thesis
  proof (cases "sync_method ctx = ''full''")
    case False
    then show ?thesis using t by (simp add: with_have_finish_def)
  next
    case True
    then have "with_have_finish ctx td tp smap tmap ([], st)
               = snd (delete_files ctx td (files_to_delete tp smap tmap) st)"
      using t by (simp add: with_have_finish_def)
    then show ?thesis
      using delete_files_calls[of ctx td "files_to_delete tp smap tmap" st] by auto
  qed
qed


subsection \<open>A second incremental run\<close>

text \<open>
  When an incremental run starts on a target that mirrors the source and listing does
  not change the drive, the run transfers nothing: \<open>files_transferred = 0\<close>, every source
  file it processes is counted in \<open>files_skipped\<close>, no error is collected, and no mkdir,
  transfer or remove is issued.
\<close>

lemma incremental_on_mirrored_target_is_quiet:
  assumes "\<forall>p w. snd (dm_get_share_list (drive_manager ctx) p w) = w"
    and "\<forall>p w. snd (dm_get_disk_list (drive_manager ctx) p w) = w"
    and "sync_method ctx = ''incremental''"
    and "mirrored ctx (src_file_path (source_definition ctx)) (dst_file_path target_definition)
           (PStr (dst_file_id target_definition)) 0 w"
  shows "files_transferred (ps_stats (perform_sync ctx target_definition w)) = 0
       \<and> files_skipped (ps_stats (perform_sync ctx target_definition w))
           = files_processed (ps_stats (perform_sync ctx target_definition w))
       \<and> errors (ps_stats (perform_sync ctx target_definition w)) = []
       \<and> folder_created (ps_stats (perform_sync ctx target_definition w)) = 0
       \<and> files_deleted (ps_stats (perform_sync ctx target_definition w)) = 0
       \<and> world (ps_stats (perform_sync ctx target_definition w)) = w
       \<and> list_all is_listing (calls (ps_stats (perform_sync ctx target_definition w)))"
proof -
  let ?st = "sync_with_have ctx target_definition (src_file_path (source_definition ctx))
               (dst_file_path target_definition) (PStr (dst_file_id target_definition)) 0
               (init_state w)"
  have nf: "sync_method ctx \<noteq> ''full''" using assms(3) by simp
  have m: "mirrored ctx (src_file_path (source_definition ctx)) (dst_file_path target_definition)
             (PStr (dst_file_id target_definition)) 0 (world (init_state w))"
    using assms(4) by (simp add: init_state_def)
  have q: "quiet (init_state w) ?st"
    by (rule sync_with_have_mirrored[OF assms(1) assms(2) nf refl m])
  have p: "ps_stats (perform_sync ctx target_definition w) = ?st"
    using assms(3) by (simp add: perform_sync_def Let_def del: sync_with_have.simps)
  have "filter (\<lambda>c. \<not> is_listing c) (calls ?st) = []"
    using q by (simp add: quiet_def init_state_def del: sync_with_have.simps)
  then have "list_all is_listing (calls ?st)"
    by (simp add: list_all_iff filter_empty_conv del: sync_with_have.simps)
  then show ?thesis
    using q p by (simp add: quiet_def init_state_def del: sync_with_have.simps)
qed

text \<open>
  On the reference drive, which addresses folders by path, the first run of the spec's
  first scenario leaves a mirrored target, and the second run has
  \<open>files_transferred = 0\<close> and \<open>files_skipped = 2\<close>.
\<close>

lemma reference_drive_second_run_is_quiet:
  "sync_method (config_ctx ref_drive (ref_config (Some ''incremental'')) None 1) = ''incremental''
   \<and> mirrored (config_ctx ref_drive (ref_config (Some ''incremental'')) None 1)
        ''/root'' ''/dst'' (PStr ''/dst'') 0
        (world (ps_stats (perform_sync
            (config_ctx ref_drive (ref_config (Some ''incremental'')) None 1)
            ref_target world_fresh)))
   \<and> files_transferred (ps_stats (perform_sync
         (config_ctx ref_drive (ref_config (Some ''incremental'')) None 1) ref_target
         (world (ps_stats (perform_sync
            (config_ctx ref_drive (ref_config (Some ''incremental'')) None 1)
            ref_target world_fresh))))) = 0
   \<and> files_skipped (ps_stats (perform_sync
         (config_ctx ref_drive (ref_config (Some ''incremental'')) None 1) ref_target
         (world (ps_stats (perform_sync
            (config_ctx ref_drive (ref_config (Some ''incremental'')) None 1)
            ref_target world_fresh))))) = 2"
proof -
  let ?ctx = "config_ctx ref_drive (ref_config (Some ''incremental'')) None 1"
  let ?w1 = "world (ps_stats (perform_sync ?ctx ref_target world_fresh))"
  have ro1: "\<forall>p w. snd (dm_get_share_list (drive_manager ?ctx) p w) = w"
    by (simp add: config_ctx_def ref_drive_def ref_get_share_list_def split: option.splits)
  have ro2: "\<forall>p w. snd (dm_get_disk_list (drive_manager ?ctx) p w) = w"
    by (simp add: config_ctx_def ref_drive_def ref_get_disk_list_def split: option.splits)
  have inc: "sync_method ?ctx = ''incremental''" by code_simp
  have paths: "src_file_path (source_definition ?ctx) = ''/root''"
    "dst_file_path ref_target = ''/dst''" "dst_file_id ref_target = ''/dst''"
    by (simp_all add: config_ctx_def ref_config_def ref_target_def)
  have mir: "mirrored ?ctx ''/root'' ''/dst'' (PStr ''/dst'') 0 ?w1" by code_simp
  have mir': "mirrored ?ctx (src_file_path (source_definition ?ctx)) (dst_file_path ref_target)
           (PStr (dst_file_id ref_target)) 0 ?w1"
    using mir by (simp only: paths)
  have pr: "files_processed (ps_stats (perform_sync ?ctx ref_target ?w1)) = 2" by code_simp
  show ?thesis
    using inc mir pr incremental_on_mirrored_target_is_quiet[OF ro1 ro2 inc mir'] by simp
qed

text \<open>
  A file that was listed without an id is refused by \<open>transfer_files\<close> in every run: it
  is never transferred and never counted in \<open>files_skipped\<close>.
\<close>

lemma file_without_id_is_never_counted_skipped:
  "map file_name (filter (\<lambda>f. \<not> is_folder f) (concat (map snd (share world_one_no_id))))
     = [''a.txt'']
   \<and> world (ps_stats (perform_sync (config_ctx ref_drive (ref_config (Some ''incremental'')) None 1)
                        ref_target world_one_no_id)) = world_one_no_id
   \<and> files_transferred (ps_stats (perform_sync
         (config_ctx ref_drive (ref_config (Some ''incremental'')) None 1) ref_target
         (world (ps_stats (perform_sync
            (config_ctx ref_drive (ref_config (Some ''incremental'')) None 1)
            ref_target world_one_no_id))))) = 0
   \<and> files_skipped (ps_stats (perform_sync
         (config_ctx ref_drive (ref_config (Some ''incremental'')) None 1) ref_target
         (world (ps_stats (perform_sync
            (config_ctx ref_drive (ref_config (Some ''incremental'')) None 1)
            ref_target world_one_no_id))))) = 0"
  by code_simp

text \<open>
  On the drive that addresses folders by id, a first run into an empty target goes
  through \<open>sync_without_have\<close>, which hands the id of the folder it created to the
  transfer; the second run then skips the file.
\<close>

lemma id_drive_fresh_target_second_run_is_quiet:
  "errors (ps_stats (perform_sync (config_ctx id_drive id_config None 1) id_target
             id_world_fresh)) = []
   \<and> map (\<lambda>(fid, files). (fid, map file_name files))
         (id_disk (world (ps_stats (perform_sync (config_ctx id_drive id_config None 1) id_target
                                      id_world_fresh))))
       = [(''T0'', [''b'']), (''d1'', [''c.txt''])]
   \<and> files_transferred (ps_stats (perform_sync (config_ctx id_drive id_config None 1) id_target
         (world (ps_stats (perform_sync (config_ctx id_drive id_config None 1) id_target
                             id_world_fresh))))) = 0
   \<and> files_skipped (ps_stats (perform_sync (config_ctx id_drive id_config None 1) id_target
         (world (ps_stats (perform_sync (config_ctx id_drive id_config None 1) id_target
                             id_world_fresh))))) = 1"
  by code_simp

text \<open>
  \<open>sync_with_have\<close> also hands the target definition it was given to the
  \<open>sync_without_have\<close> it starts for a folder missing from the target, so below the root
  the mkdir is issued for the root: on the reference drive the folder \<open>c\<close> of \<open>/root/b\<close>
  is created as \<open>/dst/c\<close>, and the transfer into \<open>/dst/b/c/\<close> fails.
\<close>

lemma nested_folder_is_created_under_the_root:
  "map call_summary
     (calls (ps_stats (perform_sync (config_ctx ref_drive (ref_config None) None 1)
                         ref_target world_nested)))
     = [(''list_share'', ''/root''), (''list_disk'', ''/dst''),
        (''list_share'', ''/root/b/''), (''list_disk'', ''/dst/b/''),
        (''mkdir'', ''c''), (''list_share'', ''/root/b/c/''), (''transfer'', ''/dst/b/c/'')]
   \<and> map (\<lambda>(path, files). (path, map file_name files))
         (disk (world (ps_stats (perform_sync (config_ctx ref_drive (ref_config None) None 1)
                                   ref_target world_nested))))
       = [(''/dst'', [''b'', ''c'']), (''/dst/b'', []), (''/dst/c'', [])]
   \<and> files_transferred (ps_stats (perform_sync (config_ctx ref_drive (ref_config None) None 1)
                                   ref_target world_nested)) = 0
   \<and> length (errors (ps_stats (perform_sync (config_ctx ref_drive (ref_config None) None 1)
                                   ref_target world_nested))) = 1"
  by code_simp

section \<open>The claims\<close>

text \<open>
  C10. A method string that is not, ignoring case, \<open>incremental\<close>, \<open>full\<close> or \<open>overwrite\<close>
  (the empty string and \<open>None\<close> included) is parsed as \<open>incremental\<close>;
  \<open>execute_sync_by_config_id\<close> then runs the configuration with the incremental
  strategy, and that run makes no remove call to the drive manager.
\<close>

theorem C10_unrecognised_method_runs_incremental_without_delete:
  assumes "(case m of None \<Rightarrow> [] | Some s \<Rightarrow> str_lower s)
             \<notin> {SyncMethod_INCREMENTAL, SyncMethod_FULL, SyncMethod_OVERWRITE}"
  shows "parse_sync_method m = SyncMethod_INCREMENTAL
       \<and> sync_method (config_ctx dm (config\<lparr>cfg_method := m\<rparr>) exclude_rules new_task_id)
           = SyncMethod_INCREMENTAL
       \<and> (case er_stats (execute_sync_by_config_id dm (config\<lparr>cfg_method := m\<rparr>)
                           exclude_rules rename_rules new_task_id w) of
            None \<Rightarrow> True
          | Some st \<Rightarrow> filter is_remove (calls st) = [])"
proof -
  have p: "parse_sync_method m = SyncMethod_INCREMENTAL"
    using assms by (cases m) (auto simp: parse_sync_method_def Let_def str_lower_def
        SyncMethod_INCREMENTAL_def SyncMethod_FULL_def SyncMethod_OVERWRITE_def)
  have s: "sync_method (config_ctx dm (config\<lparr>cfg_method := m\<rparr>) exclude_rules new_task_id)
           = ''incremental''"
    using p by (simp add: config_ctx_def SyncMethod_INCREMENTAL_def)
  show ?thesis
    using p s perform_sync_incremental_removes[OF s]
    by (simp add: execute_sync_by_config_id_def Let_def SyncMethod_INCREMENTAL_def)
qed

theorem C10_witness:
  "(case Some ''Mirror'' of None \<Rightarrow> [] | Some s \<Rightarrow> str_lower s)
       \<notin> {SyncMethod_INCREMENTAL, SyncMethod_FULL, SyncMethod_OVERWRITE}
   \<and> parse_sync_method (Some ''Mirror'') = SyncMethod_INCREMENTAL
   \<and> filter is_remove (calls (the (er_stats (execute_sync_by_config_id ref_drive
         ((ref_config None)\<lparr>cfg_method := Some ''Mirror''\<rparr>) None None 1 world_fresh)))) = []"
proof -
  have h: "(case Some ''Mirror'' of None \<Rightarrow> [] | Some s \<Rightarrow> str_lower s)
       \<notin> {SyncMethod_INCREMENTAL, SyncMethod_FULL, SyncMethod_OVERWRITE}"
    by (simp add: str_lower_def lower_char_def SyncMethod_INCREMENTAL_def SyncMethod_FULL_def
        SyncMethod_OVERWRITE_def)
  have v: "er_stats (execute_sync_by_config_id ref_drive
         ((ref_config None)\<lparr>cfg_method := Some ''Mirror''\<rparr>) None None 1 world_fresh) \<noteq> None"
    by (simp add: execute_sync_by_config_id_def definitions_valid_def ref_config_def Let_def)
  show ?thesis
    using h v C10_unrecognised_method_runs_incremental_without_delete[OF h,
        of ref_drive "ref_config None" None 1 None world_fresh]
    by (auto split: option.splits)
qed

text \<open>
  C5. When \<open>perform_sync\<close> has finished, the task row gets the status \<open>completed\<close>
  exactly when no error was collected; otherwise it gets \<open>failed\<close> and \<open>err_msg\<close> is the
  first collected error. So a run that transferred files and collected an error is
  \<open>failed\<close>, as the witness shows.
\<close>

theorem C5_task_completed_iff_no_errors:
  assumes "definitions_valid config"
  shows "let r = execute_sync_by_config_id dm config exclude_rules rename_rules new_task_id w;
             st = ps_stats (perform_sync (config_ctx dm config exclude_rules new_task_id)
                    \<lparr>dst_file_path = cfg_dst_path config, dst_file_id = cfg_dst_file_id config\<rparr> w)
         in er_stats r = Some st
          \<and> (er_task_status r = ''completed'') = (errors st = [])
          \<and> (if errors st = [] then er_task_err_msg r = None
              else er_task_status r = ''failed'' \<and> er_task_err_msg r = Some (hd (errors st)))"
  using assms
  by (simp add: execute_sync_by_config_id_def perform_sync_def Let_def)

theorem C5_witness:
  "definitions_valid (ref_config None)
   \<and> er_task_status (execute_sync_by_config_id ref_drive (ref_config None) None None 1 world_no_id)
       = ''failed''
   \<and> files_transferred (the (er_stats
         (execute_sync_by_config_id ref_drive (ref_config None) None None 1 world_no_id))) = 1
   \<and> er_task_err_msg (execute_sync_by_config_id ref_drive (ref_config None) None None 1 world_no_id)
       = Some (msg_missing_file_id [(''file_name'', PStr ''c.txt'')])"
proof -
  have v: "definitions_valid (ref_config None)" by code_simp
  let ?st = "ps_stats (perform_sync (config_ctx ref_drive (ref_config None) None 1)
                    \<lparr>dst_file_path = cfg_dst_path (ref_config None),
                       dst_file_id = cfg_dst_file_id (ref_config None)\<rparr> world_no_id)"
  have e: "errors ?st = [msg_missing_file_id [(''file_name'', PStr ''c.txt'')]]" by code_simp
  have t: "files_transferred ?st = 1" by code_simp
  show ?thesis
    using v e t C5_task_completed_iff_no_errors[OF v, of ref_drive None None 1 world_no_id]
    by (simp add: Let_def)
qed

text \<open>
  C6, as the specification states it, fails when the tick falls exactly on a cron
  instant. With the schedule \<open>*/5 * * * *\<close>, a tick at 00:10:00 and a last
  synchronisation at 00:07:00, the latest cron instant \<open>\<le> now\<close> is 00:10:00, the lag is
  0 and the last synchronisation is earlier, so the configuration is eligible by the
  specification's words; the previous firing the library gives is 00:05:00, earlier than
  the last synchronisation, and \<open>_should_execute_now\<close> answers no.
\<close>

theorem C6_counterexample:
  "spec_prev_fire every_five_minutes ''*/5 * * * *'' 600000000 = Some 600000000
   \<and> spec_eligible every_five_minutes ''*/5 * * * *'' (Some 420000000) 600000000
   \<and> croniter_get_prev every_five_minutes ''*/5 * * * *'' 600000000 = Some 300000000
   \<and> \<not> should_execute_now (croniter_get_prev every_five_minutes) ''*/5 * * * *''
         (Some 420000000) 600000000"
  by code_simp

text \<open>
  C6, amended. A configuration is eligible exactly when the schedule has an instant
  strictly before \<open>now\<close> and, for \<open>prev_fire\<close> the latest such instant,
  \<open>now - prev_fire \<le> 5\<close> minutes (the lag is then positive) and \<open>last_sync\<close> is null or
  earlier than \<open>prev_fire\<close>.
\<close>

theorem C6_eligible_iff_in_window_and_not_yet_run:
  "should_execute_now (croniter_get_prev schedule) cron_expr last_sync now
   = (\<exists>prev_fire. fire_instant (schedule cron_expr) prev_fire \<and> prev_fire < now
        \<and> (\<forall>t. fire_instant (schedule cron_expr) t \<and> t < now \<longrightarrow> t \<le> prev_fire)
        \<and> now - prev_fire \<le> 5 * 60 * 1000000
        \<and> (case last_sync of None \<Rightarrow> True | Some t \<Rightarrow> t < prev_fire))"
proof (cases "croniter_get_prev schedule cron_expr now")
  case None
  have "\<not> (\<exists>p. fire_instant (schedule cron_expr) p \<and> p < now
        \<and> (\<forall>t. fire_instant (schedule cron_expr) t \<and> t < now \<longrightarrow> t \<le> p))"
    using None croniter_get_prev_Some[of schedule cron_expr now] by simp
  then show ?thesis using None by (auto simp: should_execute_now_def)
next
  case (Some p)
  have u: "\<And>q. fire_instant (schedule cron_expr) q \<and> q < now
        \<and> (\<forall>t. fire_instant (schedule cron_expr) t \<and> t < now \<longrightarrow> t \<le> q) \<longleftrightarrow> q = p"
  proof -
    fix q
    show "fire_instant (schedule cron_expr) q \<and> q < now
        \<and> (\<forall>t. fire_instant (schedule cron_expr) t \<and> t < now \<longrightarrow> t \<le> q) \<longleftrightarrow> q = p"
      using Some croniter_get_prev_Some[of schedule cron_expr now q] by auto
  qed
  have lt: "p < now" using u[of p] by simp
  have "should_execute_now (croniter_get_prev schedule) cron_expr last_sync now
        = (now - p \<le> 5 * 60 * 1000000 \<and> (case last_sync of None \<Rightarrow> True | Some t \<Rightarrow> t < p))"
    using Some lt
    by (auto simp: should_execute_now_def execution_window_minutes_def Let_def split: option.splits)
  also have "\<dots> = (\<exists>q. (fire_instant (schedule cron_expr) q \<and> q < now
        \<and> (\<forall>t. fire_instant (schedule cron_expr) t \<and> t < now \<longrightarrow> t \<le> q))
        \<and> now - q \<le> 5 * 60 * 1000000
        \<and> (case last_sync of None \<Rightarrow> True | Some t \<Rightarrow> t < q))"
    unfolding u by simp
  finally show ?thesis by simp
qed

theorem C6_witness:
  "should_execute_now (croniter_get_prev every_five_minutes) ''*/5 * * * *''
     (Some 420000000) 601000000
   \<and> (\<exists>prev_fire. fire_instant (every_five_minutes ''*/5 * * * *'') prev_fire
         \<and> prev_fire < 601000000 \<and> 601000000 - prev_fire \<le> 300000000
         \<and> 420000000 < prev_fire)"
proof -
  have r: "should_execute_now (croniter_get_prev every_five_minutes) ''*/5 * * * *''
             (Some 420000000) 601000000"
    by code_simp
  then show ?thesis
    using C6_eligible_iff_in_window_and_not_yet_run[of every_five_minutes "''*/5 * * * *''"
        "Some 420000000" 601000000]
    by auto
qed

text \<open>
  C7, as the specification states it, fails. The rule renames \<open>a.txt\<close> to \<open>b.txt\<close> and the
  target holds \<open>b.txt\<close> of the same size: compared under the planned name the file would
  be skipped, but the engine compares \<open>a.txt\<close> and transfers it.
\<close>

theorem C7_counterexample:
  "spec_planned_name [rule_a_to_b] (ref_file ''f1'' ''/root'' ''a.txt'' 10) = ''b.txt''
   \<and> needs_transfer (build_file_map (config_ctx ref_drive (ref_config None) None 1) False
          [ref_file ''g1'' ''/dst'' ''b.txt'' 10] [])
        ''b.txt'' (make_file_info True (ref_file ''f1'' ''/root'' ''a.txt'' 10)) = False
   \<and> files_transferred (the (er_stats (execute_sync_by_config_id ref_drive (ref_config None)
         None (Some [rule_a_to_b]) 1 world_renamed))) = 1"
  by code_simp

text \<open>
  C7, amended. The rename rules are loaded and then left unused: the outcome of
  \<open>execute_sync_by_config_id\<close> is the same with any rename rules as with none, so the diff
  compares the source names as listed.
\<close>

theorem C7_rename_rules_do_not_enter_the_diff:
  "execute_sync_by_config_id dm config exclude_rules rename_rules new_task_id w
   = execute_sync_by_config_id dm config exclude_rules None new_task_id w"
  by (simp add: execute_sync_by_config_id_def)

theorem C7_witness:
  "files_transferred (the (er_stats (execute_sync_by_config_id ref_drive (ref_config None)
         None None 1 world_renamed))) = 1
   \<and> execute_sync_by_config_id ref_drive (ref_config None) None (Some [rule_a_to_b]) 1 world_renamed
     = execute_sync_by_config_id ref_drive (ref_config None) None None 1 world_renamed"
proof -
  have "files_transferred (the (er_stats (execute_sync_by_config_id ref_drive (ref_config None)
         None None 1 world_renamed))) = 1"
    by code_simp
  then show ?thesis
    using C7_rename_rules_do_not_enter_the_diff[of ref_drive "ref_config None" None
        "Some [rule_a_to_b]" 1 world_renamed]
    by simp
qed

text \<open>
  C4. The policy counts every conflict error collected so far, not the consecutive ones:
  with two conflicts, another error, and a third conflict it aborts, although only two
  conflicts are consecutive. (The source's comment and message say "consecutive".)
\<close>

theorem C4_abort_counts_all_conflicts_not_consecutive_ones:
  "handle_transfer_error
     ((init_state world_fresh)\<lparr>errors :=
        [msg_transfer_exception ''error_code: 111'',
         msg_scan_failed ''/root/b/'' ''/dst/b/'' ''disk path not found'',
         msg_transfer_exception ''error_code: 111'',
         msg_transfer_exception ''error_code: 111'']\<rparr>)
   = (False,
      (init_state world_fresh)\<lparr>errors :=
        [msg_transfer_exception ''error_code: 111'',
         msg_scan_failed ''/root/b/'' ''/dst/b/'' ''disk path not found'',
         msg_transfer_exception ''error_code: 111'',
         msg_transfer_exception ''error_code: 111'',
         msg_abort_conflict 3],
        sleeps := [30]\<rparr>)"
  by code_simp

text \<open>
  C9, as the specification states it, fails: with \<open>max_depth = 100\<close> a call at depth
  exactly \<open>100\<close> returns the state unchanged, for both functions; depth \<open>99\<close> is the
  last one processed.
\<close>

theorem C9_counterexample:
  "max_depth (config_ctx ref_drive (ref_config None) None 1) = 100
   \<and> sync_with_have (config_ctx ref_drive (ref_config None) None 1) ref_target
        ''/root'' ''/dst'' (PStr ''/dst'') 100 (init_state world_fresh)
      = init_state world_fresh
   \<and> sync_without_have (config_ctx ref_drive (ref_config None) None 1) ref_target
        ''/root/b/'' ''/dst/b/'' 100 (init_state world_fresh)
      = init_state world_fresh
   \<and> files_processed (sync_with_have (config_ctx ref_drive (ref_config None) None 1) ref_target
        ''/root'' ''/dst'' (PStr ''/dst'') 99 (init_state world_fresh)) = 1"
  by code_simp

text \<open>
  C9, amended. A call at a depth below \<open>max_depth\<close> is processed: \<open>sync_with_have\<close>
  lists its source directory, \<open>sync_without_have\<close> issues its mkdir. A call at depth
  \<open>max_depth\<close> or more stops silently: the state, and with it \<open>errors\<close>, is unchanged.
\<close>

theorem C9_depth_below_max_is_processed_and_max_stops:
  "(max_depth ctx \<le> d \<longrightarrow>
      sync_with_have ctx td sp tp tid d st = st \<and> sync_without_have ctx td sp tp d st = st)
   \<and> (d < max_depth ctx \<longrightarrow>
      (\<exists>rest. calls (sync_with_have ctx td sp tp tid d st) =
         calls st @ CallShareList \<lparr>ls_drive_type = drive_type ctx,
                       ls_source_type = src_source_type (source_definition ctx),
                       ls_source_id = src_source_id (source_definition ctx),
                       ls_file_path = sp\<rparr> # rest)
      \<and> (\<exists>rest. calls (sync_without_have ctx td sp tp d st) =
         calls st @ CallMkdir \<lparr>mk_drive_type = drive_type ctx, mk_file_path = dst_file_path td,
                       mk_file_name = last_segment (rstrip_slash tp),
                       mk_parent_id = dst_file_id td, mk_return_if_exist = True\<rparr> # rest))"
  using sync_with_have_first_call[of d ctx td sp tp tid st]
    sync_without_have_first_call[of d ctx td sp tp st]
  by simp

theorem C9_witness:
  "(99::nat) < max_depth (config_ctx ref_drive (ref_config None) None 1)
   \<and> max_depth (config_ctx ref_drive (ref_config None) None 1) \<le> 100
   \<and> sync_with_have (config_ctx ref_drive (ref_config None) None 1) ref_target
        ''/root'' ''/dst'' (PStr ''/dst'') 100 (init_state world_fresh) = init_state world_fresh
   \<and> (\<exists>rest. calls (sync_with_have (config_ctx ref_drive (ref_config None) None 1) ref_target
        ''/root'' ''/dst'' (PStr ''/dst'') 99 (init_state world_fresh)) =
         CallShareList \<lparr>ls_drive_type = ''ref'', ls_source_type = ''friend'',
                         ls_source_id = ''uk1'', ls_file_path = ''/root''\<rparr> # rest)"
proof -
  have m: "max_depth (config_ctx ref_drive (ref_config None) None 1) = 100"
    by (simp add: config_ctx_def)
  have c: "drive_type (config_ctx ref_drive (ref_config None) None 1) = ''ref''"
     "src_source_type (source_definition (config_ctx ref_drive (ref_config None) None 1)) = ''friend''"
     "src_source_id (source_definition (config_ctx ref_drive (ref_config None) None 1)) = ''uk1''"
    by (simp_all add: config_ctx_def ref_config_def)
  show ?thesis
    using m c
      C9_depth_below_max_is_processed_and_max_stops[of
        "config_ctx ref_drive (ref_config None) None 1" 100 ref_target "''/root''" "''/dst''"
        "PStr ''/dst''" "init_state world_fresh"]
      C9_depth_below_max_is_processed_and_max_stops[of
        "config_ctx ref_drive (ref_config None) None 1" 99 ref_target "''/root''" "''/dst''"
        "PStr ''/dst''" "init_state world_fresh"]
    by (simp add: init_state_def del: sync_with_have.simps sync_without_have.simps)
qed


text \<open>
  C3. Take a call of \<open>sync_with_have\<close> below \<open>max_depth\<close> whose two listings succeed, and
  let the source and target maps be the ones \<open>list_dir\<close> builds from the listings the
  drive manager returned. The files the level collects are exactly the source entries
  that are files (keys without a trailing slash) and whose key is not in the target map
  or whose \<open>file_size\<close> differs from the target entry's (\<open>-1\<close> for an absent target size,
  \<open>0\<close> for an absent source size), in listing order: the level ends by handing exactly
  these to its batched transfer, the transfer it issues carries exactly their ids, and it
  issues none when nothing was collected. Every other file of the level adds one to
  \<open>files_skipped\<close>: at least that many are added, and exactly that many, with one
  \<open>files_processed\<close> per file, when the level lists no folder (folders add the counts of
  their own levels). The test reads the presence of the name and the two sizes and
  nothing else; no checksum, time or other key of an entry occurs in it. The target size
  is the size of a listed item of that name; so is the source size, unless the item's
  \<open>file_ext\<close> itself carries a key \<open>file_size\<close>, which \<open>list_dir\<close> copies over it.
\<close>

theorem C3_transfer_iff_absent_or_size_differs:
  assumes depth: "current_depth < max_depth ctx"
    and sp: "share_params = \<lparr>ls_drive_type = drive_type ctx,
                ls_source_type = src_source_type (source_definition ctx),
                ls_source_id = src_source_id (source_definition ctx),
                ls_file_path = source_path\<rparr>"
    and src: "dm_get_share_list (drive_manager ctx) share_params (world st)
                = (Inr source_listing, w1)"
    and dp: "disk_params = \<lparr>lf_drive_type = drive_type ctx, lf_file_path = target_path,
                lf_file_id = target_file_id\<rparr>"
    and dst: "dm_get_disk_list (drive_manager ctx) disk_params w1 = (Inr target_listing, w2)"
    and S: "source_file_map = build_file_map ctx True source_listing []"
    and T: "target_file_map = build_file_map ctx False target_listing []"
    and C: "collected =
              filter (\<lambda>(name, info).
                        \<not> ends_with_slash name
                        \<and> (\<not> dict_has target_file_map name
                           \<or> dict_get (dict_get target_file_map name []) ''file_size'' (PInt (- 1))
                               \<noteq> dict_get info ''file_size'' (PInt 0)))
                     source_file_map"
    and L: "after_loop =
              snd (with_have_loop ctx target_definition source_path target_path current_depth
                     target_file_map source_file_map
                     ([], st\<lparr>world := w2,
                              calls := calls st @ [CallShareList share_params,
                                                   CallDiskList disk_params]\<rparr>))"
    and R: "result = sync_with_have ctx target_definition source_path target_path
                       (PStr target_file_id) current_depth st"
  shows "result = with_have_finish ctx target_definition target_path source_file_map
                    target_file_map
                    (map (\<lambda>(name, info). make_transfer_file_info name info source_path target_path)
                         collected,
                     after_loop)
       \<and> (\<exists>tail. calls result = calls after_loop @ tail
              \<and> level_tail (map (\<lambda>(name, info). dict_get info ''file_id'' (PStr [])) collected)
                   (if sync_method ctx = ''full''
                    then Some (delete_paths target_path source_file_map target_file_map)
                    else None)
                   tail
              \<and> (collected = [] \<longrightarrow> list_all is_remove tail))
       \<and> files_skipped st
            + int (length (filter (\<lambda>(name, info). \<not> ends_with_slash name) source_file_map))
            - int (length collected)
          \<le> files_skipped result
       \<and> (list_all (\<lambda>(name, info). \<not> ends_with_slash name) source_file_map \<longrightarrow>
            files_processed result = files_processed st + int (length source_file_map)
          \<and> files_skipped result
              = files_skipped st + int (length source_file_map) - int (length collected))
       \<and> (\<forall>name info. map_of target_file_map name = Some info \<longrightarrow>
            (\<exists>f \<in> set target_listing. file_key f = name
               \<and> dict_get info ''file_size'' (PInt (- 1)) = listed_size f))
       \<and> (\<forall>name info. map_of source_file_map name = Some info \<longrightarrow>
            (\<exists>f \<in> set source_listing. file_key f = name
               \<and> (\<not> dict_has (file_ext f) ''file_size'' \<longrightarrow>
                    dict_get info ''file_size'' (PInt 0) = listed_size f)))"
proof -
  let ?st1 = "st\<lparr>world := w1, calls := calls st @ [CallShareList share_params]\<rparr>"
  let ?st2 = "st\<lparr>world := w2,
                 calls := calls st @ [CallShareList share_params, CallDiskList disk_params]\<rparr>"
  let ?needs = "\<lambda>(name, info). \<not> ends_with_slash name \<and> needs_transfer target_file_map name info"
  let ?loop = "with_have_loop ctx target_definition source_path target_path current_depth
                 target_file_map source_file_map ([], ?st2)"
  let ?files = "map (\<lambda>(name, info). make_transfer_file_info name info source_path target_path)
                    collected"
  have l1: "list_dir ctx source_path True PNone st = (Inr source_file_map, ?st1)"
    using src sp S by (simp add: list_dir_def Let_def)
  have l2: "list_dir ctx target_path False (PStr target_file_id) ?st1 = (Inr target_file_map, ?st2)"
    using dst dp T by (cases "target_file_id = []") (simp_all add: list_dir_def Let_def)
  have scan: "scan_both ctx source_path target_path (PStr target_file_id) st
                = (Some (source_file_map, target_file_map), ?st2)"
    using l1 l2 by (simp add: scan_both_def)
  have Cn: "collected = filter ?needs source_file_map"
    using C by (simp add: needs_transfer_def Let_def)
  have fst_loop: "fst ?loop = ?files"
    using with_have_loop_fst[of ctx target_definition source_path target_path current_depth
        target_file_map source_file_map "([], ?st2)"] Cn by simp
  have loop: "?loop = (?files, after_loop)"
    using fst_loop L by (metis prod.collapse)
  have res: "result = with_have_finish ctx target_definition target_path source_file_map
                        target_file_map (?files, after_loop)"
    using R depth scan loop by (simp add: sync_with_have_unfold del: sync_with_have.simps)
  have ids: "file_ids_of ?files
               = map (\<lambda>(name, info). dict_get info ''file_id'' (PStr [])) collected"
    by (simp add: file_ids_of_def make_transfer_file_info_file_id split_def)
  obtain tail where tl: "calls result = calls after_loop @ tail"
    and lt: "level_tail (file_ids_of ?files)
               (if sync_method ctx = ''full''
                then Some (delete_paths target_path source_file_map target_file_map)
                else None) tail"
    using with_have_finish_tail[of ctx target_definition target_path source_file_map
        target_file_map ?files after_loop] res by auto
  have no_transfer: "collected = [] \<longrightarrow> list_all is_remove tail"
  proof
    assume e: "collected = []"
    obtain tail' where "calls result = calls after_loop @ tail'" and "list_all is_remove tail'"
      using with_have_finish_nothing_collected[of ctx target_definition target_path
          source_file_map target_file_map after_loop] res e by auto
    then show "list_all is_remove tail" using tl by simp
  qed
  have part2: "\<exists>tail. calls result = calls after_loop @ tail
              \<and> level_tail (map (\<lambda>(name, info). dict_get info ''file_id'' (PStr [])) collected)
                   (if sync_method ctx = ''full''
                    then Some (delete_paths target_path source_file_map target_file_map)
                    else None)
                   tail
              \<and> (collected = [] \<longrightarrow> list_all is_remove tail)"
  proof (intro exI[of _ tail] conjI)
    show "calls result = calls after_loop @ tail" by (rule tl)
    show "level_tail (map (\<lambda>(name, info). dict_get info ''file_id'' (PStr [])) collected)
                   (if sync_method ctx = ''full''
                    then Some (delete_paths target_path source_file_map target_file_map)
                    else None)
                   tail"
      using lt ids by simp
    show "collected = [] \<longrightarrow> list_all is_remove tail" by (rule no_transfer)
  qed
  have fin: "files_skipped result = files_skipped after_loop
             \<and> files_processed result = files_processed after_loop"
    using with_have_finish_counts[of ctx target_definition target_path source_file_map
        target_file_map "(?files, after_loop)"] res by simp
  note lc = with_have_loop_counts[of "([], ?st2)" target_file_map source_file_map ctx
      target_definition source_path target_path current_depth]
  have split: "int (length (filter (\<lambda>(n, i). \<not> ends_with_slash n \<and> \<not> needs_transfer target_file_map n i)
                       source_file_map))
        = int (length (filter (\<lambda>(n, i). \<not> ends_with_slash n) source_file_map))
          - int (length collected)"
    using length_filter_split[of "\<lambda>(n, i). \<not> ends_with_slash n"
        "\<lambda>(n, i). needs_transfer target_file_map n i" source_file_map] Cn
    by (simp add: split_def)
  have part3: "files_skipped st
            + int (length (filter (\<lambda>(name, info). \<not> ends_with_slash name) source_file_map))
            - int (length collected)
          \<le> files_skipped result"
    using lc split fin L by simp
  have part4: "list_all (\<lambda>(name, info). \<not> ends_with_slash name) source_file_map \<longrightarrow>
            files_processed result = files_processed st + int (length source_file_map)
          \<and> files_skipped result
              = files_skipped st + int (length source_file_map) - int (length collected)"
  proof
    assume fo: "list_all (\<lambda>(name, info). \<not> ends_with_slash name) source_file_map"
    then have all: "filter (\<lambda>(n, i). \<not> ends_with_slash n) source_file_map = source_file_map"
      by (simp add: list_all_iff split_def)
    have eq: "filter (\<lambda>(n, i). \<not> needs_transfer target_file_map n i) source_file_map
              = filter (\<lambda>(n, i). \<not> ends_with_slash n \<and> \<not> needs_transfer target_file_map n i)
                  source_file_map"
      using fo by (auto simp: list_all_iff intro!: filter_cong)
    show "files_processed result = files_processed st + int (length source_file_map)
          \<and> files_skipped result
              = files_skipped st + int (length source_file_map) - int (length collected)"
      using lc fo fin L split all eq by simp
  qed
  have part5: "\<forall>name info. map_of target_file_map name = Some info \<longrightarrow>
            (\<exists>f \<in> set target_listing. file_key f = name
               \<and> dict_get info ''file_size'' (PInt (- 1)) = listed_size f)"
    using build_file_map_entry[of ctx False target_listing "[]"] T
    by (fastforce simp: make_file_info_size_target)
  have part6: "\<forall>name info. map_of source_file_map name = Some info \<longrightarrow>
            (\<exists>f \<in> set source_listing. file_key f = name
               \<and> (\<not> dict_has (file_ext f) ''file_size'' \<longrightarrow>
                    dict_get info ''file_size'' (PInt 0) = listed_size f))"
    using build_file_map_entry[of ctx True source_listing "[]"] S
    by (fastforce simp: make_file_info_size_source)
  show ?thesis using res part2 part3 part4 part5 part6 by blast
qed

theorem C3_witness:
  "files_processed (sync_with_have (config_ctx ref_drive (ref_config None) None 1) ref_target
      ''/root'' ''/dst'' (PStr ''/dst'') 0 (init_state world_size_mismatch)) = 1
   \<and> files_skipped (sync_with_have (config_ctx ref_drive (ref_config None) None 1) ref_target
      ''/root'' ''/dst'' (PStr ''/dst'') 0 (init_state world_size_mismatch)) = 0
   \<and> files_transferred (sync_with_have (config_ctx ref_drive (ref_config None) None 1) ref_target
      ''/root'' ''/dst'' (PStr ''/dst'') 0 (init_state world_size_mismatch)) = 1"
proof -
  let ?ctx = "config_ctx ref_drive (ref_config None) None 1 :: ref_world sync_ctx"
  let ?st = "init_state world_size_mismatch"
  let ?sp = "\<lparr>ls_drive_type = drive_type ?ctx,
                ls_source_type = src_source_type (source_definition ?ctx),
                ls_source_id = src_source_id (source_definition ?ctx),
                ls_file_path = ''/root''\<rparr>"
  let ?dp = "\<lparr>lf_drive_type = drive_type ?ctx, lf_file_path = ''/dst'', lf_file_id = ''/dst''\<rparr>"
  let ?sl = "[ref_file ''f1'' ''/root'' ''a.txt'' 12]"
  let ?tl = "[ref_file ''g1'' ''/dst'' ''a.txt'' 10]"
  let ?S = "build_file_map ?ctx True ?sl []"
  let ?T = "build_file_map ?ctx False ?tl []"
  have d: "0 < max_depth ?ctx" by (simp add: config_ctx_def)
  have a: "dm_get_share_list (drive_manager ?ctx) ?sp (world ?st) = (Inr ?sl, world_size_mismatch)"
    by code_simp
  have b: "dm_get_disk_list (drive_manager ?ctx) ?dp world_size_mismatch
             = (Inr ?tl, world_size_mismatch)"
    by code_simp
  have fo: "list_all (\<lambda>(name, info). \<not> ends_with_slash name) ?S" by code_simp
  have len: "length ?S = 1" by code_simp
  have col: "length (filter (\<lambda>(name, info).
                        \<not> ends_with_slash name
                        \<and> (\<not> dict_has ?T name
                           \<or> dict_get (dict_get ?T name []) ''file_size'' (PInt (- 1))
                               \<noteq> dict_get info ''file_size'' (PInt 0))) ?S) = 1"
    by code_simp
  have t: "files_transferred (sync_with_have ?ctx ref_target
      ''/root'' ''/dst'' (PStr ''/dst'') 0 ?st) = 1"
    by code_simp
  have i: "files_processed ?st = 0 \<and> files_skipped ?st = 0" by (simp add: init_state_def)
  show ?thesis
    using C3_transfer_iff_absent_or_size_differs[OF d refl a refl b refl refl refl refl refl,
        THEN conjunct2, THEN conjunct2, THEN conjunct2, THEN conjunct1]
      fo len col t i
    by simp
qed

text \<open>
  C8, as the specification states it, fails: a level enters its subdirectories inside
  the loop and transfers its own files after the loop. On the fresh copy of the spec's
  first scenario the root level's transfer (into \<open>/dst\<close>) is the last call, after the
  mkdir, the listing and the transfer of the subdirectory \<open>b\<close>.
\<close>

theorem C8_counterexample:
  "map call_summary
     (calls (ps_stats (perform_sync (config_ctx ref_drive (ref_config None) None 1)
                         ref_target world_fresh)))
   = [(''list_share'', ''/root''), (''list_disk'', ''/dst''),
      (''mkdir'', ''b''), (''list_share'', ''/root/b/''), (''transfer'', ''/dst/b/''),
      (''transfer'', ''/dst'')]"
  by code_simp

text \<open>
  C8, amended. For a level below \<open>max_depth\<close>: \<open>sync_without_have\<close> first issues the
  mkdir for its directory, then lists the source; the loop, which enters the level's
  subdirectories in listing order, only extends the log; after the loop the level makes
  at most two calls, which end the level's log: the batched transfer of the files the
  loop collected, then, for \<open>sync_with_have\<close> under the full strategy, the batched delete
  of the target entries missing from the source. So the order within a level is mkdir,
  recursion into the subdirectories, transfer, delete.
\<close>

theorem C8_level_order:
  assumes "current_depth < max_depth ctx"
  shows "(case scan_both ctx source_path target_path target_id st of
            (None, st1) \<Rightarrow>
              sync_with_have ctx target_definition source_path target_path target_id
                current_depth st = st1
          | (Some (source_file_map, target_file_map), st1) \<Rightarrow>
              (case with_have_loop ctx target_definition source_path target_path current_depth
                      target_file_map source_file_map ([], st1) of
                 (files_to_transfer, st2) \<Rightarrow>
                   prefix (calls st) (calls st1) \<and> prefix (calls st1) (calls st2)
                 \<and> take (length (calls st2))
                      (calls (sync_with_have ctx target_definition source_path target_path
                                target_id current_depth st)) = calls st2
                 \<and> level_tail (file_ids_of files_to_transfer)
                      (if sync_method ctx = ''full''
                       then Some (delete_paths target_path source_file_map target_file_map)
                       else None)
                      (drop (length (calls st2))
                         (calls (sync_with_have ctx target_definition source_path target_path
                                   target_id current_depth st)))))
       \<and> (case create_and_scan ctx target_definition source_path target_path st of
            (None, st1) \<Rightarrow>
              sync_without_have ctx target_definition source_path target_path current_depth st
                = st1
          | (Some (new_definition, source_file_map), st1) \<Rightarrow>
              (case without_have_loop ctx new_definition source_path target_path current_depth
                      source_file_map ([], st1) of
                 (files_to_transfer, st2) \<Rightarrow>
                   calls st1 = calls st @
                     [CallMkdir \<lparr>mk_drive_type = drive_type ctx,
                                  mk_file_path = dst_file_path target_definition,
                                  mk_file_name = last_segment (rstrip_slash target_path),
                                  mk_parent_id = dst_file_id target_definition,
                                  mk_return_if_exist = True\<rparr>,
                      CallShareList \<lparr>ls_drive_type = drive_type ctx,
                                      ls_source_type = src_source_type (source_definition ctx),
                                      ls_source_id = src_source_id (source_definition ctx),
                                      ls_file_path = source_path\<rparr>]
                 \<and> prefix (calls st1) (calls st2)
                 \<and> take (length (calls st2))
                      (calls (sync_without_have ctx target_definition source_path target_path
                                current_depth st)) = calls st2
                 \<and> level_tail (file_ids_of files_to_transfer) None
                      (drop (length (calls st2))
                         (calls (sync_without_have ctx target_definition source_path target_path
                                   current_depth st)))))"
proof -
  have w: "(case scan_both ctx source_path target_path target_id st of
            (None, st1) \<Rightarrow>
              sync_with_have ctx target_definition source_path target_path target_id
                current_depth st = st1
          | (Some (source_file_map, target_file_map), st1) \<Rightarrow>
              (case with_have_loop ctx target_definition source_path target_path current_depth
                      target_file_map source_file_map ([], st1) of
                 (files_to_transfer, st2) \<Rightarrow>
                   prefix (calls st) (calls st1) \<and> prefix (calls st1) (calls st2)
                 \<and> take (length (calls st2))
                      (calls (sync_with_have ctx target_definition source_path target_path
                                target_id current_depth st)) = calls st2
                 \<and> level_tail (file_ids_of files_to_transfer)
                      (if sync_method ctx = ''full''
                       then Some (delete_paths target_path source_file_map target_file_map)
                       else None)
                      (drop (length (calls st2))
                         (calls (sync_with_have ctx target_definition source_path target_path
                                   target_id current_depth st)))))"
  proof (cases "scan_both ctx source_path target_path target_id st")
    case (Pair r st1)
    have p0: "prefix (calls st) (calls st1)"
      using scan_both_calls_prefix[of st ctx source_path target_path target_id] Pair by simp
    show ?thesis
    proof (cases r)
      case None
      then show ?thesis using Pair assms
        by (simp add: sync_with_have_unfold del: sync_with_have.simps)
    next
      case (Some maps)
      obtain smap tmap where maps: "maps = (smap, tmap)" by (cases maps)
      obtain ftt st2 where l: "with_have_loop ctx target_definition source_path target_path
          current_depth tmap smap ([], st1) = (ftt, st2)"
        by (cases "with_have_loop ctx target_definition source_path target_path
          current_depth tmap smap ([], st1)")
      have p1: "prefix (calls st1) (calls st2)"
        using with_have_loop_calls_prefix[of "([], st1)" ctx target_definition source_path
            target_path current_depth tmap smap] l by simp
      have r: "sync_with_have ctx target_definition source_path target_path target_id
                current_depth st = with_have_finish ctx target_definition target_path smap tmap (ftt, st2)"
        using Pair Some maps l assms by (simp add: sync_with_have_unfold del: sync_with_have.simps)
      obtain tail where t: "calls (with_have_finish ctx target_definition target_path smap tmap
            (ftt, st2)) = calls st2 @ tail"
        and lt: "level_tail (file_ids_of ftt)
          (if sync_method ctx = ''full'' then Some (delete_paths target_path smap tmap) else None)
          tail"
        using with_have_finish_tail[of ctx target_definition target_path smap tmap ftt st2] by auto
      show ?thesis using Pair Some maps l p0 p1 r t lt
        by (simp del: sync_with_have.simps)
    qed
  qed
  have wo: "(case create_and_scan ctx target_definition source_path target_path st of
            (None, st1) \<Rightarrow>
              sync_without_have ctx target_definition source_path target_path current_depth st
                = st1
          | (Some (new_definition, source_file_map), st1) \<Rightarrow>
              (case without_have_loop ctx new_definition source_path target_path current_depth
                      source_file_map ([], st1) of
                 (files_to_transfer, st2) \<Rightarrow>
                   calls st1 = calls st @
                     [CallMkdir \<lparr>mk_drive_type = drive_type ctx,
                                  mk_file_path = dst_file_path target_definition,
                                  mk_file_name = last_segment (rstrip_slash target_path),
                                  mk_parent_id = dst_file_id target_definition,
                                  mk_return_if_exist = True\<rparr>,
                      CallShareList \<lparr>ls_drive_type = drive_type ctx,
                                      ls_source_type = src_source_type (source_definition ctx),
                                      ls_source_id = src_source_id (source_definition ctx),
                                      ls_file_path = source_path\<rparr>]
                 \<and> prefix (calls st1) (calls st2)
                 \<and> take (length (calls st2))
                      (calls (sync_without_have ctx target_definition source_path target_path
                                current_depth st)) = calls st2
                 \<and> level_tail (file_ids_of files_to_transfer) None
                      (drop (length (calls st2))
                         (calls (sync_without_have ctx target_definition source_path target_path
                                   current_depth st)))))"
  proof (cases "create_and_scan ctx target_definition source_path target_path st")
    case (Pair r st1)
    show ?thesis
    proof (cases r)
      case None
      then show ?thesis using Pair assms
        by (simp add: sync_without_have_unfold del: sync_without_have.simps)
    next
      case (Some res)
      obtain nd smap where res: "res = (nd, smap)" by (cases res)
      obtain ftt st2 where l: "without_have_loop ctx nd source_path target_path
          current_depth smap ([], st1) = (ftt, st2)"
        by (cases "without_have_loop ctx nd source_path target_path current_depth smap ([], st1)")
      have c: "calls st1 = calls st @
                     [CallMkdir \<lparr>mk_drive_type = drive_type ctx,
                                  mk_file_path = dst_file_path target_definition,
                                  mk_file_name = last_segment (rstrip_slash target_path),
                                  mk_parent_id = dst_file_id target_definition,
                                  mk_return_if_exist = True\<rparr>,
                      CallShareList \<lparr>ls_drive_type = drive_type ctx,
                                      ls_source_type = src_source_type (source_definition ctx),
                                      ls_source_id = src_source_id (source_definition ctx),
                                      ls_file_path = source_path\<rparr>]"
        using create_and_scan_Some_calls[of ctx target_definition source_path target_path st res st1]
          Pair Some by simp
      have p1: "prefix (calls st1) (calls st2)"
        using without_have_loop_calls_prefix[of "([], st1)" ctx nd source_path
            target_path current_depth smap] l by simp
      have r: "sync_without_have ctx target_definition source_path target_path
                current_depth st = without_have_finish ctx nd (ftt, st2)"
        using Pair Some res l assms
        by (simp add: sync_without_have_unfold del: sync_without_have.simps)
      obtain tail where t: "calls (without_have_finish ctx nd (ftt, st2)) = calls st2 @ tail"
        and lt: "level_tail (file_ids_of ftt) None tail"
        using without_have_finish_tail[of ctx nd ftt st2] by auto
      show ?thesis using Pair Some res l c p1 r t lt
        by (simp del: sync_without_have.simps)
    qed
  qed
  show ?thesis using w wo by simp
qed

theorem C8_witness:
  "(0::nat) < max_depth (config_ctx ref_drive (ref_config None) None 1)
   \<and> (case scan_both (config_ctx ref_drive (ref_config None) None 1) ''/root'' ''/dst''
              (PStr ''/dst'') (init_state world_fresh) of
         (None, st1) \<Rightarrow> False
       | (Some (source_file_map, target_file_map), st1) \<Rightarrow>
           (case with_have_loop (config_ctx ref_drive (ref_config None) None 1) ref_target
                   ''/root'' ''/dst'' 0 target_file_map source_file_map ([], st1) of
              (files_to_transfer, st2) \<Rightarrow>
                file_ids_of files_to_transfer = [PStr ''f1'']
              \<and> map call_summary (calls st2)
                  = [(''list_share'', ''/root''), (''list_disk'', ''/dst''),
                     (''mkdir'', ''b''), (''list_share'', ''/root/b/''), (''transfer'', ''/dst/b/'')]
              \<and> level_tail [PStr ''f1''] None
                   (drop (length (calls st2))
                      (calls (sync_with_have (config_ctx ref_drive (ref_config None) None 1)
                                ref_target ''/root'' ''/dst'' (PStr ''/dst'') 0
                                (init_state world_fresh))))))"
proof -
  let ?ctx = "config_ctx ref_drive (ref_config None) None 1"
  have d: "(0::nat) < max_depth ?ctx" by (simp add: config_ctx_def)
  have m: "sync_method ?ctx \<noteq> ''full''" by code_simp
  have e: "(case scan_both ?ctx ''/root'' ''/dst'' (PStr ''/dst'') (init_state world_fresh) of
         (None, st1) \<Rightarrow> False
       | (Some (source_file_map, target_file_map), st1) \<Rightarrow>
           (case with_have_loop ?ctx ref_target
                   ''/root'' ''/dst'' 0 target_file_map source_file_map ([], st1) of
              (files_to_transfer, st2) \<Rightarrow>
                file_ids_of files_to_transfer = [PStr ''f1'']
              \<and> map call_summary (calls st2)
                  = [(''list_share'', ''/root''), (''list_disk'', ''/dst''),
                     (''mkdir'', ''b''), (''list_share'', ''/root/b/''), (''transfer'', ''/dst/b/'')]))"
    by code_simp
  obtain r st1 where s: "scan_both ?ctx ''/root'' ''/dst'' (PStr ''/dst'')
      (init_state world_fresh) = (r, st1)"
    by (cases "scan_both ?ctx ''/root'' ''/dst'' (PStr ''/dst'') (init_state world_fresh)")
  obtain smap tmap where r: "r = Some (smap, tmap)"
    using e s by (cases r) auto
  obtain ftt st2 where l: "with_have_loop ?ctx ref_target ''/root'' ''/dst'' 0 tmap smap ([], st1)
      = (ftt, st2)"
    by (cases "with_have_loop ?ctx ref_target ''/root'' ''/dst'' 0 tmap smap ([], st1)")
  have f: "file_ids_of ftt = [PStr ''f1'']"
    and c: "map call_summary (calls st2)
                  = [(''list_share'', ''/root''), (''list_disk'', ''/dst''),
                     (''mkdir'', ''b''), (''list_share'', ''/root/b/''), (''transfer'', ''/dst/b/'')]"
    using e s r l by simp_all
  have t: "level_tail (file_ids_of ftt) None
             (drop (length (calls st2))
                (calls (sync_with_have ?ctx ref_target ''/root'' ''/dst'' (PStr ''/dst'') 0
                          (init_state world_fresh))))"
    using C8_level_order[OF d, of ref_target "''/root''" "''/dst''" "PStr ''/dst''"
        "init_state world_fresh", THEN conjunct1] s r l m
    by (simp del: sync_with_have.simps sync_without_have.simps)
  show ?thesis using d s r l f c t
    by (simp del: sync_with_have.simps sync_without_have.simps)
qed

text \<open>
  C2. A second incremental run is not always free of transfers. Below the root,
  \<open>sync_with_have\<close> lists the target folder by the id of that folder, but hands the target
  definition it was given, which is the root's, to \<open>transfer_files\<close>, so the batched
  transfer is issued with the folder's path and the root's id (\<open>sync_without_have\<close>
  replaces the definition by the one of the folder it works in). On a drive that
  addresses folders by id the files of a folder that exists on the target are saved into
  the root: the first run ends without an error and with \<open>files_transferred = 1\<close>, the
  folder \<open>b\<close> is still empty, and the second run, with nothing changed in between,
  transfers the file again and skips nothing.
\<close>

theorem C2_second_run_transfers_again:
  "errors (ps_stats (perform_sync (config_ctx id_drive id_config None 1) id_target id_world_b))
     = []
   \<and> files_transferred (ps_stats (perform_sync (config_ctx id_drive id_config None 1) id_target
                                   id_world_b)) = 1
   \<and> map (\<lambda>c. case c of
                  CallDiskList p \<Rightarrow> (''list_disk'', lf_file_path p, lf_file_id p)
                | CallTransfer p \<Rightarrow> (''transfer'', tp_target_path p, tp_target_id p)
                | _ \<Rightarrow> (''other'', [], []))
         (filter (\<lambda>c. \<not> (case c of CallShareList p \<Rightarrow> True | _ \<Rightarrow> False))
            (calls (ps_stats (perform_sync (config_ctx id_drive id_config None 1) id_target
                                id_world_b))))
       = [(''list_disk'', ''/dst'', ''T0''), (''list_disk'', ''/dst/b/'', ''T1''),
          (''transfer'', ''/dst/b/'', ''T0'')]
   \<and> map (\<lambda>(fid, files). (fid, map file_name files))
         (id_disk (world (ps_stats (perform_sync (config_ctx id_drive id_config None 1) id_target
                                      id_world_b))))
       = [(''T0'', [''b'', ''c.txt'']), (''T1'', [])]
   \<and> errors (ps_stats (perform_sync (config_ctx id_drive id_config None 1) id_target
         (world (ps_stats (perform_sync (config_ctx id_drive id_config None 1) id_target
                             id_world_b))))) = []
   \<and> files_processed (ps_stats (perform_sync (config_ctx id_drive id_config None 1) id_target
         (world (ps_stats (perform_sync (config_ctx id_drive id_config None 1) id_target
                             id_world_b))))) = 1
   \<and> files_transferred (ps_stats (perform_sync (config_ctx id_drive id_config None 1) id_target
         (world (ps_stats (perform_sync (config_ctx id_drive id_config None 1) id_target
                             id_world_b))))) = 1
   \<and> files_skipped (ps_stats (perform_sync (config_ctx id_drive id_config None 1) id_target
         (world (ps_stats (perform_sync (config_ctx id_drive id_config None 1) id_target
                             id_world_b))))) = 0"
  by code_simp

end
